(* ===== verification/Prelude.thy ===== *)
theory Prelude
  imports Main "HOL-Library.Word"
begin

text \<open>
  Shared vocabulary of the development: machine integers, Rust strings and results, the loop
  that walks an interleaved buffer with a stride, and the generic lemmas that the components share.
  The collections \<open>run_simps\<close> (unfolding of operations) and \<open>frame_simps\<close> (facts on
  interleaved frames) are the hint sets the component proofs pass to the simplifier.
\<close>

named_theorems run_simps
named_theorems frame_simps

section \<open>Machine integers and strings\<close>

type_synonym u8 = "8 word"
type_synonym u16 = "16 word"
type_synonym u32 = "32 word"
type_synonym u64 = "64 word"
type_synonym i64 = "64 word"

text \<open>
  A Rust \<^verbatim>\<open>String\<close> is a sequence of Unicode scalar values, here code points. \<open>lit\<close> turns
  an ASCII literal of HOL into one.
\<close>

type_synonym rstring = "nat list"

definition lit :: "string \<Rightarrow> rstring" where
  "lit s = map of_char s"

text \<open>
  The code points with the Unicode property White_Space, which \<^verbatim>\<open>str::trim\<close> removes at both
  ends, and the test \<^verbatim>\<open>s.trim().is_empty()\<close>.
\<close>

definition white_space :: "nat \<Rightarrow> bool" where
  "white_space c \<longleftrightarrow> c \<in> {9, 10, 11, 12, 13, 32, 133, 160, 5760, 8192, 8193, 8194, 8195, 8196,
     8197, 8198, 8199, 8200, 8201, 8202, 8232, 8233, 8239, 8287, 12288}"

definition trim :: "rstring \<Rightarrow> rstring" where
  "trim s = rev (dropWhile white_space (rev (dropWhile white_space s)))"

lemma trim_empty: "trim s = [] \<longleftrightarrow> (\<forall>c \<in> set s. white_space c)"
proof -
  have "(\<forall>c \<in> set (dropWhile white_space s). white_space c) \<longleftrightarrow> (\<forall>c \<in> set s. white_space c)"
    by (induction s) auto
  then show ?thesis by (simp add: trim_def dropWhile_eq_Nil_conv)
qed

text \<open>\<^verbatim>\<open>str::contains\<close>: does the needle occur as a contiguous block?\<close>

fun prefix_of :: "'a list \<Rightarrow> 'a list \<Rightarrow> bool" where
  "prefix_of [] ys = True"
| "prefix_of (x # xs) [] = False"
| "prefix_of (x # xs) (y # ys) = (x = y \<and> prefix_of xs ys)"

fun contains :: "'a list \<Rightarrow> 'a list \<Rightarrow> bool" where
  "contains [] needle = prefix_of needle []"
| "contains (x # xs) needle = (prefix_of needle (x # xs) \<or> contains xs needle)"

lemma prefix_of_iff: "prefix_of xs ys \<longleftrightarrow> (\<exists>zs. ys = xs @ zs)"
  by (induction xs ys rule: prefix_of.induct) auto

lemma contains_iff: "contains xs needle \<longleftrightarrow> (\<exists>us vs. xs = us @ needle @ vs)"
proof (induction xs)
  case Nil
  then show ?case by (cases needle) auto
next
  case (Cons x xs)
  show ?case
  proof
    assume "contains (x # xs) needle"
    then consider "prefix_of needle (x # xs)" | "contains xs needle" by auto
    then show "\<exists>us vs. x # xs = us @ needle @ vs"
    proof cases
      case 1
      then show ?thesis by (metis append_Nil prefix_of_iff)
    next
      case 2
      then show ?thesis using Cons.IH by (metis append_Cons)
    qed
  next
    assume "\<exists>us vs. x # xs = us @ needle @ vs"
    then obtain us vs where eq: "x # xs = us @ needle @ vs" by blast
    show "contains (x # xs) needle"
    proof (cases us)
      case Nil
      with eq have "x # xs = needle @ vs" by simp
      then have "prefix_of needle (x # xs)" by (metis prefix_of_iff)
      then show ?thesis by simp
    next
      case (Cons u us')
      with eq have "xs = us' @ needle @ vs" by simp
      then show ?thesis using Cons.IH by auto
    qed
  qed
qed

text \<open>The decimal form of an unsigned integer, as the format macros print it.\<close>

fun show_nat :: "nat \<Rightarrow> rstring" where
  "show_nat n = (if n < 10 then [48 + n] else show_nat (n div 10) @ [48 + n mod 10])"

declare show_nat.simps [simp del]

lemma show_nat_digits: "c \<in> set (show_nat n) \<Longrightarrow> 48 \<le> c \<and> c \<le> 57"
proof (induction n rule: show_nat.induct)
  case (1 n)
  have "n mod 10 < 10" by simp
  with 1 show ?case by (subst (asm) (2) show_nat.simps) (auto split: if_splits)
qed

lemma show_nat_not_nil [simp]: "show_nat n \<noteq> []"
  by (subst show_nat.simps) simp

lemma show_nat_inject [simp]: "show_nat m = show_nat n \<longleftrightarrow> m = n"
proof
  show "show_nat m = show_nat n \<Longrightarrow> m = n"
  proof (induction m arbitrary: n rule: show_nat.induct)
    case (1 m)
    show ?case
    proof (cases "m < 10 \<or> n < 10")
      case True
      with "1.prems" show ?thesis
        by (simp add: show_nat.simps [of m] show_nat.simps [of n] append_eq_Cons_conv
            show_nat_not_nil [symmetric] split: if_splits)
    next
      case False
      with "1.prems" have "show_nat (m div 10) = show_nat (n div 10)" "m mod 10 = n mod 10"
        by (simp_all add: show_nat.simps [of m] show_nat.simps [of n])
      with "1.IH" [of "n div 10"] False show ?thesis by (metis div_mult_mod_eq)
    qed
  qed
qed simp

section \<open>Results\<close>

text \<open>
  A Rust \<^verbatim>\<open>Result<T, E>\<close> is a sum, \<open>Inl\<close> for \<^verbatim>\<open>Err\<close>. \<open>and_then\<close> is the question mark
  operator: the first error is the result.
\<close>

definition and_then :: "'e + 'a \<Rightarrow> ('a \<Rightarrow> 'e + 'b) \<Rightarrow> 'e + 'b" where
  "and_then r f = (case r of Inl e \<Rightarrow> Inl e | Inr x \<Rightarrow> f x)"

lemma and_then_simps [simp]:
  "and_then (Inl e) f = Inl e"
  "and_then (Inr x) f = f x"
  by (simp_all add: and_then_def)

lemma and_then_Inr: "and_then r f = Inr y \<longleftrightarrow> (\<exists>x. r = Inr x \<and> f x = Inr y)"
  by (cases r) auto

lemma and_then_Inl: "and_then r f = Inl e \<longleftrightarrow> r = Inl e \<or> (\<exists>x. r = Inr x \<and> f x = Inl e)"
  by (cases r) auto

text \<open>\<^verbatim>\<open>Option::or\<close>, \<^verbatim>\<open>Option::unwrap_or\<close>, \<^verbatim>\<open>Option::filter\<close> and \<^verbatim>\<open>Option::ok_or\<close>.\<close>

definition opt_or :: "'a option \<Rightarrow> 'a option \<Rightarrow> 'a option" where
  "opt_or a b = (case a of Some x \<Rightarrow> Some x | None \<Rightarrow> b)"

definition unwrap_or :: "'a option \<Rightarrow> 'a \<Rightarrow> 'a" where
  "unwrap_or a d = (case a of Some x \<Rightarrow> x | None \<Rightarrow> d)"

definition opt_filter :: "('a \<Rightarrow> bool) \<Rightarrow> 'a option \<Rightarrow> 'a option" where
  "opt_filter p a = (case a of Some x \<Rightarrow> if p x then Some x else None | None \<Rightarrow> None)"

definition ok_or :: "'a option \<Rightarrow> 'e \<Rightarrow> 'e + 'a" where
  "ok_or a e = (case a of Some x \<Rightarrow> Inr x | None \<Rightarrow> Inl e)"

lemma option_helpers [simp]:
  "opt_or (Some x) b = Some x" "opt_or None b = b"
  "unwrap_or (Some x) d = x" "unwrap_or None d = d"
  "opt_filter p None = None" "opt_filter p (Some x) = (if p x then Some x else None)"
  "ok_or (Some x) e = Inr x" "ok_or None e = Inl e"
  by (simp_all add: opt_or_def unwrap_or_def opt_filter_def ok_or_def)

lemma opt_filter_Some: "opt_filter p a = Some x \<longleftrightarrow> a = Some x \<and> p x"
  by (cases a) auto

lemma ok_or_Inr: "ok_or a e = Inr x \<longleftrightarrow> a = Some x"
  by (cases a) auto

text \<open>\<open>div_ceil\<close> of Rust's unsigned integers, for a positive divisor.\<close>

definition div_ceil :: "nat \<Rightarrow> nat \<Rightarrow> nat" where
  "div_ceil a b = (if a mod b = 0 then a div b else a div b + 1)"

lemma div_ceil_mult:
  "div_ceil a b * b = (if a mod b = 0 then a else a - a mod b + b)"
proof -
  have "a div b * b = a - a mod b" by (simp add: minus_mod_eq_div_mult)
  then show ?thesis by (simp add: div_ceil_def add.commute)
qed

lemma div_ceil_ge:
  assumes "0 < b" shows "a \<le> div_ceil a b * b"
proof -
  have "a mod b < b" "a mod b \<le> a" using assms by auto
  then have "a mod b \<noteq> 0 \<Longrightarrow> a \<le> a - a mod b + b" by linarith
  then show ?thesis unfolding div_ceil_mult by simp
qed

lemma div_ceil_lt:
  assumes "0 < b" shows "div_ceil a b * b < a + b"
proof -
  have "a mod b \<le> a" by simp
  then show ?thesis unfolding div_ceil_mult using assms by (simp split: if_splits)
qed

section \<open>Interleaved buffers\<close>

text \<open>
  The loop \<^verbatim>\<open>let mut i = channel; while i < buffer.len() { ...buffer[i]...; i += stride }\<close> that
  the analyser and the vocoder run. With a zero stride it never ends once it is entered, which is
  the value None.
\<close>

partial_function (option) strided_loop ::
  "('s \<Rightarrow> 'a \<Rightarrow> 's) \<Rightarrow> 'a list \<Rightarrow> nat \<Rightarrow> nat \<Rightarrow> 's \<Rightarrow> 's option" where
  [code]: "strided_loop f buf i stride s =
     (if i < length buf then strided_loop f buf (i + stride) stride (f s (buf ! i)) else Some s)"

text \<open>The elements the loop visits.\<close>

function strided :: "'a list \<Rightarrow> nat \<Rightarrow> nat \<Rightarrow> 'a list" where
  "strided buf i stride =
     (if i < length buf then buf ! i # (if stride = 0 then [] else strided buf (i + stride) stride)
      else [])"
  by pat_completeness auto
termination
  by (relation "measure (\<lambda>(buf, i, stride). length buf - i)") auto

declare strided.simps [simp del]

lemma strided_loop_foldl:
  "0 < stride \<Longrightarrow> strided_loop f buf i stride s = Some (foldl f s (strided buf i stride))"
proof (induction buf i stride arbitrary: s rule: strided.induct)
  case (1 buf i stride)
  show ?case
  proof (cases "i < length buf")
    case True
    with "1.prems" have "strided_loop f buf (i + stride) stride (f s (buf ! i))
        = Some (foldl f (f s (buf ! i)) (strided buf (i + stride) stride))"
      by (intro "1.IH") auto
    with True "1.prems" show ?thesis
      by (simp add: strided_loop.simps [of f buf i stride s] strided.simps [of buf i stride])
  next
    case False
    then show ?thesis
      by (simp add: strided_loop.simps [of f buf i stride s] strided.simps [of buf i stride])
  qed
qed

text \<open>\<^verbatim>\<open>chunks_exact\<close>: the whole frames of a slice; a trailing partial frame is left out.\<close>

function chunks_exact :: "nat \<Rightarrow> 'a list \<Rightarrow> 'a list list" where
  "chunks_exact n xs =
     (if n = 0 \<or> length xs < n then [] else take n xs # chunks_exact n (drop n xs))"
  by pat_completeness auto
termination
  by (relation "measure (\<lambda>(n, xs). length xs)") auto

declare chunks_exact.simps [simp del]

lemma chunks_exact_length: "fr \<in> set (chunks_exact n xs) \<Longrightarrow> length fr = n"
proof (induction n xs rule: chunks_exact.induct)
  case (1 n xs)
  then show ?case
    by (cases "n = 0 \<or> length xs < n") (auto simp: chunks_exact.simps [of n xs])
qed

lemma chunks_exact_concat [frame_simps]:
  "0 < n \<Longrightarrow> concat (chunks_exact n xs) = take (length xs div n * n) xs"
proof (induction n xs rule: chunks_exact.induct)
  case (1 n xs)
  show ?case
  proof (cases "length xs < n")
    case True
    then show ?thesis by (simp add: chunks_exact.simps [of n xs])
  next
    case False
    with "1.prems" have IH: "concat (chunks_exact n (drop n xs))
        = take ((length xs - n) div n * n) (drop n xs)"
      using "1.IH" by simp
    have "length xs div n * n = n + (length xs - n) div n * n"
      using False "1.prems" by (simp add: le_div_geq)
    with False "1.prems" IH show ?thesis
      by (simp add: chunks_exact.simps [of n xs] take_add)
  qed
qed

lemma chunks_exact_frames [frame_simps]:
  assumes "0 < n" "\<forall>fr \<in> set frames. length fr = n"
  shows "chunks_exact n (concat frames) = frames"
  using assms
proof (induction frames)
  case Nil
  then show ?case by (simp add: chunks_exact.simps)
next
  case (Cons fr frames)
  then show ?case by (subst chunks_exact.simps) auto
qed

text \<open>
  The loop of channel \<open>ch\<close> over whole frames of \<open>n\<close> samples visits the channel's sample of
  each frame, in order.
\<close>

lemma strided_frames [frame_simps]:
  assumes "ch < n" "\<forall>fr \<in> set frames. length fr = n"
  shows "strided (concat frames) ch n = map (\<lambda>fr. fr ! ch) frames"
proof -
  have step: "strided (xs @ concat rest) (length xs + ch) n = map (\<lambda>fr. fr ! ch) rest"
    if "\<forall>fr \<in> set rest. length fr = n" for rest :: "'a list list" and xs
    using that
  proof (induction rest arbitrary: xs)
    case Nil
    then show ?case by (simp add: strided.simps)
  next
    case (Cons fr rest)
    have "strided ((xs @ fr) @ concat rest) (length (xs @ fr) + ch) n = map (\<lambda>fr. fr ! ch) rest"
      using Cons.prems by (intro Cons.IH) auto
    then have "strided (xs @ concat (fr # rest)) (length xs + ch + n) n = map (\<lambda>fr. fr ! ch) rest"
      using Cons.prems by (simp add: algebra_simps)
    moreover have "(xs @ concat (fr # rest)) ! (length xs + ch) = fr ! ch"
      using Cons.prems assms(1) by (simp add: nth_append)
    ultimately show ?case
      using Cons.prems assms(1)
      by (subst strided.simps) (auto simp: add.assoc add.commute add.left_commute)
  qed
  from step [of frames "[]"] assms(2) show ?thesis by simp
qed

section \<open>Transition systems\<close>

text \<open>
  The interface every state machine of the development provides: its start states, its step
  relation and an invariant. The client lemma, that every reachable state satisfies the invariant,
  is proved once here.
\<close>

inductive reach :: "('s \<Rightarrow> bool) \<Rightarrow> ('s \<Rightarrow> 's \<Rightarrow> bool) \<Rightarrow> 's \<Rightarrow> bool"
  for init :: "'s \<Rightarrow> bool" and step :: "'s \<Rightarrow> 's \<Rightarrow> bool" where
  reach_init: "init s \<Longrightarrow> reach init step s"
| reach_step: "reach init step s \<Longrightarrow> step s t \<Longrightarrow> reach init step t"

lemma reach_steps: "step\<^sup>*\<^sup>* s t \<Longrightarrow> reach init step s \<Longrightarrow> reach init step t"
  by (induction rule: rtranclp_induct) (auto intro: reach_step)

locale transition_system =
  fixes init :: "'s \<Rightarrow> bool" and step :: "'s \<Rightarrow> 's \<Rightarrow> bool" and inv :: "'s \<Rightarrow> bool"
  assumes init_inv: "init s \<Longrightarrow> inv s"
    and step_inv: "inv s \<Longrightarrow> step s t \<Longrightarrow> inv t"
begin

lemma reachable_inv: "reach init step s \<Longrightarrow> inv s"
  by (induction rule: reach.induct) (auto intro: init_inv step_inv)

lemma steps_inv: "step\<^sup>*\<^sup>* s t \<Longrightarrow> inv s \<Longrightarrow> inv t"
  by (induction rule: rtranclp_induct) (auto intro: step_inv)

end

end
