(* ===== verification/Ieee_Float.thy ===== *)
theory Ieee_Float
  imports Prelude
begin

text \<open>
  The floating-point primitives of the language, \<^verbatim>\<open>f32\<close> and \<^verbatim>\<open>f64\<close> of IEEE 754 with round to
  nearest, ties to even, as executable functions. An \<^verbatim>\<open>f32\<close> is its bit pattern, a 32-bit word.
  The low bits without the sign are its magnitude code. The finite values of a format are the
  integer multiples of its smallest subnormal, so every finite number is an integer in that unit,
  addition is exact integer addition followed by one rounding, and multiplication and division
  round one exact quotient. Magnitude codes are ordered as the values they stand for, which makes
  rounding a monotone function on codes; the bounds that the analyser relies on rest on that.

  A NaN result is one canonical NaN: Rust leaves the payload and the sign of a NaN open, and the
  modelled code only ever tests for it.
\<close>

section \<open>Rounding\<close>

text \<open>The quotient \<open>n / d\<close> rounded to the nearest integer, ties to even.\<close>

definition rhe :: "nat \<Rightarrow> nat \<Rightarrow> nat" where
  "rhe n d = (let q = n div d; r = n mod d in
     if 2 * r < d then q else if d < 2 * r then q + 1 else if even q then q else q + 1)"

fun bit_length :: "nat \<Rightarrow> nat" where
  "bit_length n = (if n = 0 then 0 else Suc (bit_length (n div 2)))"

declare bit_length.simps [simp del]

lemma bit_length_0 [simp]: "bit_length 0 = 0"
  by (simp add: bit_length.simps)

lemma bit_length_le: "bit_length n \<le> k \<longleftrightarrow> n < 2 ^ k"
proof (induction k arbitrary: n)
  case 0
  then show ?case by (simp add: bit_length.simps)
next
  case (Suc k)
  have "bit_length n \<le> Suc k \<longleftrightarrow> n = 0 \<or> bit_length (n div 2) \<le> k"
    by (subst bit_length.simps) auto
  also have "\<dots> \<longleftrightarrow> n = 0 \<or> n div 2 < 2 ^ k" by (simp add: Suc.IH)
  also have "\<dots> \<longleftrightarrow> n < 2 ^ Suc k" by auto
  finally show ?case .
qed

lemma bit_length_gt: "k < bit_length n \<longleftrightarrow> 2 ^ k \<le> n"
  using bit_length_le [of n k] by linarith

lemma bit_length_mono: "m \<le> n \<Longrightarrow> bit_length m \<le> bit_length n"
  using bit_length_le [of n "bit_length n"] bit_length_le [of m "bit_length n"] by simp

lemma rhe_le_iff:
  assumes "0 < d"
  shows "rhe n d \<le> k \<longleftrightarrow> 2 * n < (2 * k + 1) * d \<or> 2 * n = (2 * k + 1) * d \<and> even k"
proof -
  define q r where "q = n div d" and "r = n mod d"
  have n: "n = q * d + r" and r: "r < d"
    using assms by (simp_all add: q_def r_def)
  have lt: "2 * n < (2 * k + 1) * d \<longleftrightarrow> q < k \<or> q = k \<and> 2 * r < d"
  proof (cases q k rule: linorder_cases)
    case less
    then have "(q + 1) * d \<le> k * d" by (intro mult_le_mono1) simp
    then have "n < k * d" using n r by simp
    with less show ?thesis by simp
  next
    case greater
    then have "(k + 1) * d \<le> q * d" by (intro mult_le_mono1) simp
    then have "(2 * k + 1) * d < 2 * n" using n assms by simp
    with greater show ?thesis by simp
  qed (use n in auto)
  have eq: "2 * n = (2 * k + 1) * d \<longleftrightarrow> q = k \<and> 2 * r = d"
  proof (cases q k rule: linorder_cases)
    case less
    then have "(q + 1) * d \<le> k * d" by (intro mult_le_mono1) simp
    then have "n < k * d" using n r by simp
    with less show ?thesis by simp
  next
    case greater
    then have "(k + 1) * d \<le> q * d" by (intro mult_le_mono1) simp
    then have "(2 * k + 1) * d < 2 * n" using n assms by simp
    with greater show ?thesis by simp
  qed (use n in auto)
  show ?thesis unfolding lt eq by (auto simp: rhe_def Let_def q_def [symmetric] r_def [symmetric])
qed

lemma rhe_mono:
  assumes "0 < d1" "0 < d2" "n1 * d2 \<le> n2 * d1"
  shows "rhe n1 d1 \<le> rhe n2 d2"
proof -
  let ?k = "rhe n2 d2"
  have k: "2 * n2 < (2 * ?k + 1) * d2 \<or> 2 * n2 = (2 * ?k + 1) * d2 \<and> even ?k"
    using rhe_le_iff [OF assms(2), of n2 ?k] by simp
  have le: "2 * n1 * d2 \<le> 2 * n2 * d1" using assms(3) by simp
  from k show ?thesis
  proof
    assume "2 * n2 < (2 * ?k + 1) * d2"
    then have lt: "2 * n2 * d1 < (2 * ?k + 1) * d2 * d1" using assms(1) by (rule mult_less_mono1)
    have "2 * n1 * d2 < (2 * ?k + 1) * d1 * d2"
      using le_less_trans [OF le lt] by (simp only: ac_simps)
    then have "2 * n1 < (2 * ?k + 1) * d1" by (simp only: mult_less_cancel2)
    then show ?thesis using rhe_le_iff [OF assms(1)] by blast
  next
    assume tie: "2 * n2 = (2 * ?k + 1) * d2 \<and> even ?k"
    have "2 * n2 * d1 = (2 * ?k + 1) * d2 * d1" using tie by simp
    also have "\<dots> = (2 * ?k + 1) * d1 * d2" by (simp only: ac_simps)
    finally have "2 * n1 * d2 \<le> (2 * ?k + 1) * d1 * d2" using le by simp
    then have "2 * n1 \<le> (2 * ?k + 1) * d1" using assms(2) by (simp only: mult_le_cancel2)
    then show ?thesis using rhe_le_iff [OF assms(1)] tie by (metis le_neq_implies_less)
  qed
qed

lemma rhe_exact [simp]: "0 < d \<Longrightarrow> rhe (k * d) d = k"
  by (simp add: rhe_def)

section \<open>Formats and magnitude codes\<close>

text \<open>
  A format is given by the width of its fraction, the exponent of its unit (the smallest
  subnormal is \<open>2 ^ - unit\<close>) and the code of infinity, which is above every finite code and below
  the NaN codes.
\<close>

record ffmt =
  frac_bits :: nat
  unit_exp :: nat
  inf_code :: nat

definition F32 :: ffmt where
  "F32 = \<lparr>frac_bits = 23, unit_exp = 149, inf_code = 0x7F800000\<rparr>"

definition F64 :: ffmt where
  "F64 = \<lparr>frac_bits = 52, unit_exp = 1074, inf_code = 0x7FF0000000000000\<rparr>"

text \<open>The value of a finite code, in units.\<close>

definition mag_val :: "ffmt \<Rightarrow> nat \<Rightarrow> nat" where
  "mag_val F c = (let e = c div 2 ^ frac_bits F; f = c mod 2 ^ frac_bits F in
     if e = 0 then f else (2 ^ frac_bits F + f) * 2 ^ (e - 1))"

text \<open>
  The code of \<open>n / d\<close> units, rounded. Adding the rounded significand to the shifted exponent
  carries into the exponent field when the significand rounds up to the next power of two.
\<close>

definition round_mag :: "ffmt \<Rightarrow> nat \<Rightarrow> nat \<Rightarrow> nat" where
  "round_mag F n d = (let e = bit_length (n div d) - (frac_bits F + 1) in
     min (inf_code F) (e * 2 ^ frac_bits F + rhe n (d * 2 ^ e)))"

lemma round_mag_le_inf: "round_mag F n d \<le> inf_code F"
  by (simp add: round_mag_def Let_def)

lemma rhe_le_pow:
  assumes "0 < d" "n < d * 2 ^ k"
  shows "rhe n d \<le> 2 ^ k"
proof -
  have "n * 1 \<le> 2 ^ k * d" using assms by (simp add: mult.commute)
  then have "rhe n d \<le> rhe (2 ^ k) 1" using assms by (intro rhe_mono) auto
  then show ?thesis using rhe_exact [of 1 "2 ^ k"] by simp
qed

lemma rhe_ge:
  assumes "0 < d" "k * d \<le> n"
  shows "k \<le> rhe n d"
proof -
  have "rhe k 1 \<le> rhe n d" using assms by (intro rhe_mono) auto
  then show ?thesis using rhe_exact [of 1 k] by simp
qed

lemma round_mag_mono:
  assumes "0 < d1" "0 < d2" "n1 * d2 \<le> n2 * d1"
  shows "round_mag F n1 d1 \<le> round_mag F n2 d2"
proof -
  define p where "p = frac_bits F"
  define e1 where "e1 = bit_length (n1 div d1) - (p + 1)"
  define e2 where "e2 = bit_length (n2 div d2) - (p + 1)"
  have "n1 div d1 * d2 * d1 \<le> n1 * d2"
    using mult_le_mono1 [OF div_times_less_eq_dividend [of n1 d1], of d2] by (simp add: ac_simps)
  also note assms(3)
  finally have "n1 div d1 * d2 \<le> n2" using assms(1) by simp
  then have "n1 div d1 \<le> n2 div d2"
    using assms(2) by (simp add: less_eq_div_iff_mult_less_eq)
  then have ee: "e1 \<le> e2" unfolding e1_def e2_def by (intro diff_le_mono bit_length_mono)
  have "e1 * 2 ^ p + rhe n1 (d1 * 2 ^ e1) \<le> e2 * 2 ^ p + rhe n2 (d2 * 2 ^ e2)"
  proof (cases "e1 = e2")
    case True
    have "n1 * (d2 * 2 ^ e2) \<le> n2 * (d1 * 2 ^ e1)"
      using assms(3) True by (simp add: mult.assoc [symmetric])
    then show ?thesis using True assms by (simp add: rhe_mono)
  next
    case False
    with ee have lt: "e1 < e2" by simp
    have "bit_length (n1 div d1) \<le> e1 + (p + 1)" unfolding e1_def by simp
    then have "n1 div d1 < 2 ^ (e1 + (p + 1))" by (simp only: bit_length_le)
    then have "n1 < 2 ^ (e1 + (p + 1)) * d1"
      using assms(1) by (simp only: div_less_iff_less_mult)
    then have "n1 < d1 * 2 ^ e1 * 2 ^ (p + 1)"
      by (simp add: power_add ac_simps)
    then have up: "rhe n1 (d1 * 2 ^ e1) \<le> 2 ^ (p + 1)"
      using assms(1) by (intro rhe_le_pow) auto
    have "bit_length (n2 div d2) = e2 + (p + 1)" using lt unfolding e2_def by simp
    then have "e2 + p < bit_length (n2 div d2)" by simp
    then have "2 ^ (e2 + p) \<le> n2 div d2" by (simp only: bit_length_gt)
    then have "2 ^ (e2 + p) * d2 \<le> n2"
      using assms(2) by (simp only: less_eq_div_iff_mult_less_eq)
    then have lo: "2 ^ p \<le> rhe n2 (d2 * 2 ^ e2)"
      using assms(2) by (intro rhe_ge) (auto simp: power_add ac_simps)
    have "(e1 + 1) * 2 ^ p \<le> e2 * 2 ^ p" using lt by (intro mult_le_mono1) simp
    with up lo show ?thesis by simp
  qed
  then show ?thesis by (simp add: round_mag_def Let_def p_def e1_def e2_def min_le_iff_disj)
qed

lemma bit_length_eqI: "2 ^ k \<le> n \<Longrightarrow> n < 2 ^ Suc k \<Longrightarrow> bit_length n = Suc k"
  using bit_length_le [of n "Suc k"] bit_length_gt [of k n] by simp

text \<open>A representable value rounds to its own code.\<close>

lemma round_mag_exact:
  assumes "0 < d" "c \<le> inf_code F"
  shows "round_mag F (mag_val F c * d) d = c"
proof -
  define p where "p = frac_bits F"
  define e f where "e = c div 2 ^ p" and "f = c mod 2 ^ p"
  have c: "c = e * 2 ^ p + f" by (simp only: e_def f_def div_mult_mod_eq)
  have f: "f < 2 ^ p" by (simp add: f_def)
  show ?thesis
  proof (cases "e = 0")
    case True
    then have v: "mag_val F c = f" by (simp add: mag_val_def Let_def p_def e_def f_def)
    have "f < 2 ^ (p + 1)" using f by simp
    then have "bit_length f \<le> p + 1" by (simp only: bit_length_le)
    moreover have "c = f" using c True by simp
    ultimately show ?thesis
      using assms unfolding v round_mag_def Let_def p_def [symmetric] by simp
  next
    case False
    then obtain e' where e': "e = Suc e'" by (cases e) auto
    have v: "mag_val F c = (2 ^ p + f) * 2 ^ e'"
      using e' by (simp add: mag_val_def Let_def p_def e_def f_def)
    have "bit_length (mag_val F c) = Suc (p + e')"
      using f by (intro bit_length_eqI) (simp_all add: v power_add)
    then have "bit_length (mag_val F c) - (p + 1) = e'" by simp
    moreover have "rhe (mag_val F c * d) (d * 2 ^ e') = 2 ^ p + f"
      using assms(1) rhe_exact [of "d * 2 ^ e'" "2 ^ p + f"] by (simp add: v ac_simps)
    ultimately show ?thesis
      using assms c e' by (simp add: round_mag_def Let_def p_def [symmetric])
  qed
qed

lemma mag_val_mono: "c1 \<le> c2 \<Longrightarrow> mag_val F c1 \<le> mag_val F c2"
proof -
  assume "c1 \<le> c2"
  define p where "p = frac_bits F"
  define e1 f1 where "e1 = c1 div 2 ^ p" and "f1 = c1 mod 2 ^ p"
  define e2 f2 where "e2 = c2 div 2 ^ p" and "f2 = c2 mod 2 ^ p"
  have c1: "c1 = e1 * 2 ^ p + f1" by (simp only: e1_def f1_def div_mult_mod_eq)
  have f1: "f1 < 2 ^ p" by (simp add: f1_def)
  have c2: "c2 = e2 * 2 ^ p + f2" by (simp only: e2_def f2_def div_mult_mod_eq)
  have f2: "f2 < 2 ^ p" by (simp add: f2_def)
  have v1: "mag_val F c1 = (if e1 = 0 then f1 else (2 ^ p + f1) * 2 ^ (e1 - 1))"
    and v2: "mag_val F c2 = (if e2 = 0 then f2 else (2 ^ p + f2) * 2 ^ (e2 - 1))"
    by (simp_all add: mag_val_def Let_def p_def e1_def e2_def f1_def f2_def)
  have ee: "e1 \<le> e2" unfolding e1_def e2_def using \<open>c1 \<le> c2\<close> by (rule div_le_mono)
  show "mag_val F c1 \<le> mag_val F c2"
  proof (cases "e1 = e2")
    case True
    then have "f1 \<le> f2" using \<open>c1 \<le> c2\<close> c1 c2 by simp
    then show ?thesis using True unfolding v1 v2 by simp
  next
    case False
    with ee have lt: "e1 < e2" by simp
    have "2 ^ p * 2 ^ (e2 - 1) \<le> mag_val F c2" using lt by (simp add: v2)
    moreover have "mag_val F c1 \<le> 2 ^ p * 2 ^ e1"
    proof (cases "e1 = 0")
      case True
      then show ?thesis using f1 by (simp add: v1)
    next
      case False
      then obtain k where k: "e1 = Suc k" by (cases e1) auto
      have "(2 ^ p + f1) * 2 ^ k \<le> (2 * 2 ^ p) * 2 ^ k"
        using f1 by (intro mult_le_mono1) simp
      then show ?thesis using k by (simp add: v1 ac_simps)
    qed
    moreover have "(2::nat) ^ p * 2 ^ e1 \<le> 2 ^ p * 2 ^ (e2 - 1)"
      using lt by (intro mult_le_mono2 power_increasing) auto
    ultimately show ?thesis by linarith
  qed
qed

text \<open>The two directions in which the order of codes is the order of values.\<close>

lemma round_mag_upper:
  "0 < d \<Longrightarrow> c \<le> inf_code F \<Longrightarrow> n \<le> mag_val F c * d \<Longrightarrow> round_mag F n d \<le> c"
  using round_mag_mono [of d d n "mag_val F c * d" F] round_mag_exact [of d c F] by simp

lemma round_mag_lower:
  "0 < d \<Longrightarrow> c \<le> inf_code F \<Longrightarrow> mag_val F c * d \<le> n \<Longrightarrow> c \<le> round_mag F n d"
  using round_mag_mono [of d d "mag_val F c * d" n F] round_mag_exact [of d c F] by simp

section \<open>Signed numbers\<close>

text \<open>An unpacked number is its sign bit and its magnitude code.\<close>

type_synonym fl = "bool \<times> nat"

definition fl_is_nan :: "ffmt \<Rightarrow> fl \<Rightarrow> bool" where
  "fl_is_nan F x \<longleftrightarrow> inf_code F < snd x"

definition fl_is_inf :: "ffmt \<Rightarrow> fl \<Rightarrow> bool" where
  "fl_is_inf F x \<longleftrightarrow> snd x = inf_code F"

definition fl_is_finite :: "ffmt \<Rightarrow> fl \<Rightarrow> bool" where
  "fl_is_finite F x \<longleftrightarrow> snd x < inf_code F"

definition fl_nan :: "ffmt \<Rightarrow> fl" where
  "fl_nan F = (False, inf_code F + 2 ^ (frac_bits F - 1))"

text \<open>The value in units, for a finite number, and the key that orders all but NaN.\<close>

definition fl_int :: "ffmt \<Rightarrow> fl \<Rightarrow> int" where
  "fl_int F x = (if fst x then - int (mag_val F (snd x)) else int (mag_val F (snd x)))"

definition fl_key :: "fl \<Rightarrow> int" where
  "fl_key x = (if fst x then - int (snd x) else int (snd x))"

definition fl_lt :: "ffmt \<Rightarrow> fl \<Rightarrow> fl \<Rightarrow> bool" where
  "fl_lt F x y \<longleftrightarrow> \<not> fl_is_nan F x \<and> \<not> fl_is_nan F y \<and> fl_key x < fl_key y"

definition fl_le :: "ffmt \<Rightarrow> fl \<Rightarrow> fl \<Rightarrow> bool" where
  "fl_le F x y \<longleftrightarrow> \<not> fl_is_nan F x \<and> \<not> fl_is_nan F y \<and> fl_key x \<le> fl_key y"

definition fl_abs :: "fl \<Rightarrow> fl" where
  "fl_abs x = (False, snd x)"

definition fl_neg :: "fl \<Rightarrow> fl" where
  "fl_neg x = (\<not> fst x, snd x)"

text \<open>The exact quotient \<open>k / d\<close> in units, rounded; a zero takes the sign given.\<close>

definition fl_round :: "ffmt \<Rightarrow> bool \<Rightarrow> int \<Rightarrow> nat \<Rightarrow> fl" where
  "fl_round F zero_sign k d = (k < 0 \<or> k = 0 \<and> zero_sign, round_mag F (nat \<bar>k\<bar>) d)"

definition fl_add :: "ffmt \<Rightarrow> fl \<Rightarrow> fl \<Rightarrow> fl" where
  "fl_add F x y =
     (if fl_is_nan F x \<or> fl_is_nan F y then fl_nan F
      else if fl_is_inf F x then (if fl_is_inf F y \<and> fst x \<noteq> fst y then fl_nan F else x)
      else if fl_is_inf F y then y
      else fl_round F (fst x \<and> fst y) (fl_int F x + fl_int F y) 1)"

definition fl_sub :: "ffmt \<Rightarrow> fl \<Rightarrow> fl \<Rightarrow> fl" where
  "fl_sub F x y = fl_add F x (fl_neg y)"

definition fl_mul :: "ffmt \<Rightarrow> fl \<Rightarrow> fl \<Rightarrow> fl" where
  "fl_mul F x y = (let s = (fst x \<noteq> fst y) in
     if fl_is_nan F x \<or> fl_is_nan F y then fl_nan F
     else if fl_is_inf F x \<or> fl_is_inf F y then
       (if snd x = 0 \<or> snd y = 0 then fl_nan F else (s, inf_code F))
     else (s, round_mag F (mag_val F (snd x) * mag_val F (snd y)) (2 ^ unit_exp F)))"

definition fl_div :: "ffmt \<Rightarrow> fl \<Rightarrow> fl \<Rightarrow> fl" where
  "fl_div F x y = (let s = (fst x \<noteq> fst y) in
     if fl_is_nan F x \<or> fl_is_nan F y then fl_nan F
     else if fl_is_inf F x then (if fl_is_inf F y then fl_nan F else (s, inf_code F))
     else if fl_is_inf F y then (s, 0)
     else if snd y = 0 then (if snd x = 0 then fl_nan F else (s, inf_code F))
     else (s, round_mag F (mag_val F (snd x) * 2 ^ unit_exp F) (mag_val F (snd y))))"

text \<open>The remainder of the truncated quotient, which is exact: the operator \<^verbatim>\<open>%\<close> on floats.\<close>

definition fl_rem :: "ffmt \<Rightarrow> fl \<Rightarrow> fl \<Rightarrow> fl" where
  "fl_rem F x y =
     (if fl_is_nan F x \<or> fl_is_nan F y \<or> fl_is_inf F x \<or> snd y = 0 then fl_nan F
      else if fl_is_inf F y then x
      else (fst x, round_mag F (mag_val F (snd x) mod mag_val F (snd y)) 1))"

text \<open>Conversion between formats, from an unsigned integer, and of a decimal literal \<open>n / d\<close>.\<close>

definition fl_convert :: "ffmt \<Rightarrow> ffmt \<Rightarrow> fl \<Rightarrow> fl" where
  "fl_convert F G x =
     (if fl_is_nan F x then fl_nan G
      else if fl_is_inf F x then (fst x, inf_code G)
      else (fst x, round_mag G (mag_val F (snd x) * 2 ^ (unit_exp G - unit_exp F))
        (2 ^ (unit_exp F - unit_exp G))))"

definition fl_lit :: "ffmt \<Rightarrow> nat \<Rightarrow> nat \<Rightarrow> fl" where
  "fl_lit F n d = (False, round_mag F (n * 2 ^ unit_exp F) d)"

text \<open>
  Flushing of subnormal operands and results to a zero of the same sign, the mode the analyser
  thread asks the processor for. \<open>z\<close> says whether the mode is on.
\<close>

definition fl_flush :: "ffmt \<Rightarrow> bool \<Rightarrow> fl \<Rightarrow> fl" where
  "fl_flush F z x = (if z \<and> snd x < 2 ^ frac_bits F then (fst x, 0) else x)"

section \<open>The types f32 and f64\<close>

type_synonym f32 = "32 word"
type_synonym f64 = "64 word"

definition f32_unpack :: "f32 \<Rightarrow> fl" where
  "f32_unpack w = (0x80000000 \<le> unat w, unat w mod 0x80000000)"

definition f32_pack :: "fl \<Rightarrow> f32" where
  "f32_pack x = word_of_nat (snd x + (if fst x then 0x80000000 else 0))"

definition f64_unpack :: "f64 \<Rightarrow> fl" where
  "f64_unpack w = (0x8000000000000000 \<le> unat w, unat w mod 0x8000000000000000)"

definition f64_pack :: "fl \<Rightarrow> f64" where
  "f64_pack x = word_of_nat (snd x + (if fst x then 0x8000000000000000 else 0))"

lemma f32_unpack_bound: "snd (f32_unpack w) < 0x80000000"
  by (simp add: f32_unpack_def)

lemma f32_unpack_pack [simp]:
  assumes "snd x < 0x80000000" shows "f32_unpack (f32_pack x) = x"
proof -
  have "unat (f32_pack x) = snd x + (if fst x then 0x80000000 else 0)"
    unfolding f32_pack_def unat_of_nat using assms by simp
  with assms show ?thesis by (cases x) (auto simp: f32_unpack_def)
qed

lemma f64_unpack_pack [simp]:
  assumes "snd x < 0x8000000000000000" shows "f64_unpack (f64_pack x) = x"
proof -
  have "unat (f64_pack x) = snd x + (if fst x then 0x8000000000000000 else 0)"
    unfolding f64_pack_def unat_of_nat using assms by simp
  with assms show ?thesis by (cases x) (auto simp: f64_unpack_def)
qed

lemma f32_pack_unpack [simp]: "f32_pack (f32_unpack w) = w"
proof -
  have "unat w < 2 ^ 32" using unsigned_less [of w, where ?'a = nat] by simp
  then have "unat w mod 0x80000000 + (if 0x80000000 \<le> unat w then 0x80000000 else 0) = unat w"
    by (auto simp: mod_if)
  then show ?thesis by (simp add: f32_pack_def f32_unpack_def del: unat_mod_distrib)
qed

definition f32_is_finite :: "f32 \<Rightarrow> bool" where
  "f32_is_finite w \<longleftrightarrow> fl_is_finite F32 (f32_unpack w)"

definition f32_abs :: "f32 \<Rightarrow> f32" where
  "f32_abs w = f32_pack (fl_abs (f32_unpack w))"

definition f32_lt :: "f32 \<Rightarrow> f32 \<Rightarrow> bool" where
  "f32_lt a b \<longleftrightarrow> fl_lt F32 (f32_unpack a) (f32_unpack b)"

definition f32_le :: "f32 \<Rightarrow> f32 \<Rightarrow> bool" where
  "f32_le a b \<longleftrightarrow> fl_le F32 (f32_unpack a) (f32_unpack b)"

definition f32_lit :: "nat \<Rightarrow> nat \<Rightarrow> f32" where
  "f32_lit n d = f32_pack (fl_lit F32 n d)"

definition f32_mul :: "f32 \<Rightarrow> f32 \<Rightarrow> f32" where
  "f32_mul a b = f32_pack (fl_mul F32 (f32_unpack a) (f32_unpack b))"

definition f32_div :: "f32 \<Rightarrow> f32 \<Rightarrow> f32" where
  "f32_div a b = f32_pack (fl_div F32 (f32_unpack a) (f32_unpack b))"

definition f32_of_nat :: "nat \<Rightarrow> f32" where
  "f32_of_nat n = f32_lit n 1"

definition f64_of_f32 :: "f32 \<Rightarrow> f64" where
  "f64_of_f32 w = f64_pack (fl_convert F32 F64 (f32_unpack w))"

definition f32_of_f64 :: "f64 \<Rightarrow> f32" where
  "f32_of_f64 w = f32_pack (fl_convert F64 F32 (f64_unpack w))"

definition f64_lit :: "nat \<Rightarrow> nat \<Rightarrow> f64" where
  "f64_lit n d = f64_pack (fl_lit F64 n d)"

definition f64_mul :: "f64 \<Rightarrow> f64 \<Rightarrow> f64" where
  "f64_mul a b = f64_pack (fl_mul F64 (f64_unpack a) (f64_unpack b))"

definition f64_div :: "f64 \<Rightarrow> f64 \<Rightarrow> f64" where
  "f64_div a b = f64_pack (fl_div F64 (f64_unpack a) (f64_unpack b))"

definition f64_add :: "f64 \<Rightarrow> f64 \<Rightarrow> f64" where
  "f64_add a b = f64_pack (fl_add F64 (f64_unpack a) (f64_unpack b))"

definition f64_sub :: "f64 \<Rightarrow> f64 \<Rightarrow> f64" where
  "f64_sub a b = f64_pack (fl_sub F64 (f64_unpack a) (f64_unpack b))"

definition f32_add :: "f32 \<Rightarrow> f32 \<Rightarrow> f32" where
  "f32_add a b = f32_pack (fl_add F32 (f32_unpack a) (f32_unpack b))"

definition f32_rem :: "f32 \<Rightarrow> f32 \<Rightarrow> f32" where
  "f32_rem a b = f32_pack (fl_rem F32 (f32_unpack a) (f32_unpack b))"

definition f64_rem :: "f64 \<Rightarrow> f64 \<Rightarrow> f64" where
  "f64_rem a b = f64_pack (fl_rem F64 (f64_unpack a) (f64_unpack b))"

definition f64_lt :: "f64 \<Rightarrow> f64 \<Rightarrow> bool" where
  "f64_lt a b \<longleftrightarrow> fl_lt F64 (f64_unpack a) (f64_unpack b)"

text \<open>
  The three arithmetic operations of the analyser thread, under the flush mode \<open>z\<close>: operands are
  flushed before, the result after.
\<close>

definition f32_arith :: "bool \<Rightarrow> (fl \<Rightarrow> fl \<Rightarrow> fl) \<Rightarrow> f32 \<Rightarrow> f32 \<Rightarrow> f32" where
  "f32_arith z f a b = f32_pack (fl_flush F32 z
     (f (fl_flush F32 z (f32_unpack a)) (fl_flush F32 z (f32_unpack b))))"

definition f32_gt_z :: "bool \<Rightarrow> f32 \<Rightarrow> f32 \<Rightarrow> bool" where
  "f32_gt_z z a b \<longleftrightarrow>
     fl_lt F32 (fl_flush F32 z (f32_unpack b)) (fl_flush F32 z (f32_unpack a))"

section \<open>Bounds\<close>

lemma F32_sel [simp]: "frac_bits F32 = 23" "unit_exp F32 = 149" "inf_code F32 = 0x7F800000"
  by (simp_all add: F32_def)

lemma F64_sel [simp]:
  "frac_bits F64 = 52" "unit_exp F64 = 1074" "inf_code F64 = 0x7FF0000000000000"
  by (simp_all add: F64_def)

lemma snd_fl_round: "snd (fl_round F s k d) \<le> inf_code F"
  by (simp add: fl_round_def round_mag_le_inf)

lemma F32_round_bound [simp]:
  "round_mag F32 n d < 0x80000000" "snd (fl_round F32 s k d) < 0x80000000"
  using round_mag_le_inf [of F32 n d] snd_fl_round [of F32 s k d] by simp_all

lemma F64_round_bound [simp]: "round_mag F64 n d < 0x8000000000000000"
  using round_mag_le_inf [of F64 n d] by simp

lemma F32_result_bound [simp]:
  assumes "snd x < 0x80000000" "snd y < 0x80000000"
  shows "snd (fl_add F32 x y) < 0x80000000" "snd (fl_sub F32 x y) < 0x80000000"
    "snd (fl_mul F32 x y) < 0x80000000"
  using assms by (simp_all add: fl_add_def fl_sub_def fl_mul_def fl_neg_def fl_nan_def Let_def)

section \<open>Evaluation of closed terms\<close>

text \<open>
  The simplifier evaluates the operations on numerals in binary with these equations; the code
  equations of \<open>nat\<close> would count in unary.
\<close>

lemma bit_length_numeral [simp]:
  "bit_length (numeral Num.One) = 1"
  "bit_length (numeral (Num.Bit0 n)) = Suc (bit_length (numeral n))"
  "bit_length (numeral (Num.Bit1 n)) = Suc (bit_length (numeral n))"
  "bit_length (Suc 0) = 1"
proof -
  have "(numeral (Num.Bit0 n) :: nat) div 2 = numeral n" by simp
  then show "bit_length (numeral (Num.Bit0 n)) = Suc (bit_length (numeral n))"
    by (subst bit_length.simps) simp
  have "(numeral (Num.Bit1 n) :: nat) div 2 = numeral n" by simp
  then show "bit_length (numeral (Num.Bit1 n)) = Suc (bit_length (numeral n))"
    by (subst bit_length.simps) simp
qed (simp_all add: bit_length.simps)

lemmas float_eval =
  Let_def rhe_def round_mag_def mag_val_def fl_is_nan_def fl_is_inf_def fl_is_finite_def
  fl_nan_def fl_int_def fl_key_def fl_lt_def fl_le_def fl_abs_def fl_neg_def fl_round_def
  fl_add_def fl_sub_def fl_mul_def fl_div_def fl_convert_def fl_lit_def fl_flush_def
  f32_unpack_def f32_pack_def f64_unpack_def f64_pack_def f32_is_finite_def f32_abs_def
  f32_lt_def f32_le_def f32_lit_def f32_mul_def f32_div_def f32_of_nat_def f64_of_f32_def
  f32_of_f64_def f64_lit_def f64_mul_def f64_div_def f64_add_def f64_sub_def f64_lt_def
  f32_arith_def f32_gt_z_def fl_rem_def f32_add_def f32_rem_def f64_rem_def

end
