(* ===== verification/Payload.thy ===== *)
theory Payload
  imports Ieee_Float
begin

text \<open>
  The payload types of \<^verbatim>\<open>src/src/dsp/payload.rs\<close>, the unit newtypes of
  \<^verbatim>\<open>src/src/dsp/units.rs\<close> and the band count of \<^verbatim>\<open>src/src/dsp/mod.rs\<close>. A fixed array
  \<^verbatim>\<open>[f32; BAND_COUNT]\<close> is a list whose length \<open>level_ok\<close> fixes.
\<close>

datatype milliseconds = Milliseconds (ms_value: f32)

datatype hertz = Hertz (hz_value: f32)

definition BAND_COUNT :: nat where
  "BAND_COUNT = 32"

record channel_level =
  cl_peak :: f32
  cl_bins :: "f32 list"

definition channel_level_default :: channel_level where
  "channel_level_default = \<lparr>cl_peak = 0, cl_bins = replicate BAND_COUNT 0\<rparr>"

definition level_ok :: "channel_level \<Rightarrow> bool" where
  "level_ok c \<longleftrightarrow> length (cl_bins c) = BAND_COUNT"

definition level_finite :: "channel_level \<Rightarrow> bool" where
  "level_finite c \<longleftrightarrow> f32_is_finite (cl_peak c) \<and> list_all f32_is_finite (cl_bins c)"

record raw_payload =
  rp_channels :: "channel_level list"

definition raw_payload_new :: "nat \<Rightarrow> raw_payload" where
  "raw_payload_new n = \<lparr>rp_channels = replicate n channel_level_default\<rparr>"

text \<open>\<^verbatim>\<open>RawPayload::default()\<close>, what \<^verbatim>\<open>std::mem::take\<close> leaves behind.\<close>

definition raw_payload_default :: raw_payload where
  "raw_payload_default = \<lparr>rp_channels = []\<rparr>"

record midi_snapshot =
  ms_transport :: "string option"
  ms_steps :: u32

record display_payload =
  dp_channels :: "channel_level list"
  dp_midi :: "midi_snapshot option"

definition display_payload_new :: "nat \<Rightarrow> display_payload" where
  "display_payload_new n = \<lparr>dp_channels = replicate n channel_level_default, dp_midi = None\<rparr>"

definition display_payload_default :: display_payload where
  "display_payload_default = \<lparr>dp_channels = [], dp_midi = None\<rparr>"

lemma channel_level_default_ok [simp]: "level_ok channel_level_default"
  by (simp add: level_ok_def channel_level_default_def)

lemma raw_payload_new_length [simp]: "length (rp_channels (raw_payload_new n)) = n"
  by (simp add: raw_payload_new_def)

section \<open>Watch channels\<close>

text \<open>
  The \<^verbatim>\<open>tokio::sync::watch\<close> channel is not part of the repository. The model takes its operations
  as a record of functions on a channel type \<open>'w\<close>, and \<open>watch_laws\<close> names the documented
  behaviour the code relies on: \<^verbatim>\<open>send_replace\<close> stores the new value and returns the old one, and
  \<^verbatim>\<open>borrow\<close> reads the latest value.
\<close>

record ('w, 'a) watch_ops =
  w_is_closed :: "'w \<Rightarrow> bool"
  w_send_replace :: "'w \<Rightarrow> 'a \<Rightarrow> 'w \<times> 'a"
  w_borrow :: "'w \<Rightarrow> 'a"

definition watch_laws :: "('w, 'a) watch_ops \<Rightarrow> bool" where
  "watch_laws W \<longleftrightarrow> (\<forall>w x. w_borrow W (fst (w_send_replace W w x)) = x \<and>
     snd (w_send_replace W w x) = w_borrow W w)"

text \<open>A channel that is just its latest value, for instances of the laws.\<close>

definition cell_watch :: "('a, 'a) watch_ops" where
  "cell_watch = \<lparr>w_is_closed = (\<lambda>_. False), w_send_replace = (\<lambda>w x. (x, w)), w_borrow = (\<lambda>w. w)\<rparr>"

lemma cell_watch_laws: "watch_laws cell_watch"
  by (simp add: watch_laws_def cell_watch_def)

lemma cell_watch_sel [simp]:
  "w_is_closed cell_watch w = False" "w_send_replace cell_watch w x = (x, w)"
  "w_borrow cell_watch w = w"
  by (simp_all add: cell_watch_def)

end
