(* ===== verification/Config_Types.thy ===== *)
theory Config_Types
  imports Payload
begin

text \<open>
  The configuration types of \<^verbatim>\<open>src/src/config/types.rs\<close> and the command line of
  \<^verbatim>\<open>src/src/lib.rs\<close>. A socket address is its IP address and port; a frame region slot, which the
  code compares by the identity of its \<^verbatim>\<open>Arc\<close>, is a number. \<^verbatim>\<open>usize\<close> values are naturals.
\<close>

datatype ip_addr = IpV4 u8 u8 u8 u8 | IpV6 "128 word"

record socket_addr =
  sa_ip :: ip_addr
  sa_port :: u16

fun is_loopback :: "ip_addr \<Rightarrow> bool" where
  "is_loopback (IpV4 a b c d) = (a = 127)"
| "is_loopback (IpV6 w) = (w = 1)"

section \<open>Constants\<close>

definition DEFAULT_MAX_CLIENTS :: nat where
  "DEFAULT_MAX_CLIENTS = 8"

definition DEFAULT_TEST_HZ :: f32 where
  "DEFAULT_TEST_HZ = f32_lit 440 1"

definition CALIBRATION_SAMPLE_RATE_HZ :: nat where
  "CALIBRATION_SAMPLE_RATE_HZ = 44100"

definition CALIBRATION_FREQUENCY_CEILING_RATIO :: f32 where
  "CALIBRATION_FREQUENCY_CEILING_RATIO = f32_lit 45 100"

definition CALIBRATION_MAX_FREQUENCY_HZ :: f32 where
  "CALIBRATION_MAX_FREQUENCY_HZ =
     f32_mul (f32_of_nat CALIBRATION_SAMPLE_RATE_HZ) CALIBRATION_FREQUENCY_CEILING_RATIO"

section \<open>Resolved configuration\<close>

datatype test_signal = FixedTone f32 | Sweep f32

datatype config_input =
    Calibration test_signal
  | Device rstring "u16 list option"

datatype config_midi_input = TestClock f32 | MidiDevice rstring

type_synonym region_slot = nat

datatype output_config =
    WebSocket socket_addr nat bool
  | Osc socket_addr
  | FrameRegion region_slot

record vocoder_config =
  vc_attack_ms :: milliseconds
  vc_release_ms :: milliseconds
  vc_freq_low :: hertz
  vc_freq_high :: hertz
  vc_filter_q :: f32

definition vocoder_config_default :: vocoder_config where
  "vocoder_config_default =
     \<lparr>vc_attack_ms = Milliseconds (f32_lit 24 1), vc_release_ms = Milliseconds (f32_lit 96 1),
      vc_freq_low = Hertz (f32_lit 60 1), vc_freq_high = Hertz (f32_lit 6000 1),
      vc_filter_q = f32_lit 8 1\<rparr>"

datatype app_config_error =
    MissingDevice
  | NoOutputConfigured
  | NonLoopbackBindAddress socket_addr
  | InvalidAttackTime f32
  | InvalidReleaseTime f32
  | InvalidFreqLow f32
  | InvalidFreqHigh f32
  | InvalidFreqRange f32 f32
  | InvalidFilterQ f32
  | InvalidVocoderBandCoefficients nat f32 nat
  | InvalidMidiTempo f32
  | InvalidTestFrequency f32
  | InvalidTestSweepRate f32
  | InvalidMaxClients
  | EmptyChannelSelection
  | InvalidMidiDeviceName
  | DuplicateOutputTransport string
  | ChannelIndexOutOfRange u16 u16
  | ConfigFileParseError rstring
  | ConfigFileNotFound rstring
  | InvalidFreqAboveNyquist nat f32 f32
  | InvalidFreqAboveSafetyCeiling nat f32 f32

text \<open>
  \<^verbatim>\<open>ConfigOutputs\<close> is a newtype around the output list whose constructor \<open>config_outputs_new\<close>
  rejects an empty list and a repeated transport. The loop keeps one flag per transport.
\<close>

definition WEBSOCKET_OUTPUT_NAME :: string where
  "WEBSOCKET_OUTPUT_NAME = ''WebSocket''"

definition OSC_OUTPUT_NAME :: string where
  "OSC_OUTPUT_NAME = ''OSC''"

definition FRAME_REGION_OUTPUT_NAME :: string where
  "FRAME_REGION_OUTPUT_NAME = ''Frame region''"

fun check_transports ::
  "output_config list \<Rightarrow> bool \<Rightarrow> bool \<Rightarrow> bool \<Rightarrow> app_config_error + unit" where
  "check_transports [] ws osc region = Inr ()"
| "check_transports (WebSocket a m b # os) ws osc region =
     (if ws then Inl (DuplicateOutputTransport WEBSOCKET_OUTPUT_NAME)
      else check_transports os True osc region)"
| "check_transports (Osc a # os) ws osc region =
     (if osc then Inl (DuplicateOutputTransport OSC_OUTPUT_NAME)
      else check_transports os ws True region)"
| "check_transports (FrameRegion s # os) ws osc region =
     (if region then Inl (DuplicateOutputTransport FRAME_REGION_OUTPUT_NAME)
      else check_transports os ws osc True)"

definition config_outputs_new ::
  "output_config list \<Rightarrow> app_config_error + output_config list" where
  "config_outputs_new outputs =
     (if outputs = [] then Inl NoOutputConfigured
      else and_then (check_transports outputs False False False) (\<lambda>_. Inr outputs))"

record app_config =
  ac_outputs :: "output_config list"
  ac_input :: config_input
  ac_midi_input :: "config_midi_input option"
  ac_vocoder_config :: vocoder_config

definition app_config_default :: "app_config_error + app_config" where
  "app_config_default = and_then
     (config_outputs_new [WebSocket \<lparr>sa_ip = IpV4 127 0 0 1, sa_port = 0\<rparr> DEFAULT_MAX_CLIENTS False])
     (\<lambda>outputs. Inr \<lparr>ac_outputs = outputs, ac_input = Calibration (FixedTone DEFAULT_TEST_HZ),
        ac_midi_input = None, ac_vocoder_config = vocoder_config_default\<rparr>)"

section \<open>The file layer\<close>

record file_network_config =
  fn_ws_addr :: "socket_addr option"
  fn_max_clients :: "nat option"
  fn_osc_addr :: "socket_addr option"

record file_audio_config =
  fa_device_name_match :: "rstring option"
  fa_analyse_channels :: "u16 list option"

record file_midi_config =
  fm_device_name_match :: "rstring option"

record file_vocoder_config =
  fv_attack_ms :: "f32 option"
  fv_release_ms :: "f32 option"
  fv_freq_low :: "f32 option"
  fv_freq_high :: "f32 option"
  fv_filter_q :: "f32 option"

record file_config =
  fc_network :: file_network_config
  fc_audio :: file_audio_config
  fc_midi :: file_midi_config
  fc_vocoder :: file_vocoder_config

definition file_network_default :: file_network_config where
  "file_network_default = \<lparr>fn_ws_addr = None, fn_max_clients = None, fn_osc_addr = None\<rparr>"

definition file_config_default :: file_config where
  "file_config_default = \<lparr>fc_network = file_network_default,
     fc_audio = \<lparr>fa_device_name_match = None, fa_analyse_channels = None\<rparr>,
     fc_midi = \<lparr>fm_device_name_match = None\<rparr>,
     fc_vocoder = \<lparr>fv_attack_ms = None, fv_release_ms = None, fv_freq_low = None,
       fv_freq_high = None, fv_filter_q = None\<rparr>\<rparr>"

section \<open>The command line\<close>

datatype list_format = ListText | ListJson

record calibration_args =
  ca_test_hz :: "f32 option"
  ca_test_sweep :: "f32 option"
  ca_test_midi_clock :: "f32 option"

record input_args =
  ia_audio_device :: "rstring option"
  ia_audio_list :: bool
  ia_audio_list_format :: list_format
  ia_audio_analyse_channels :: "u16 list option"

record midi_args =
  ma_midi_device :: "rstring option"
  ma_midi_list :: bool
  ma_midi_list_format :: list_format

record network_args =
  na_ws_addr :: "socket_addr option"
  na_max_clients :: "nat option"
  na_no_browser_origin :: bool
  na_osc_addr :: "socket_addr option"

record vocoder_args =
  va_attack_ms :: "f32 option"
  va_release_ms :: "f32 option"
  va_freq_low :: "f32 option"
  va_freq_high :: "f32 option"
  va_filter_q :: "f32 option"

record args =
  ar_config :: "rstring option"
  ar_headless :: bool
  ar_calibration :: calibration_args
  ar_input :: input_args
  ar_midi :: midi_args
  ar_network :: network_args
  ar_vocoder :: vocoder_args

section \<open>Bit patterns of the constants\<close>

lemma CALIBRATION_MAX_FREQUENCY_HZ_bits:
  "CALIBRATION_MAX_FREQUENCY_HZ = 0x469B0A00"
  by (simp add: CALIBRATION_MAX_FREQUENCY_HZ_def CALIBRATION_SAMPLE_RATE_HZ_def
      CALIBRATION_FREQUENCY_CEILING_RATIO_def float_eval)

lemma DEFAULT_TEST_HZ_bits: "DEFAULT_TEST_HZ = 0x43DC0000"
  by (simp add: DEFAULT_TEST_HZ_def float_eval)

lemma vocoder_config_default_bits:
  "vocoder_config_default =
     \<lparr>vc_attack_ms = Milliseconds 0x41C00000, vc_release_ms = Milliseconds 0x42C00000,
      vc_freq_low = Hertz 0x42700000, vc_freq_high = Hertz 0x45BB8000, vc_filter_q = 0x41000000\<rparr>"
  by (simp add: vocoder_config_default_def float_eval)

lemmas config_bits = CALIBRATION_MAX_FREQUENCY_HZ_bits DEFAULT_TEST_HZ_bits
  vocoder_config_default_bits

section \<open>Output sets\<close>

text \<open>The transport of an output, and the abstract contract: non-empty, each transport once.\<close>

datatype transport = TWebSocket | TOsc | TFrameRegion

fun transport_of :: "output_config \<Rightarrow> transport" where
  "transport_of (WebSocket a m b) = TWebSocket"
| "transport_of (Osc a) = TOsc"
| "transport_of (FrameRegion s) = TFrameRegion"

lemma check_transports_iff:
  "check_transports os ws osc region = Inr () \<longleftrightarrow>
     distinct (map transport_of os) \<and> (ws \<longrightarrow> TWebSocket \<notin> transport_of ` set os) \<and>
     (osc \<longrightarrow> TOsc \<notin> transport_of ` set os) \<and> (region \<longrightarrow> TFrameRegion \<notin> transport_of ` set os)"
  by (induction os ws osc region rule: check_transports.induct) (auto simp: image_iff)

lemma config_outputs_new_Inr:
  "config_outputs_new os = Inr os' \<longleftrightarrow>
     os' = os \<and> os \<noteq> [] \<and> distinct (map transport_of os)"
proof -
  have "check_transports os False False False = Inr () \<longleftrightarrow> distinct (map transport_of os)"
    by (simp add: check_transports_iff)
  then show ?thesis by (auto simp: config_outputs_new_def and_then_Inr)
qed

end
