(* ===== verification/Config_Validate.thy ===== *)
theory Config_Validate
  imports Config_Types
begin

text \<open>
  The checks of \<^verbatim>\<open>src/src/config/validate.rs\<close>. Two values come from outside the repository and are
  gathered in \<open>runtime_env\<close>: the permit limit of the runtime's semaphore and whether the monotonic
  clock can represent an interval from now. A duration is its number of nanoseconds.
\<close>

record runtime_env =
  re_max_permits :: nat
  re_instant_checked_add :: "nat \<Rightarrow> bool"

definition is_strictly_positive :: "f32 \<Rightarrow> bool" where
  "is_strictly_positive v \<longleftrightarrow> f32_is_finite v \<and> f32_lt 0 v"

text \<open>
  \<^verbatim>\<open>Duration::try_from_secs_f64\<close>: an error for a negative number, NaN, infinity and more seconds
  than a \<^verbatim>\<open>u64\<close> holds, else the nanoseconds rounded to nearest, ties to even.
\<close>

definition duration_try_from_secs_f64 :: "f64 \<Rightarrow> nat option" where
  "duration_try_from_secs_f64 s = (let x = f64_unpack s in
     if \<not> fl_is_finite F64 x \<or> fst x \<and> snd x \<noteq> 0 then None
     else let nanos = rhe (mag_val F64 (snd x) * 1000000000) (2 ^ unit_exp F64) in
       if 2 ^ 64 \<le> nanos div 1000000000 then None else Some nanos)"

definition non_zero_duration_from_secs :: "f64 \<Rightarrow> nat option" where
  "non_zero_duration_from_secs s = opt_filter (\<lambda>d. d \<noteq> 0) (duration_try_from_secs_f64 s)"

definition midi_tick_interval :: "runtime_env \<Rightarrow> f32 \<Rightarrow> app_config_error + nat" where
  "midi_tick_interval env bpm =
     (if \<not> is_strictly_positive bpm then Inl (InvalidMidiTempo bpm)
      else let seconds = f64_div (f64_lit 60 1) (f64_mul (f64_of_f32 bpm) (f64_lit 24 1)) in
        and_then (ok_or (non_zero_duration_from_secs seconds) (InvalidMidiTempo bpm))
          (\<lambda>interval. if \<not> re_instant_checked_add env interval then Inl (InvalidMidiTempo bpm)
             else Inr interval))"

fun validate_test_signal :: "test_signal \<Rightarrow> app_config_error + unit" where
  "validate_test_signal (FixedTone v) =
     (if \<not> is_strictly_positive v \<or> f32_lt CALIBRATION_MAX_FREQUENCY_HZ v
      then Inl (InvalidTestFrequency v) else Inr ())"
| "validate_test_signal (Sweep v) =
     (if \<not> is_strictly_positive v \<or> f32_lt CALIBRATION_MAX_FREQUENCY_HZ v
      then Inl (InvalidTestSweepRate v) else Inr ())"

definition validate_max_clients :: "runtime_env \<Rightarrow> nat \<Rightarrow> app_config_error + unit" where
  "validate_max_clients env n =
     (if n = 0 \<or> re_max_permits env < n then Inl InvalidMaxClients else Inr ())"

definition validate_bind_addr :: "socket_addr \<Rightarrow> app_config_error + unit" where
  "validate_bind_addr addr =
     (if is_loopback (sa_ip addr) then Inr () else Inl (NonLoopbackBindAddress addr))"

definition validate_vocoder_fields ::
  "f32 \<Rightarrow> f32 \<Rightarrow> f32 \<Rightarrow> f32 \<Rightarrow> f32 \<Rightarrow> app_config_error + unit" where
  "validate_vocoder_fields attack_ms release_ms freq_low freq_high filter_q =
     (if \<not> is_strictly_positive attack_ms then Inl (InvalidAttackTime attack_ms)
      else if \<not> is_strictly_positive release_ms then Inl (InvalidReleaseTime release_ms)
      else if \<not> is_strictly_positive freq_low then Inl (InvalidFreqLow freq_low)
      else if \<not> is_strictly_positive freq_high then Inl (InvalidFreqHigh freq_high)
      else if f32_le freq_high freq_low then Inl (InvalidFreqRange freq_low freq_high)
      else let maximum_biquad_alpha = f32_div (f32_lit 1 1) (f32_mul (f32_lit 2 1) filter_q) in
        if \<not> is_strictly_positive filter_q \<or> \<not> f32_is_finite maximum_biquad_alpha
        then Inl (InvalidFilterQ filter_q) else Inr ())"

definition validate_vocoder_sample_rate :: "hertz \<Rightarrow> nat \<Rightarrow> app_config_error + unit" where
  "validate_vocoder_sample_rate freq_high sample_rate =
     (let sample_rate_hz = f32_of_nat sample_rate;
          nyquist_hz = f32_div sample_rate_hz (f32_lit 2 1);
          max_safe_hz = f32_mul sample_rate_hz (f32_lit 45 100)
      in if f32_le nyquist_hz (hz_value freq_high)
         then Inl (InvalidFreqAboveNyquist sample_rate (hz_value freq_high) nyquist_hz)
         else if f32_lt max_safe_hz (hz_value freq_high)
         then Inl (InvalidFreqAboveSafetyCeiling sample_rate (hz_value freq_high) max_safe_hz)
         else Inr ())"

fun validate_input :: "config_input \<Rightarrow> app_config_error + unit" where
  "validate_input (Calibration signal) = validate_test_signal signal"
| "validate_input (Device dev analyse_channels) =
     (if trim dev = [] then Inl MissingDevice
      else if analyse_channels = Some [] then Inl EmptyChannelSelection
      else Inr ())"

fun validate_midi :: "runtime_env \<Rightarrow> config_midi_input option \<Rightarrow> app_config_error + unit" where
  "validate_midi env (Some (TestClock bpm)) = and_then (midi_tick_interval env bpm) (\<lambda>_. Inr ())"
| "validate_midi env (Some (MidiDevice dev)) =
     (if trim dev = [] then Inl InvalidMidiDeviceName else Inr ())"
| "validate_midi env None = Inr ()"

fun validate_outputs :: "runtime_env \<Rightarrow> output_config list \<Rightarrow> app_config_error + unit" where
  "validate_outputs env [] = Inr ()"
| "validate_outputs env (WebSocket addr max_clients b # os) =
     and_then (validate_bind_addr addr)
       (\<lambda>_. and_then (validate_max_clients env max_clients) (\<lambda>_. validate_outputs env os))"
| "validate_outputs env (Osc addr # os) = validate_outputs env os"
| "validate_outputs env (FrameRegion s # os) = validate_outputs env os"

definition validate_app_config :: "runtime_env \<Rightarrow> app_config \<Rightarrow> app_config_error + unit" where
  "validate_app_config env cfg =
     and_then (validate_input (ac_input cfg)) (\<lambda>_.
     and_then (validate_midi env (ac_midi_input cfg)) (\<lambda>_.
     and_then (validate_outputs env (ac_outputs cfg)) (\<lambda>_.
       validate_vocoder_fields (ms_value (vc_attack_ms (ac_vocoder_config cfg)))
         (ms_value (vc_release_ms (ac_vocoder_config cfg)))
         (hz_value (vc_freq_low (ac_vocoder_config cfg)))
         (hz_value (vc_freq_high (ac_vocoder_config cfg)))
         (vc_filter_q (ac_vocoder_config cfg)))))"

section \<open>What the checks guarantee\<close>

lemma is_strictly_positive_key:
  "is_strictly_positive v \<longleftrightarrow> f32_is_finite v \<and> 0 < fl_key (f32_unpack v)"
proof -
  have "f32_unpack 0 = (False, 0)" by (simp add: f32_unpack_def)
  then show ?thesis
    by (auto simp: is_strictly_positive_def f32_lt_def fl_lt_def f32_is_finite_def
        fl_is_finite_def fl_is_nan_def fl_key_def)
qed

lemma validate_test_signal_Inr:
  "validate_test_signal sig = Inr () \<longleftrightarrow>
     (case sig of FixedTone v \<Rightarrow> is_strictly_positive v \<and> \<not> f32_lt CALIBRATION_MAX_FREQUENCY_HZ v
      | Sweep v \<Rightarrow> is_strictly_positive v \<and> \<not> f32_lt CALIBRATION_MAX_FREQUENCY_HZ v)"
  by (cases sig) auto

lemma validate_bind_addr_Inr [simp]:
  "validate_bind_addr addr = Inr () \<longleftrightarrow> is_loopback (sa_ip addr)"
  by (simp add: validate_bind_addr_def)

lemma validate_max_clients_Inr [simp]:
  "validate_max_clients env n = Inr () \<longleftrightarrow> 0 < n \<and> n \<le> re_max_permits env"
  by (auto simp: validate_max_clients_def)

lemma validate_outputs_Inr:
  "validate_outputs env os = Inr () \<longleftrightarrow>
     (\<forall>addr m b. WebSocket addr m b \<in> set os \<longrightarrow>
        is_loopback (sa_ip addr) \<and> 0 < m \<and> m \<le> re_max_permits env)"
  by (induction env os rule: validate_outputs.induct) (auto simp: and_then_Inr)

lemma validate_vocoder_fields_Inr:
  "validate_vocoder_fields a r fl fh q = Inr () \<longleftrightarrow>
     is_strictly_positive a \<and> is_strictly_positive r \<and> is_strictly_positive fl \<and>
     is_strictly_positive fh \<and> \<not> f32_le fh fl \<and> is_strictly_positive q \<and>
     f32_is_finite (f32_div (f32_lit 1 1) (f32_mul (f32_lit 2 1) q))"
  by (simp add: validate_vocoder_fields_def Let_def)

lemma midi_tick_interval_Inr:
  "midi_tick_interval env bpm = Inr n \<Longrightarrow> is_strictly_positive bpm \<and> 0 < n \<and> re_instant_checked_add env n"
  by (auto simp: midi_tick_interval_def Let_def and_then_Inr ok_or_Inr opt_filter_Some
      non_zero_duration_from_secs_def split: if_splits)

lemma midi_tick_interval_Inl:
  "midi_tick_interval env bpm = Inl e \<Longrightarrow> e = InvalidMidiTempo bpm"
  by (auto simp: midi_tick_interval_def Let_def and_then_Inl ok_or_def split: if_splits option.splits)

lemmas validate_Inr = validate_test_signal_Inr validate_outputs_Inr validate_vocoder_fields_Inr

text \<open>The built-in vocoder defaults pass.\<close>

lemma default_vocoder_valid:
  "validate_vocoder_fields 0x41C00000 0x42C00000 0x42700000 0x45BB8000 0x41000000 = Inr ()"
  by (simp add: validate_vocoder_fields_def is_strictly_positive_def float_eval)

end
