(* ===== verification/Config_Resolve.thy ===== *)
theory Config_Resolve
  imports Config_Validate
begin

text \<open>
  Merging of the configuration layers, \<^verbatim>\<open>src/src/config/resolve.rs\<close>. The YAML parser is a
  parameter \<open>parse\<close>, and the file system is a parameter \<open>files\<close> that gives, for a path, None when
  it does not exist, else the outcome of reading it. Warnings and information logs are left out.
\<close>

section \<open>Definitions\<close>

definition normalise_channel_selection ::
  "u16 list option \<Rightarrow> app_config_error + u16 list option" where
  "normalise_channel_selection indices = (case indices of
       None \<Rightarrow> Inr None
     | Some raw \<Rightarrow> if raw = [] then Inl EmptyChannelSelection
         else Inr (Some (remdups_adj (sort raw))))"

definition resolve_input ::
  "args \<Rightarrow> rstring option \<Rightarrow> u16 list option \<Rightarrow> app_config_error + config_input" where
  "resolve_input a raw_device raw_channels =
     and_then (normalise_channel_selection raw_channels) (\<lambda>analyse_channels.
     and_then
       (case ca_test_sweep (ar_calibration a) of
          Some lfo_rate \<Rightarrow> and_then (validate_test_signal (Sweep lfo_rate)) (\<lambda>_. Inr (Some (Sweep lfo_rate)))
        | None \<Rightarrow> (case ca_test_hz (ar_calibration a) of
            Some frequency \<Rightarrow>
              and_then (validate_test_signal (FixedTone frequency)) (\<lambda>_. Inr (Some (FixedTone frequency)))
          | None \<Rightarrow> Inr None))
       (\<lambda>calibration_signal. case calibration_signal of
          Some signal \<Rightarrow> Inr (Calibration signal)
        | None \<Rightarrow> and_then (ok_or raw_device MissingDevice) (\<lambda>dev. Inr (Device dev analyse_channels))))"

definition resolve_midi_input ::
  "runtime_env \<Rightarrow> args \<Rightarrow> file_midi_config \<Rightarrow> app_config_error + config_midi_input option" where
  "resolve_midi_input env a file_midi = (case ca_test_midi_clock (ar_calibration a) of
       Some bpm \<Rightarrow> and_then (midi_tick_interval env bpm) (\<lambda>_. Inr (Some (TestClock bpm)))
     | None \<Rightarrow>
         let raw_device = opt_filter (\<lambda>s. trim s \<noteq> [])
               (opt_or (ma_midi_device (ar_midi a)) (fm_device_name_match file_midi))
         in Inr (map_option MidiDevice raw_device))"

definition resolve_with_outputs ::
  "runtime_env \<Rightarrow> args \<Rightarrow> file_config \<Rightarrow> output_config list \<Rightarrow> app_config_error + app_config" where
  "resolve_with_outputs env a file extra_outputs =
    (let voc_def = vocoder_config_default;
         ws_addr = opt_or (na_ws_addr (ar_network a)) (fn_ws_addr (fc_network file));
         max_clients = unwrap_or
           (opt_or (na_max_clients (ar_network a)) (fn_max_clients (fc_network file)))
           DEFAULT_MAX_CLIENTS;
         no_browser_origin = na_no_browser_origin (ar_network a);
         osc_addr = opt_or (na_osc_addr (ar_network a)) (fn_osc_addr (fc_network file));
         raw_device = opt_filter (\<lambda>s. trim s \<noteq> [])
           (opt_or (ia_audio_device (ar_input a)) (fa_device_name_match (fc_audio file)));
         raw_channels = opt_or (ia_audio_analyse_channels (ar_input a))
           (fa_analyse_channels (fc_audio file));
         attack_ms = unwrap_or (opt_or (va_attack_ms (ar_vocoder a)) (fv_attack_ms (fc_vocoder file)))
           (ms_value (vc_attack_ms voc_def));
         release_ms = unwrap_or (opt_or (va_release_ms (ar_vocoder a)) (fv_release_ms (fc_vocoder file)))
           (ms_value (vc_release_ms voc_def));
         freq_low = unwrap_or (opt_or (va_freq_low (ar_vocoder a)) (fv_freq_low (fc_vocoder file)))
           (hz_value (vc_freq_low voc_def));
         freq_high = unwrap_or (opt_or (va_freq_high (ar_vocoder a)) (fv_freq_high (fc_vocoder file)))
           (hz_value (vc_freq_high voc_def));
         filter_q = unwrap_or (opt_or (va_filter_q (ar_vocoder a)) (fv_filter_q (fc_vocoder file)))
           (vc_filter_q voc_def)
     in
     and_then (resolve_input a raw_device raw_channels) (\<lambda>input.
     and_then (resolve_midi_input env a (fc_midi file)) (\<lambda>midi_input.
     and_then (validate_vocoder_fields attack_ms release_ms freq_low freq_high filter_q) (\<lambda>_.
     and_then
       (case ws_addr of
          Some addr \<Rightarrow> and_then (validate_bind_addr addr) (\<lambda>_.
            and_then (validate_max_clients env max_clients)
              (\<lambda>_. Inr [WebSocket addr max_clients no_browser_origin]))
        | None \<Rightarrow> Inr [])
       (\<lambda>ws_outputs.
     and_then
       (config_outputs_new
         (ws_outputs @ (case osc_addr of Some addr \<Rightarrow> [Osc addr] | None \<Rightarrow> []) @ extra_outputs))
       (\<lambda>outputs. Inr \<lparr>ac_outputs = outputs, ac_input = input, ac_midi_input = midi_input,
          ac_vocoder_config = \<lparr>vc_attack_ms = Milliseconds attack_ms,
            vc_release_ms = Milliseconds release_ms, vc_freq_low = Hertz freq_low,
            vc_freq_high = Hertz freq_high, vc_filter_q = filter_q\<rparr>\<rparr>))))))"

definition parse_file_config ::
  "(rstring \<Rightarrow> rstring + file_config) \<Rightarrow> rstring \<Rightarrow> app_config_error + file_config" where
  "parse_file_config parse text =
     (case parse text of Inl e \<Rightarrow> Inl (ConfigFileParseError e) | Inr cfg \<Rightarrow> Inr cfg)"

definition load_file_config ::
  "(rstring \<Rightarrow> rstring + file_config) \<Rightarrow> (rstring \<Rightarrow> (rstring + rstring) option) \<Rightarrow> rstring option
    \<Rightarrow> app_config_error + file_config option" where
  "load_file_config parse files explicit =
    (let path = unwrap_or explicit (lit ''config.yaml'') in
     case files path of
       None \<Rightarrow> if explicit \<noteq> None then Inl (ConfigFileNotFound path) else Inr None
     | Some (Inl e) \<Rightarrow> Inl (ConfigFileParseError e)
     | Some (Inr content) \<Rightarrow> and_then (parse_file_config parse content) (\<lambda>cfg. Inr (Some cfg)))"

definition app_config_try_from ::
  "runtime_env \<Rightarrow> (rstring \<Rightarrow> rstring + file_config) \<Rightarrow> (rstring \<Rightarrow> (rstring + rstring) option)
    \<Rightarrow> args \<Rightarrow> app_config_error + app_config" where
  "app_config_try_from env parse files a =
     and_then (load_file_config parse files (ar_config a)) (\<lambda>file_opt.
       resolve_with_outputs env a (unwrap_or file_opt file_config_default) [])"

section \<open>Channel selection\<close>

lemma strict_sorted_remdups_adj:
  "sorted (xs :: 'a::linorder list) \<Longrightarrow> sorted_wrt (<) (remdups_adj xs)"
  by (induction xs rule: remdups_adj.induct) (auto simp: order.strict_iff_order dest: order.antisym)

lemma normalise_channel_selection_Inr:
  assumes "normalise_channel_selection sel = Inr r"
  shows "(sel = None \<and> r = None) \<or>
     (\<exists>raw xs. sel = Some raw \<and> r = Some xs \<and> raw \<noteq> [] \<and> xs \<noteq> [] \<and> sorted_wrt (<) xs \<and> set xs = set raw)"
proof (cases sel)
  case (Some raw)
  with assms have "raw \<noteq> []" "r = Some (remdups_adj (sort raw))"
    by (auto simp: normalise_channel_selection_def split: if_splits)
  moreover from \<open>raw \<noteq> []\<close> have "set (sort raw) \<noteq> {}" by simp
  then have "remdups_adj (sort raw) \<noteq> []" by (metis remdups_adj_Nil_iff set_empty2)
  ultimately show ?thesis using Some by (simp add: strict_sorted_remdups_adj)
qed (use assms in \<open>simp add: normalise_channel_selection_def\<close>)

section \<open>The resolved configuration is valid\<close>

lemma resolve_input_valid:
  assumes "resolve_input a dev chans = Inr input" "\<And>d. dev = Some d \<Longrightarrow> trim d \<noteq> []"
  shows "validate_input input = Inr ()"
proof -
  from assms(1) obtain sel where sel: "normalise_channel_selection chans = Inr sel"
    by (auto simp: resolve_input_def and_then_Inr)
  then have "sel \<noteq> Some []" by (auto dest: normalise_channel_selection_Inr)
  then show ?thesis using assms sel
    by (auto simp: resolve_input_def and_then_Inr ok_or_Inr split: option.splits)
qed

lemma resolve_midi_input_valid:
  "resolve_midi_input env a fm = Inr m \<Longrightarrow> validate_midi env m = Inr ()"
  by (auto simp: resolve_midi_input_def and_then_Inr Let_def opt_filter_def split: option.splits if_splits)

lemma validate_outputs_append:
  "validate_outputs env (xs @ ys) = Inr () \<longleftrightarrow>
     validate_outputs env xs = Inr () \<and> validate_outputs env ys = Inr ()"
  by (induction env xs rule: validate_outputs.induct) (auto simp: and_then_Inr)

lemma resolve_valid:
  assumes "resolve_with_outputs env a file extra = Inr cfg"
    and "validate_outputs env extra = Inr ()"
  shows "validate_app_config env cfg = Inr () \<and> ac_outputs cfg \<noteq> [] \<and>
    distinct (map transport_of (ac_outputs cfg))"
proof -
  let ?ws = "opt_or (na_ws_addr (ar_network a)) (fn_ws_addr (fc_network file))"
  let ?dev = "opt_filter (\<lambda>s. trim s \<noteq> [])
    (opt_or (ia_audio_device (ar_input a)) (fa_device_name_match (fc_audio file)))"
  have dev: "\<And>d. ?dev = Some d \<Longrightarrow> trim d \<noteq> []" by (simp add: opt_filter_Some)
  show ?thesis using assms
    by (auto simp: resolve_with_outputs_def Let_def and_then_Inr config_outputs_new_Inr
        validate_app_config_def validate_outputs_append
        dest!: resolve_input_valid [OF _ dev] resolve_midi_input_valid split: option.splits)
qed

text \<open>
  Claim C8. A configuration that the three layers resolve to is one that \<^verbatim>\<open>App::new\<close> accepts:
  whatever the command line and the file say, resolution either fails with an error of its own or
  yields a configuration that passes the validation every directly built configuration goes
  through, as long as the extra outputs handed to it do.
\<close>

theorem resolve_config_valid:
  assumes "resolve_with_outputs env a file extra = Inr cfg"
    and "validate_outputs env extra = Inr ()"
  shows "validate_app_config env cfg = Inr () \<and> ac_outputs cfg \<noteq> [] \<and>
    distinct (map transport_of (ac_outputs cfg))"
  by (rule resolve_valid [OF assms])

text \<open>A command line for the witnesses: a 440 Hz tone, one WebSocket output, a channel selection.\<close>

definition demo_env :: runtime_env where
  "demo_env = \<lparr>re_max_permits = 1000, re_instant_checked_add = (\<lambda>n. n < 1000000000000)\<rparr>"

definition demo_args :: args where
  "demo_args =
     \<lparr>ar_config = None, ar_headless = False,
      ar_calibration = \<lparr>ca_test_hz = Some 0x43DC0000, ca_test_sweep = None, ca_test_midi_clock = None\<rparr>,
      ar_input = \<lparr>ia_audio_device = None, ia_audio_list = False, ia_audio_list_format = ListText,
        ia_audio_analyse_channels = Some [5, 3, 5]\<rparr>,
      ar_midi = \<lparr>ma_midi_device = None, ma_midi_list = False, ma_midi_list_format = ListText\<rparr>,
      ar_network = \<lparr>na_ws_addr = Some \<lparr>sa_ip = IpV4 127 0 0 1, sa_port = 9000\<rparr>,
        na_max_clients = None, na_no_browser_origin = False, na_osc_addr = None\<rparr>,
      ar_vocoder = \<lparr>va_attack_ms = None, va_release_ms = None, va_freq_low = None,
        va_freq_high = None, va_filter_q = None\<rparr>\<rparr>"

definition demo_config :: app_config where
  "demo_config = \<lparr>ac_outputs = [WebSocket \<lparr>sa_ip = IpV4 127 0 0 1, sa_port = 9000\<rparr> 8 False],
     ac_input = Calibration (FixedTone 0x43DC0000), ac_midi_input = None,
     ac_vocoder_config = vocoder_config_default\<rparr>"

lemma demo_signal_valid: "validate_test_signal (FixedTone 0x43DC0000) = Inr ()"
  by (simp add: is_strictly_positive_def config_bits float_eval)

lemma demo_resolves: "resolve_with_outputs demo_env demo_args file_config_default [] = Inr demo_config"
  by (simp add: resolve_with_outputs_def resolve_input_def resolve_midi_input_def Let_def
      normalise_channel_selection_def demo_args_def demo_env_def demo_config_def
      file_config_default_def file_network_default_def config_bits default_vocoder_valid
      demo_signal_valid DEFAULT_MAX_CLIENTS_def config_outputs_new_def validate_max_clients_def
      validate_bind_addr_def del: validate_test_signal.simps)

theorem resolve_config_valid_witness:
  "validate_app_config demo_env demo_config = Inr () \<and> ac_outputs demo_config \<noteq> [] \<and>
    distinct (map transport_of (ac_outputs demo_config))"
  by (rule resolve_config_valid [OF demo_resolves]) simp

text \<open>
  The command line wins: when every flag that a file key could set is given, the file
  has no influence on the resolved configuration.
\<close>

lemma cli_overrides_file:
  assumes "na_ws_addr (ar_network a) \<noteq> None" "na_max_clients (ar_network a) \<noteq> None"
    "na_osc_addr (ar_network a) \<noteq> None" "ia_audio_device (ar_input a) \<noteq> None"
    "ia_audio_analyse_channels (ar_input a) \<noteq> None"
    "ma_midi_device (ar_midi a) \<noteq> None \<or> ca_test_midi_clock (ar_calibration a) \<noteq> None"
    "va_attack_ms (ar_vocoder a) \<noteq> None" "va_release_ms (ar_vocoder a) \<noteq> None"
    "va_freq_low (ar_vocoder a) \<noteq> None" "va_freq_high (ar_vocoder a) \<noteq> None"
    "va_filter_q (ar_vocoder a) \<noteq> None"
  shows "resolve_with_outputs env a file1 extra = resolve_with_outputs env a file2 extra"
proof -
  have "resolve_midi_input env a (fc_midi file1) = resolve_midi_input env a (fc_midi file2)"
    using assms(6)
    by (cases "ca_test_midi_clock (ar_calibration a)") (auto simp: resolve_midi_input_def opt_or_def)
  with assms show ?thesis by (auto simp: resolve_with_outputs_def Let_def)
qed

definition full_args :: args where
  "full_args = demo_args
     \<lparr>ar_network := \<lparr>na_ws_addr = Some \<lparr>sa_ip = IpV4 127 0 0 1, sa_port = 9000\<rparr>,
        na_max_clients = Some 4, na_no_browser_origin = True,
        na_osc_addr = Some \<lparr>sa_ip = IpV4 10 0 0 2, sa_port = 7000\<rparr>\<rparr>,
      ar_input := \<lparr>ia_audio_device = Some (lit ''Duet 3''), ia_audio_list = False,
        ia_audio_list_format = ListText, ia_audio_analyse_channels = Some [1]\<rparr>,
      ar_midi := \<lparr>ma_midi_device = Some (lit ''Loopback''), ma_midi_list = False,
        ma_midi_list_format = ListText\<rparr>,
      ar_vocoder := \<lparr>va_attack_ms = Some 0x41C00000, va_release_ms = Some 0x42C00000,
        va_freq_low = Some 0x42700000, va_freq_high = Some 0x45BB8000,
        va_filter_q = Some 0x41000000\<rparr>\<rparr>"

end
