(* ===== verification/Vocoder.thy ===== *)
theory Vocoder
  imports Config_Validate
begin

text \<open>
  The filter bank and envelope followers of \<^verbatim>\<open>src/src/dsp/vocoder.rs\<close>. The biquad filter is a
  third-party type, so its state \<open>'f\<close> and its operations are a parameter, \<open>biquad_ops\<close>, as are the
  library's \<open>exp_m1\<close>, \<open>exp\<close> and \<open>ln\<close>, whose precision the language leaves open, and the coefficient
  formula of the filter crate. The arithmetic of the followers is modelled bit for bit, with the
  flush mode \<open>z\<close> that the analyser thread runs under (on or off) as an argument.
\<close>

section \<open>Envelope follower\<close>

record envelope_follower =
  ef_value :: f32

definition envelope_follower_new :: envelope_follower where
  "envelope_follower_new = \<lparr>ef_value = 0\<rparr>"

definition process_sample ::
  "bool \<Rightarrow> envelope_follower \<Rightarrow> f32 \<Rightarrow> f32 \<Rightarrow> f32 \<Rightarrow> envelope_follower \<times> f32" where
  "process_sample z e rectified attack release =
     (let coeff = (if f32_gt_z z rectified (ef_value e) then attack else release);
          diff = f32_arith z (fl_sub F32) rectified (ef_value e);
          v = f32_arith z (fl_add F32) (ef_value e) (f32_arith z (fl_mul F32) coeff diff)
      in (e\<lparr>ef_value := v\<rparr>, v))"

definition follower_reset :: "envelope_follower \<Rightarrow> envelope_follower" where
  "follower_reset e = e\<lparr>ef_value := 0\<rparr>"

definition envelope_coeff :: "(f64 \<Rightarrow> f64) \<Rightarrow> milliseconds \<Rightarrow> hertz \<Rightarrow> f32" where
  "envelope_coeff exp_m1 time sample_rate =
     (let exponent = f64_div (f64_pack (fl_neg (fl_lit F64 1000 1)))
            (f64_mul (f64_of_f32 (ms_value time)) (f64_of_f32 (hz_value sample_rate)))
      in f32_of_f64 (f64_pack (fl_neg (f64_unpack (exp_m1 exponent)))))"

section \<open>Filter coefficients\<close>

record coefficients =
  co_a1 :: f32
  co_a2 :: f32
  co_b0 :: f32
  co_b1 :: f32
  co_b2 :: f32

definition coefficients_are_stable :: "coefficients \<Rightarrow> bool" where
  "coefficients_are_stable c =
     (let finite = list_all f32_is_finite [co_a1 c, co_a2 c, co_b0 c, co_b1 c, co_b2 c];
          a1 = f64_of_f32 (co_a1 c); a2 = f64_of_f32 (co_a2 c); one = f64_lit 1 1
      in finite \<and> f64_lt 0 (f64_add (f64_add one a1) a2) \<and> f64_lt 0 (f64_add (f64_sub one a1) a2)
         \<and> f64_lt 0 (f64_sub one a2))"

text \<open>
  The loop over the bands stops at the first band whose coefficients cannot be computed or are
  not stable. \<open>from_params\<close> is \<^verbatim>\<open>Coefficients::from_params\<close> for a band-pass filter.
\<close>

record libm_f32 =
  lm_ln :: "f32 \<Rightarrow> f32"
  lm_exp :: "f32 \<Rightarrow> f32"

definition band_frequency :: "libm_f32 \<Rightarrow> vocoder_config \<Rightarrow> nat \<Rightarrow> f32" where
  "band_frequency m cfg band =
     (let log_low = lm_ln m (hz_value (vc_freq_low cfg));
          log_high = lm_ln m (hz_value (vc_freq_high cfg));
          position = f32_div (f32_of_nat band)
            (f32_arith False (fl_sub F32) (f32_of_nat BAND_COUNT) (f32_lit 1 1))
      in lm_exp m (f32_arith False (fl_add F32) log_low
           (f32_mul position (f32_arith False (fl_sub F32) log_high log_low))))"

fun bandpass_loop ::
  "libm_f32 \<Rightarrow> (nat \<Rightarrow> f32 \<Rightarrow> f32 \<Rightarrow> coefficients option) \<Rightarrow> nat \<Rightarrow> vocoder_config \<Rightarrow> nat list
    \<Rightarrow> app_config_error + coefficients list" where
  "bandpass_loop m from_params sample_rate cfg [] = Inr []"
| "bandpass_loop m from_params sample_rate cfg (band # bands) =
     (let frequency_hz = band_frequency m cfg band;
          invalid_coefficients = InvalidVocoderBandCoefficients band frequency_hz sample_rate
      in and_then (ok_or (from_params sample_rate frequency_hz (vc_filter_q cfg)) invalid_coefficients)
        (\<lambda>candidate. if \<not> coefficients_are_stable candidate then Inl invalid_coefficients
           else and_then (bandpass_loop m from_params sample_rate cfg bands)
             (\<lambda>rest. Inr (candidate # rest))))"

definition bandpass_coefficients ::
  "libm_f32 \<Rightarrow> (nat \<Rightarrow> f32 \<Rightarrow> f32 \<Rightarrow> coefficients option) \<Rightarrow> nat \<Rightarrow> vocoder_config
    \<Rightarrow> app_config_error + coefficients list" where
  "bandpass_coefficients m from_params sample_rate cfg =
     bandpass_loop m from_params sample_rate cfg [0..<BAND_COUNT]"

section \<open>The analyser of one channel\<close>

record 'f biquad_ops =
  bq_new :: "coefficients \<Rightarrow> 'f"
  bq_run :: "'f \<Rightarrow> f32 \<Rightarrow> 'f \<times> f32"
  bq_reset_state :: "'f \<Rightarrow> 'f"

record 'f vocoder =
  va_filters :: "'f list"
  va_envelopes :: "envelope_follower list"
  va_bins :: "f32 list"
  va_attack_coeff :: f32
  va_release_coeff :: f32

text \<open>\<^verbatim>\<open>VocoderAnalyser::new\<close>: None is the panic of \<^verbatim>\<open>expect\<close> on rejected coefficients.\<close>

definition vocoder_new ::
  "'f biquad_ops \<Rightarrow> libm_f32 \<Rightarrow> (nat \<Rightarrow> f32 \<Rightarrow> f32 \<Rightarrow> coefficients option) \<Rightarrow> (f64 \<Rightarrow> f64)
    \<Rightarrow> nat \<Rightarrow> vocoder_config \<Rightarrow> 'f vocoder option" where
  "vocoder_new B m from_params exp_m1 sample_rate cfg =
     (case bandpass_coefficients m from_params sample_rate cfg of
        Inl e \<Rightarrow> None
      | Inr coeffs \<Rightarrow> let sr = Hertz (f32_of_nat sample_rate) in
          Some \<lparr>va_filters = map (bq_new B) coeffs,
            va_envelopes = replicate BAND_COUNT envelope_follower_new,
            va_bins = replicate BAND_COUNT 0,
            va_attack_coeff = envelope_coeff exp_m1 (vc_attack_ms cfg) sr,
            va_release_coeff = envelope_coeff exp_m1 (vc_release_ms cfg) sr\<rparr>)"

text \<open>
  The body of the loop over the bands, for band \<open>i\<close>: run the filter, then the follower on the
  rectified output; a non-finite result of either clears the band.
\<close>

definition clear_band :: "'f biquad_ops \<Rightarrow> 'f \<Rightarrow> 'f vocoder \<Rightarrow> nat \<Rightarrow> 'f vocoder" where
  "clear_band B flt v i = v
     \<lparr>va_filters := (va_filters v)[i := bq_reset_state B flt],
      va_envelopes := (va_envelopes v)[i := follower_reset (va_envelopes v ! i)],
      va_bins := (va_bins v)[i := 0]\<rparr>"

definition band_step :: "'f biquad_ops \<Rightarrow> bool \<Rightarrow> f32 \<Rightarrow> 'f vocoder \<Rightarrow> nat \<Rightarrow> 'f vocoder" where
  "band_step B z sample v i =
     (case bq_run B (va_filters v ! i) sample of (flt, filtered) \<Rightarrow>
       if \<not> f32_is_finite filtered then clear_band B flt v i
       else case process_sample z (va_envelopes v ! i) (f32_abs filtered)
              (va_attack_coeff v) (va_release_coeff v) of (env, bin) \<Rightarrow>
         let v' = v\<lparr>va_filters := (va_filters v)[i := flt],
                va_envelopes := (va_envelopes v)[i := env], va_bins := (va_bins v)[i := bin]\<rparr>
         in if \<not> f32_is_finite bin then clear_band B flt v' i else v')"

definition sample_step :: "'f biquad_ops \<Rightarrow> bool \<Rightarrow> 'f vocoder \<Rightarrow> f32 \<Rightarrow> 'f vocoder" where
  "sample_step B z v sample =
     (if \<not> f32_is_finite sample then v
      else foldl (band_step B z sample) v [0..<length (va_filters v)])"

definition process_interleaved ::
  "'f biquad_ops \<Rightarrow> bool \<Rightarrow> 'f vocoder \<Rightarrow> f32 list \<Rightarrow> nat \<Rightarrow> nat \<Rightarrow> 'f vocoder option" where
  "process_interleaved B z v buffer channel total_channels =
     strided_loop (sample_step B z) buffer channel total_channels v"

definition current_bins :: "'f vocoder \<Rightarrow> f32 list" where
  "current_bins v = va_bins v"

definition vocoder_reset :: "'f biquad_ops \<Rightarrow> 'f vocoder \<Rightarrow> 'f vocoder" where
  "vocoder_reset B v = v\<lparr>va_filters := map (bq_reset_state B) (va_filters v),
     va_envelopes := map follower_reset (va_envelopes v),
     va_bins := replicate (length (va_bins v)) 0\<rparr>"

section \<open>Bounds of the follower\<close>

text \<open>
  A level is a finite number that is not below zero, and a coefficient lies between zero and one;
  both in the order of codes, which is the order of values.
\<close>

definition is_level :: "f32 \<Rightarrow> bool" where
  "is_level w \<longleftrightarrow> f32_is_finite w \<and> f32_le 0 w"

definition is_unit_coeff :: "f32 \<Rightarrow> bool" where
  "is_unit_coeff w \<longleftrightarrow> f32_le 0 w \<and> f32_le w (f32_lit 1 1)"

lemma f32_unpack_zero [simp]: "f32_unpack 0 = (False, 0)"
  by (simp add: f32_unpack_def)

lemma f32_one [simp]: "f32_unpack (f32_lit 1 1) = (False, 0x3F800000)"
  by (simp add: float_eval)

lemma mag_val_zero [simp]: "mag_val F 0 = 0"
  by (simp add: mag_val_def)

lemma round_mag_zero [simp]: "round_mag F 0 d = 0"
  by (simp add: round_mag_def rhe_def Let_def)

lemma mag_val_one: "mag_val F32 0x3F800000 = 2 ^ 149"
  by (simp add: mag_val_def Let_def)

lemma is_level_zero [simp]: "is_level 0"
  by (simp add: is_level_def f32_is_finite_def f32_le_def fl_le_def fl_is_finite_def
      fl_is_nan_def fl_key_def)

lemma is_level_unpack:
  "is_level w \<longleftrightarrow> snd (f32_unpack w) < inf_code F32 \<and> (fst (f32_unpack w) \<longrightarrow> snd (f32_unpack w) = 0)"
  by (auto simp: is_level_def f32_is_finite_def f32_le_def fl_le_def fl_is_finite_def
      fl_is_nan_def fl_key_def)

text \<open>
  The heart of the bound, on unpacked numbers: moving a level by a rounded fraction of its rounded
  distance to another level cannot take it below zero. Rising, both terms of the final sum are
  non-negative. Falling, the distance rounds to at most the level itself, because the level is
  representable, and scaling by at most one cannot round above it either.
\<close>

definition fl_level :: "fl \<Rightarrow> bool" where
  "fl_level x \<longleftrightarrow> snd x < inf_code F32 \<and> (fst x \<longrightarrow> snd x = 0)"

definition fl_unit :: "fl \<Rightarrow> bool" where
  "fl_unit x \<longleftrightarrow> snd x \<le> 0x3F800000 \<and> (fst x \<longrightarrow> snd x = 0)"

lemma fl_level_int: "fl_level x \<Longrightarrow> fl_int F32 x = int (mag_val F32 (snd x))"
  by (auto simp: fl_level_def fl_int_def)

lemma fl_flush_level: "fl_level x \<Longrightarrow> fl_level (fl_flush F32 z x)"
  by (auto simp: fl_level_def fl_flush_def)

lemma fl_flush_unit: "fl_unit x \<Longrightarrow> fl_unit (fl_flush F32 z x)"
  by (auto simp: fl_unit_def fl_flush_def)

lemma fl_flush_snd_le: "snd (fl_flush F z x) \<le> snd x"
  by (simp add: fl_flush_def)

lemma fl_flush_fst [simp]: "fst (fl_flush F z x) = fst x"
  by (simp add: fl_flush_def)

lemma scaled_le:
  assumes "c \<le> 0x3F800000" "d \<le> inf_code F32"
  shows "round_mag F32 (mag_val F32 c * mag_val F32 d) (2 ^ 149) \<le> d"
proof -
  have "mag_val F32 c \<le> 2 ^ 149" using mag_val_mono [OF assms(1), of F32] by (simp add: mag_val_one)
  then have "mag_val F32 c * mag_val F32 d \<le> mag_val F32 d * 2 ^ 149"
    by (metis mult.commute mult_le_mono1)
  then show ?thesis using assms(2) by (intro round_mag_upper) auto
qed

lemma falling_step:
  fixes z :: bool and v r c :: fl
  assumes "fl_level v" "fl_level r" "fl_unit c" "mag_val F32 (snd r) \<le> mag_val F32 (snd v)"
  defines "d \<equiv> fl_flush F32 z (fl_sub F32 r v)"
  defines "p \<equiv> fl_flush F32 z (fl_mul F32 c d)"
  shows "snd p \<le> snd v" "\<not> fst p \<Longrightarrow> snd p = 0"
proof -
  have fin: "snd v < inf_code F32" "snd r < inf_code F32" using assms by (auto simp: fl_level_def)
  let ?k = "int (mag_val F32 (snd r)) - int (mag_val F32 (snd v))"
  have sub: "fl_sub F32 r v = fl_round F32 (fst r \<and> \<not> fst v) ?k 1"
  proof -
    have "fl_int F32 (fl_neg v) = - fl_int F32 v" by (simp add: fl_int_def fl_neg_def)
    then show ?thesis using fin assms(1,2)
      by (simp add: fl_sub_def fl_add_def fl_is_nan_def fl_is_inf_def fl_neg_def fl_level_int)
  qed
  have suble: "snd (fl_sub F32 r v) \<le> snd v"
    unfolding sub fl_round_def using fin assms(4) by (auto intro!: round_mag_upper)
  have dle: "snd d \<le> snd v"
    using le_trans [OF fl_flush_snd_le suble] by (simp only: d_def)
  then have dfin: "snd d < inf_code F32" using fin by simp
  have cfin: "snd c < inf_code F32" using assms(3) by (auto simp: fl_unit_def)
  have mul: "fl_mul F32 c d = (fst c \<noteq> fst d,
      round_mag F32 (mag_val F32 (snd c) * mag_val F32 (snd d)) (2 ^ 149))"
    using cfin dfin by (simp add: fl_mul_def Let_def fl_is_nan_def fl_is_inf_def)
  have cle: "snd c \<le> 0x3F800000" using assms(3) by (simp add: fl_unit_def)
  have dle_inf: "snd d \<le> inf_code F32" using dfin by (rule less_imp_le)
  have mulle: "snd (fl_mul F32 c d) \<le> snd d"
    using scaled_le [OF cle dle_inf] by (simp only: mul snd_conv)
  show "snd p \<le> snd v"
    using le_trans [OF fl_flush_snd_le le_trans [OF mulle dle]] by (simp only: p_def)
  assume np: "\<not> fst p"
  show "snd p = 0"
  proof (cases "fst c \<or> snd d = 0")
    case True
    then have zero: "mag_val F32 (snd c) * mag_val F32 (snd d) = 0"
      using assms(3) by (auto simp: fl_unit_def)
    have "snd (fl_mul F32 c d) = 0"
      unfolding mul snd_conv zero by (rule round_mag_zero)
    then show ?thesis unfolding p_def by (simp add: fl_flush_def)
  next
    case False
    then have "\<not> fst d" using np by (simp add: p_def mul)
    then have "\<not> fst (fl_sub F32 r v)" by (simp add: d_def)
    then have "?k = 0" unfolding sub fl_round_def using assms(4) by auto
    then have "snd (fl_sub F32 r v) = 0"
      unfolding sub by (simp add: fl_round_def)
    then have "snd d = 0" by (simp add: d_def fl_flush_def)
    with False show ?thesis by simp
  qed
qed

lemma level_add_nonneg:
  assumes "fl_level v" "fl_is_finite F32 p" "snd p \<le> snd v \<or> \<not> fst p"
  shows "fst (fl_add F32 v p) \<longrightarrow> snd (fl_add F32 v p) = 0"
proof -
  have fin: "snd v < inf_code F32" "snd p < inf_code F32"
    using assms by (auto simp: fl_level_def fl_is_finite_def)
  have add: "fl_add F32 v p = fl_round F32 (fst v \<and> fst p) (fl_int F32 v + fl_int F32 p) 1"
    using fin by (simp add: fl_add_def fl_is_nan_def fl_is_inf_def)
  have "0 \<le> fl_int F32 v + fl_int F32 p"
    using assms(3) assms(1) [unfolded fl_level_def] mag_val_mono [of "snd p" "snd v" F32]
    by (auto simp: fl_level_int [OF assms(1)] fl_int_def)
  then show ?thesis unfolding add
    by (auto simp: fl_round_def round_mag_def rhe_def Let_def)
qed


lemma fl_flush_flush [simp]: "fl_flush F32 z (fl_flush F32 z x) = fl_flush F32 z x"
  by (auto simp: fl_flush_def)

lemma fl_flush_bound [simp]: "snd x < 0x80000000 \<Longrightarrow> snd (fl_flush F32 z x) < 0x80000000"
  by (simp add: fl_flush_def)

lemma f32_unpack_bounded [simp]: "snd (f32_unpack w) < 0x80000000"
  by (rule f32_unpack_bound)

lemma rising_step:
  fixes z :: bool and v r c :: fl
  assumes "fl_level v" "fl_level r" "fl_unit c" "mag_val F32 (snd v) \<le> mag_val F32 (snd r)"
    "\<not> (fst r \<and> \<not> fst v)"
  defines "d \<equiv> fl_flush F32 z (fl_sub F32 r v)"
  defines "p \<equiv> fl_flush F32 z (fl_mul F32 c d)"
  assumes "fl_is_finite F32 p"
  shows "fst p \<Longrightarrow> snd p = 0"
proof -
  have fin: "snd v < inf_code F32" "snd r < inf_code F32" using assms by (auto simp: fl_level_def)
  let ?k = "int (mag_val F32 (snd r)) - int (mag_val F32 (snd v))"
  have "fl_int F32 (fl_neg v) = - fl_int F32 v" by (simp add: fl_int_def fl_neg_def)
  then have "fl_sub F32 r v = fl_round F32 (fst r \<and> \<not> fst v) ?k 1" using fin assms(1,2)
    by (simp add: fl_sub_def fl_add_def fl_is_nan_def fl_is_inf_def fl_neg_def fl_level_int)
  then have "\<not> fst (fl_sub F32 r v)" using assms(4,5) by (simp add: fl_round_def)
  then have dpos: "\<not> fst d" by (simp add: d_def)
  assume np: "fst p"
  have c0: "fst c \<Longrightarrow> snd c = 0" using assms(3) by (simp add: fl_unit_def)
  show "snd p = 0"
  proof (cases "fl_is_nan F32 c \<or> fl_is_nan F32 d")
    case True
    then show ?thesis using assms(8)
      by (auto simp: p_def fl_mul_def fl_nan_def fl_flush_def fl_is_finite_def Let_def)
  next
    case False
    have "fst c"
    proof (rule ccontr)
      assume "\<not> fst c"
      with dpos have "\<not> fst (fl_mul F32 c d)" by (simp add: fl_mul_def fl_nan_def Let_def)
      with np show False by (simp add: p_def)
    qed
    then have "snd c = 0" by (rule c0)
    with False np dpos show ?thesis
      by (auto simp: p_def fl_mul_def fl_flush_def fl_nan_def round_mag_def rhe_def Let_def)
  qed
qed

lemma follower_on_fl:
  fixes z :: bool and v r c :: fl
  assumes lv: "fl_level v" and lr: "fl_level r" and uc: "fl_unit c"
  defines "p \<equiv> fl_flush F32 z (fl_mul F32 c (fl_flush F32 z (fl_sub F32 r v)))"
  assumes fin: "fl_is_finite F32 (fl_add F32 v p)"
  shows "fl_level (fl_flush F32 z (fl_add F32 v p))"
proof -
  have finp: "fl_is_finite F32 p"
  proof (rule ccontr)
    assume "\<not> fl_is_finite F32 p"
    then have "fl_is_nan F32 p \<or> fl_is_inf F32 p"
      by (auto simp: fl_is_finite_def fl_is_nan_def fl_is_inf_def)
    moreover have "snd v < inf_code F32" using lv by (simp add: fl_level_def)
    ultimately show False using fin
      by (auto simp: fl_add_def fl_is_finite_def fl_is_nan_def fl_is_inf_def fl_nan_def)
  qed
  have key: "snd p \<le> snd v \<or> \<not> fst p"
  proof (cases "snd r \<le> snd v")
    case True
    then have "mag_val F32 (snd r) \<le> mag_val F32 (snd v)" by (rule mag_val_mono)
    then show ?thesis using falling_step(1) [OF lv lr uc, of z] unfolding p_def by blast
  next
    case False
    then have "\<not> (fst r \<and> \<not> fst v)" "mag_val F32 (snd v) \<le> mag_val F32 (snd r)"
      using lr by (auto simp: fl_level_def intro: mag_val_mono)
    then show ?thesis
      using rising_step [OF lv lr uc, of z] finp unfolding p_def by fastforce
  qed
  have "fst (fl_add F32 v p) \<longrightarrow> snd (fl_add F32 v p) = 0"
    by (rule level_add_nonneg [OF lv finp key])
  with fin have "fl_level (fl_add F32 v p)" by (simp add: fl_level_def fl_is_finite_def)
  then show ?thesis by (rule fl_flush_level)
qed

lemma is_level_fl: "is_level w \<longleftrightarrow> fl_level (f32_unpack w)"
  by (simp add: is_level_unpack fl_level_def)

lemma is_unit_coeff_fl: "is_unit_coeff w \<Longrightarrow> fl_unit (f32_unpack w)"
  by (cases "fst (f32_unpack w)")
    (auto simp: is_unit_coeff_def f32_le_def fl_le_def fl_is_nan_def fl_key_def fl_unit_def
      simp del: One_nat_def)

lemma f32_arith_unpack:
  assumes "\<And>x y. snd x < 0x80000000 \<Longrightarrow> snd y < 0x80000000 \<Longrightarrow> snd (f x y) < 0x80000000"
  shows "f32_unpack (f32_arith z f a b) =
    fl_flush F32 z (f (fl_flush F32 z (f32_unpack a)) (fl_flush F32 z (f32_unpack b)))"
  unfolding f32_arith_def by (intro f32_unpack_pack fl_flush_bound assms) simp_all

lemmas f32_arith_unpacks =
  f32_arith_unpack [of "fl_add F32", OF F32_result_bound(1)]
  f32_arith_unpack [of "fl_sub F32", OF F32_result_bound(2)]
  f32_arith_unpack [of "fl_mul F32", OF F32_result_bound(3)]

lemma process_sample_level:
  assumes "is_level (ef_value e)" "is_level r" "is_unit_coeff a" "is_unit_coeff b"
    and "process_sample z e r a b = (e', x)" "f32_is_finite x"
  shows "is_level x" "ef_value e' = x"
proof -
  define c where "c = (if f32_gt_z z r (ef_value e) then a else b)"
  have uc: "fl_unit (fl_flush F32 z (f32_unpack c))"
    unfolding c_def by (simp add: fl_flush_unit is_unit_coeff_fl assms)
  have lv: "fl_level (fl_flush F32 z (f32_unpack (ef_value e)))"
    and lr: "fl_level (fl_flush F32 z (f32_unpack r))"
    using assms(1,2) by (simp_all add: is_level_fl fl_flush_level)
  have x: "x = f32_arith z (fl_add F32) (ef_value e)
      (f32_arith z (fl_mul F32) c (f32_arith z (fl_sub F32) r (ef_value e)))"
    using assms(5) by (simp add: process_sample_def Let_def c_def)
  let ?p = "fl_flush F32 z (fl_mul F32 (fl_flush F32 z (f32_unpack c))
      (fl_flush F32 z (fl_sub F32 (fl_flush F32 z (f32_unpack r))
        (fl_flush F32 z (f32_unpack (ef_value e))))))"
  let ?s = "fl_add F32 (fl_flush F32 z (f32_unpack (ef_value e))) ?p"
  have ux: "f32_unpack x = fl_flush F32 z ?s"
    by (simp add: x f32_arith_unpacks)
  have "fl_is_finite F32 ?s"
    using assms(6) by (auto simp: f32_is_finite_def ux fl_is_finite_def fl_flush_def split: if_splits)
  from follower_on_fl [OF lv lr uc this] show "is_level x" by (simp add: is_level_fl ux)
  show "ef_value e' = x" using assms(5) by (auto simp: process_sample_def Let_def)
qed

section \<open>One band on its own\<close>

text \<open>
  The abstract view of the bank: 32 independent cells, each a filter, a follower and the last bin.
  \<open>band_next\<close> is what one sample does to one cell.
\<close>

type_synonym 'f band = "'f \<times> envelope_follower \<times> f32"

definition band_view :: "'f vocoder \<Rightarrow> nat \<Rightarrow> 'f band" where
  "band_view v i = (va_filters v ! i, va_envelopes v ! i, va_bins v ! i)"

definition band_next :: "'f biquad_ops \<Rightarrow> bool \<Rightarrow> f32 \<Rightarrow> f32 \<Rightarrow> 'f band \<Rightarrow> f32 \<Rightarrow> 'f band" where
  "band_next B z attack release b sample =
     (if \<not> f32_is_finite sample then b else
      case b of (flt, env, bin) \<Rightarrow> case bq_run B flt sample of (flt', filtered) \<Rightarrow>
        if \<not> f32_is_finite filtered then (bq_reset_state B flt', follower_reset env, 0)
        else case process_sample z env (f32_abs filtered) attack release of (env', x) \<Rightarrow>
          if \<not> f32_is_finite x then (bq_reset_state B flt', follower_reset env', 0)
          else (flt', env', x))"

definition voc_sized :: "nat \<Rightarrow> 'f vocoder \<Rightarrow> bool" where
  "voc_sized n v \<longleftrightarrow> length (va_filters v) = n \<and> length (va_envelopes v) = n \<and> length (va_bins v) = n"

lemma band_step_coeffs [simp]:
  "va_attack_coeff (band_step B z s v i) = va_attack_coeff v"
  "va_release_coeff (band_step B z s v i) = va_release_coeff v"
  by (auto simp: band_step_def clear_band_def Let_def split: prod.splits)

lemma band_step_sized [simp]: "voc_sized n (band_step B z s v i) = voc_sized n v"
  by (auto simp: band_step_def clear_band_def Let_def voc_sized_def split: prod.splits)

lemma band_step_view:
  assumes "voc_sized n v" "i < n" "j < n" "f32_is_finite s"
  shows "band_view (band_step B z s v i) j =
    (if j = i then band_next B z (va_attack_coeff v) (va_release_coeff v) (band_view v i) s
     else band_view v j)"
  using assms
  by (auto simp: band_step_def clear_band_def band_next_def band_view_def Let_def voc_sized_def
      split: prod.splits)

lemma bands_fold:
  fixes z :: bool and B :: "'f biquad_ops" and v :: "'f vocoder"
  assumes "voc_sized n v" "k \<le> n" "f32_is_finite s"
  defines "v' \<equiv> foldl (band_step B z s) v [0..<k]"
  shows "voc_sized n v' \<and> va_attack_coeff v' = va_attack_coeff v \<and>
    va_release_coeff v' = va_release_coeff v \<and>
    (\<forall>j < n. band_view v' j =
      (if j < k then band_next B z (va_attack_coeff v) (va_release_coeff v) (band_view v j) s
       else band_view v j))"
  using assms(2) unfolding v'_def
proof (induction k)
  case 0
  then show ?case using assms by simp
next
  case (Suc k)
  let ?u = "foldl (band_step B z s) v [0..<k]"
  from Suc have IH: "voc_sized n ?u" "va_attack_coeff ?u = va_attack_coeff v"
    "va_release_coeff ?u = va_release_coeff v"
    "\<forall>j < n. band_view ?u j =
      (if j < k then band_next B z (va_attack_coeff v) (va_release_coeff v) (band_view v j) s
       else band_view v j)" by simp_all
  with Suc.prems assms(3) show ?case
    by (auto simp: band_step_view [of n ?u k _ s B z] less_Suc_eq)
qed

lemma sample_step_view:
  assumes "voc_sized n v" "j < n"
  shows "band_view (sample_step B z v s) j =
      band_next B z (va_attack_coeff v) (va_release_coeff v) (band_view v j) s"
    and "voc_sized n (sample_step B z v s)"
    and "va_attack_coeff (sample_step B z v s) = va_attack_coeff v"
    and "va_release_coeff (sample_step B z v s) = va_release_coeff v"
proof -
  have "length (va_filters v) = n" using assms by (simp add: voc_sized_def)
  with bands_fold [OF assms(1) order_refl, of s B z] assms
  show "band_view (sample_step B z v s) j =
      band_next B z (va_attack_coeff v) (va_release_coeff v) (band_view v j) s"
    "voc_sized n (sample_step B z v s)"
    "va_attack_coeff (sample_step B z v s) = va_attack_coeff v"
    "va_release_coeff (sample_step B z v s) = va_release_coeff v"
    by (auto simp: sample_step_def band_next_def)
qed

lemma samples_fold_view:
  assumes "voc_sized n v" "j < n"
  shows "band_view (foldl (sample_step B z) v ss) j =
      foldl (band_next B z (va_attack_coeff v) (va_release_coeff v)) (band_view v j) ss \<and>
    voc_sized n (foldl (sample_step B z) v ss)"
  using assms(1)
proof (induction ss arbitrary: v)
  case (Cons s ss)
  from sample_step_view [OF Cons.prems assms(2), of B z s] Cons.IH [of "sample_step B z v s"]
  show ?case by simp
qed simp

text \<open>
  Claim C11. Refinement of the filter bank: on whole frames of \<open>n\<close> interleaved channels, processing
  channel \<open>ch\<close> returns, and it acts on each of the bands as 32 independent cells would that read
  only that channel's samples in frame order. No band sees another band, no channel another channel,
  and a non-finite sample or filter result disturbs at most the band it occurs in.
\<close>

theorem process_interleaved_bands:
  assumes "voc_sized BAND_COUNT v" "ch < n" "\<forall>fr \<in> set frames. length fr = n" "j < BAND_COUNT"
  shows "\<exists>v'. process_interleaved B z v (concat frames) ch n = Some v' \<and>
    band_view v' j = foldl (band_next B z (va_attack_coeff v) (va_release_coeff v))
      (band_view v j) (map (\<lambda>fr. fr ! ch) frames)"
proof -
  have "process_interleaved B z v (concat frames) ch n =
      Some (foldl (sample_step B z) v (map (\<lambda>fr. fr ! ch) frames))"
    using assms(2,3) by (simp add: process_interleaved_def strided_loop_foldl strided_frames)
  with samples_fold_view [OF assms(1,4)] show ?thesis by auto
qed

text \<open>A bank of filters that pass the sample through, with both coefficients one half.\<close>

definition pass_ops :: "unit biquad_ops" where
  "pass_ops = \<lparr>bq_new = (\<lambda>_. ()), bq_run = (\<lambda>f s. (f, s)), bq_reset_state = (\<lambda>f. f)\<rparr>"

definition demo_bank :: "unit vocoder" where
  "demo_bank = \<lparr>va_filters = replicate BAND_COUNT (), va_envelopes = replicate BAND_COUNT envelope_follower_new,
     va_bins = replicate BAND_COUNT 0, va_attack_coeff = 0x3F000000, va_release_coeff = 0x3F000000\<rparr>"

theorem process_interleaved_bands_witness:
  "\<exists>v'. process_interleaved pass_ops False demo_bank (concat [[0x3F800000, 0], [0x40000000, 0]]) 0 2
     = Some v' \<and> band_view v' 5 = foldl (band_next pass_ops False 0x3F000000 0x3F000000)
       ((), envelope_follower_new, 0) [0x3F800000, 0x40000000]"
  using process_interleaved_bands
    [of demo_bank 0 2 "[[0x3F800000, 0], [0x40000000, 0]]" 5 pass_ops False]
  by (simp add: voc_sized_def demo_bank_def band_view_def BAND_COUNT_def)

section \<open>Levels stay levels\<close>

definition voc_inv :: "'f vocoder \<Rightarrow> bool" where
  "voc_inv v \<longleftrightarrow> voc_sized BAND_COUNT v \<and> is_unit_coeff (va_attack_coeff v) \<and>
     is_unit_coeff (va_release_coeff v) \<and>
     (\<forall>j < BAND_COUNT. is_level (va_bins v ! j) \<and> is_level (ef_value (va_envelopes v ! j)))"

definition voc_fresh :: "'f vocoder \<Rightarrow> bool" where
  "voc_fresh v \<longleftrightarrow> voc_sized BAND_COUNT v \<and> is_unit_coeff (va_attack_coeff v) \<and>
     is_unit_coeff (va_release_coeff v) \<and> va_bins v = replicate BAND_COUNT 0 \<and>
     va_envelopes v = replicate BAND_COUNT envelope_follower_new"

inductive voc_step :: "'f biquad_ops \<Rightarrow> bool \<Rightarrow> 'f vocoder \<Rightarrow> 'f vocoder \<Rightarrow> bool"
  for B :: "'f biquad_ops" and z :: bool where
  "voc_step B z v (sample_step B z v s)"

lemma is_level_abs: "f32_is_finite x \<Longrightarrow> is_level (f32_abs x)"
  by (simp add: is_level_fl fl_level_def f32_abs_def fl_abs_def f32_is_finite_def fl_is_finite_def)

lemma band_next_level:
  assumes "is_unit_coeff a" "is_unit_coeff r" "is_level (ef_value env)" "is_level bin"
    and "band_next B z a r (flt, env, bin) s = (flt', env', bin')"
  shows "is_level (ef_value env') \<and> is_level bin'"
proof (cases "f32_is_finite s")
  case False
  then show ?thesis using assms by (simp add: band_next_def)
next
  case True
  obtain f1 y where run: "bq_run B flt s = (f1, y)" by (cases "bq_run B flt s")
  obtain e1 x where ps: "process_sample z env (f32_abs y) a r = (e1, x)"
    by (cases "process_sample z env (f32_abs y) a r")
  from assms(5) True run ps
  consider "env' = env\<lparr>ef_value := 0\<rparr>" "bin' = 0"
    | "env' = e1\<lparr>ef_value := 0\<rparr>" "bin' = 0"
    | "env' = e1" "bin' = x" "f32_is_finite y" "f32_is_finite x"
    by (auto simp: band_next_def follower_reset_def split: if_splits)
  then show ?thesis
  proof cases
    case 3
    with process_sample_level [OF assms(3) is_level_abs assms(1,2) ps] show ?thesis by simp
  qed simp_all
qed

lemma sample_step_inv:
  assumes "voc_inv v"
  shows "voc_inv (sample_step B z v s)"
proof -
  have sized: "voc_sized BAND_COUNT v" using assms by (simp add: voc_inv_def)
  have lev: "is_level (va_bins (sample_step B z v s) ! j) \<and>
      is_level (ef_value (va_envelopes (sample_step B z v s) ! j))" if j: "j < BAND_COUNT" for j
  proof -
    have "is_unit_coeff (va_attack_coeff v)" "is_unit_coeff (va_release_coeff v)"
      "is_level (ef_value (va_envelopes v ! j))" "is_level (va_bins v ! j)"
      using assms j by (auto simp: voc_inv_def)
    from band_next_level [OF this sample_step_view(1) [OF sized j, symmetric, unfolded band_view_def]]
    show ?thesis by blast
  qed
  have "(0::nat) < BAND_COUNT" by (simp add: BAND_COUNT_def)
  with sample_step_view(2-4) [OF sized this, of B z s] lev assms show ?thesis
    by (simp add: voc_inv_def)
qed

interpretation voc: transition_system voc_fresh "voc_step B z" voc_inv for B z
proof unfold_locales
  show "voc_inv v" if "voc_fresh v" for v :: "'a vocoder"
    using that by (auto simp: voc_fresh_def voc_inv_def envelope_follower_new_def)
  show "voc_inv t" if "voc_inv s" "voc_step B z s t" for s t
    using that(2,1) by (cases rule: voc_step.cases) (simp add: sample_step_inv)
qed

lemma samples_steps: "(voc_step B z)\<^sup>*\<^sup>* v (foldl (sample_step B z) v ss)"
proof (induction ss arbitrary: v)
  case (Cons s ss)
  have "voc_step B z v (sample_step B z v s)" by (rule voc_step.intros)
  with Cons.IH show ?case by (simp add: converse_rtranclp_into_rtranclp)
qed simp

section \<open>Coefficients of the followers\<close>

text \<open>
  The documented behaviour of \<^verbatim>\<open>exp_m1\<close> the bank relies on: for a number with the sign bit set,
  minus infinity and minus zero included, the result lies between minus one and minus zero.
\<close>

definition exp_m1_law :: "(f64 \<Rightarrow> f64) \<Rightarrow> bool" where
  "exp_m1_law exp_m1 \<longleftrightarrow> (\<forall>x. fst (f64_unpack x) \<and> \<not> fl_is_nan F64 (f64_unpack x) \<longrightarrow>
     fst (f64_unpack (exp_m1 x)) \<and> snd (f64_unpack (exp_m1 x)) \<le> 0x3FF0000000000000)"

lemma f64_unpack_bounded [simp]: "snd (f64_unpack w) < 0x8000000000000000"
  by (simp add: f64_unpack_def)

lemma mag_val_one64: "mag_val F64 0x3FF0000000000000 = 2 ^ 1074"
  by (simp add: mag_val_def Let_def)

lemma one_f64_to_f32:
  assumes "c \<le> 0x3FF0000000000000"
  shows "round_mag F32 (mag_val F64 c) (2 ^ 925) \<le> 0x3F800000"
proof -
  have "mag_val F64 c \<le> 2 ^ 1074" using mag_val_mono [OF assms, of F64] by (simp only: mag_val_one64)
  also have "(2::nat) ^ 1074 = mag_val F32 0x3F800000 * 2 ^ 925"
    by (simp only: mag_val_one power_add [symmetric]) simp
  finally show ?thesis by (intro round_mag_upper) simp_all
qed

lemma f32_of_f64_unit:
  assumes "\<not> fst (f64_unpack w)" "snd (f64_unpack w) \<le> 0x3FF0000000000000"
  shows "is_unit_coeff (f32_of_f64 w)"
proof -
  let ?c = "snd (f64_unpack w)"
  let ?r = "round_mag F32 (mag_val F64 ?c) (2 ^ 925)"
  have conv: "fl_convert F64 F32 (f64_unpack w) = (False, ?r)"
    using assms by (simp add: fl_convert_def fl_is_nan_def fl_is_inf_def)
  have le: "?r \<le> 0x3F800000" by (rule one_f64_to_f32 [OF assms(2)])
  then have "snd (False, ?r) < 0x80000000" by simp
  then have "f32_unpack (f32_of_f64 w) = (False, ?r)"
    unfolding f32_of_f64_def conv by (rule f32_unpack_pack)
  moreover have "f32_unpack (f32_lit 1 1) = (False, 0x3F800000)" by (rule f32_one)
  ultimately show ?thesis using le
    by (simp add: is_unit_coeff_def f32_le_def fl_le_def fl_is_nan_def fl_key_def del: One_nat_def)
qed

lemma f64_of_f32_finite:
  assumes "\<not> fst (f32_unpack w)" "f32_is_finite w"
  shows "\<exists>c. f64_unpack (f64_of_f32 w) = (False, c) \<and> c < inf_code F64"
proof -
  let ?m = "snd (f32_unpack w)"
  let ?r = "round_mag F64 (mag_val F32 ?m * 2 ^ 925) 1"
  have fin: "?m < inf_code F32" using assms(2) by (simp add: f32_is_finite_def fl_is_finite_def)
  have conv: "fl_convert F32 F64 (f32_unpack w) = (False, ?r)"
    using assms(1) fin by (simp add: fl_convert_def fl_is_nan_def fl_is_inf_def)
  have "mag_val F32 ?m \<le> mag_val F32 0x7F800000" using fin by (intro mag_val_mono) simp
  then have "mag_val F32 ?m * 2 ^ 925 \<le> mag_val F32 0x7F800000 * 2 ^ 925" by (rule mult_le_mono1)
  also have "mag_val F32 0x7F800000 * 2 ^ 925 = mag_val F64 0x47F0000000000000 * 1"
    by (simp add: mag_val_def Let_def)
  finally have "?r \<le> 0x47F0000000000000" by (intro round_mag_upper) simp_all
  moreover have "f64_unpack (f64_of_f32 w) = (False, ?r)"
    unfolding f64_of_f32_def conv by (rule f64_unpack_pack) simp
  ultimately show ?thesis by simp
qed

lemma minus_1000: "f64_unpack (f64_pack (fl_neg (fl_lit F64 1000 1))) = (True, 0x408F400000000000)"
proof -
  have "fl_lit F64 1000 1 = (False, 0x408F400000000000)"
    by (simp add: fl_lit_def round_mag_def rhe_def Let_def)
  then show ?thesis by (simp add: fl_neg_def)
qed

lemma fl_div_minus_1000:
  assumes "snd y \<le> inf_code F64" "\<not> fst y"
  shows "fst (fl_div F64 (True, 0x408F400000000000) y) \<and>
    snd (fl_div F64 (True, 0x408F400000000000) y) \<le> inf_code F64"
  using assms round_mag_le_inf [of F64 "mag_val F64 0x408F400000000000 * 2 ^ unit_exp F64"
    "mag_val F64 (snd y)"]
  by (auto simp: fl_div_def Let_def fl_is_nan_def fl_is_inf_def simp del: F64_sel(2))

lemma envelope_coeff_unit:
  assumes "exp_m1_law exp_m1" "\<not> fst (f32_unpack (ms_value t))" "f32_is_finite (ms_value t)"
    "\<not> fst (f32_unpack (hz_value sr))" "f32_is_finite (hz_value sr)"
  shows "is_unit_coeff (envelope_coeff exp_m1 t sr)"
proof -
  obtain c1 where c1: "f64_unpack (f64_of_f32 (ms_value t)) = (False, c1)" "c1 < inf_code F64"
    using f64_of_f32_finite [OF assms(2,3)] by blast
  obtain c2 where c2: "f64_unpack (f64_of_f32 (hz_value sr)) = (False, c2)" "c2 < inf_code F64"
    using f64_of_f32_finite [OF assms(4,5)] by blast
  let ?p = "f64_mul (f64_of_f32 (ms_value t)) (f64_of_f32 (hz_value sr))"
  let ?m = "round_mag F64 (mag_val F64 c1 * mag_val F64 c2) (2 ^ unit_exp F64)"
  have "fl_mul F64 (False, c1) (False, c2) = (False, ?m)"
    using c1 c2 by (simp add: fl_mul_def Let_def fl_is_nan_def fl_is_inf_def)
  then have p: "f64_unpack ?p = (False, ?m)"
    unfolding f64_mul_def c1 c2 by (simp only: f64_unpack_pack snd_conv F64_round_bound)
  let ?q = "fl_div F64 (True, 0x408F400000000000) (False, ?m)"
  have q: "fst ?q \<and> snd ?q \<le> inf_code F64"
    by (rule fl_div_minus_1000) (simp_all only: snd_conv fst_conv round_mag_le_inf simp_thms)
  let ?x = "f64_div (f64_pack (fl_neg (fl_lit F64 1000 1))) ?p"
  have "snd ?q < 0x8000000000000000" using q by simp
  then have x: "f64_unpack ?x = ?q"
    unfolding f64_div_def minus_1000 p by (rule f64_unpack_pack)
  let ?e = "f64_unpack (exp_m1 ?x)"
  have e: "fst ?e \<and> snd ?e \<le> 0x3FF0000000000000"
    using assms(1) q unfolding exp_m1_law_def
    by (simp only: x fl_is_nan_def not_less)
  have n: "f64_unpack (f64_pack (fl_neg ?e)) = (False, snd ?e)"
    using e by (simp add: fl_neg_def)
  show ?thesis unfolding envelope_coeff_def Let_def
    by (rule f32_of_f64_unit) (simp_all only: n fst_conv snd_conv e simp_thms)
qed

section \<open>The published bins\<close>

text \<open>
  The calls the analyser makes, one chunk after the other on the same channel.
\<close>

fun process_chunks ::
  "'f biquad_ops \<Rightarrow> bool \<Rightarrow> nat \<Rightarrow> nat \<Rightarrow> 'f vocoder \<Rightarrow> f32 list list \<Rightarrow> 'f vocoder option" where
  "process_chunks B z ch n v [] = Some v"
| "process_chunks B z ch n v (c # cs) =
     Option.bind (process_interleaved B z v c ch n) (\<lambda>v'. process_chunks B z ch n v' cs)"

lemma process_chunks_steps:
  "0 < n \<Longrightarrow> \<exists>v'. process_chunks B z ch n v cs = Some v' \<and> (voc_step B z)\<^sup>*\<^sup>* v v'"
proof (induction cs arbitrary: v)
  case (Cons c cs)
  let ?u = "foldl (sample_step B z) v (strided c ch n)"
  have "process_interleaved B z v c ch n = Some ?u"
    using Cons.prems by (simp add: process_interleaved_def strided_loop_foldl)
  with Cons.IH [OF Cons.prems, of ?u] samples_steps [of B z v "strided c ch n"]
  show ?case by (auto intro: rtranclp_trans)
qed simp

lemma bandpass_loop_length:
  "bandpass_loop m fp sr cfg bands = Inr cs \<Longrightarrow> length cs = length bands"
  by (induction bands arbitrary: cs) (auto simp: Let_def and_then_Inr split: if_splits)

lemma vocoder_new_fresh:
  assumes "vocoder_new B m fp exp_m1 sr cfg = Some v" "exp_m1_law exp_m1"
    "is_level (ms_value (vc_attack_ms cfg))" "is_level (ms_value (vc_release_ms cfg))"
    "0 < fl_key (f32_unpack (ms_value (vc_attack_ms cfg)))"
    "0 < fl_key (f32_unpack (ms_value (vc_release_ms cfg)))"
    "f32_is_finite (f32_of_nat sr)" 
  shows "voc_fresh v"
proof -
  obtain cs where cs: "bandpass_coefficients m fp sr cfg = Inr cs"
    using assms(1) by (auto simp: vocoder_new_def split: sum.splits)
  have pos: "\<not> fst (f32_unpack w)" if "0 < fl_key (f32_unpack w)" for w
    using that by (auto simp: fl_key_def split: if_splits)
  have "f32_unpack (f32_of_nat sr) = fl_lit F32 sr 1"
    unfolding f32_of_nat_def f32_lit_def by (rule f32_unpack_pack) (simp add: fl_lit_def)
  then have srpos: "\<not> fst (f32_unpack (f32_of_nat sr))" by (simp add: fl_lit_def)
  have coeff: "is_unit_coeff (envelope_coeff exp_m1 t (Hertz (f32_of_nat sr)))"
    if "is_level (ms_value t)" "0 < fl_key (f32_unpack (ms_value t))" for t
    by (rule envelope_coeff_unit [OF assms(2)])
      (use that pos srpos assms(7) in \<open>simp_all add: is_level_def\<close>)
  have "length cs = BAND_COUNT"
    using cs bandpass_loop_length by (fastforce simp: bandpass_coefficients_def)
  with assms(1) cs coeff [OF assms(3,5)] coeff [OF assms(4,6)] show ?thesis
    by (auto simp: vocoder_new_def Let_def voc_fresh_def voc_sized_def)
qed

text \<open>
  Claim C4. Whatever the samples are, NaN and infinities included, whatever the filters return and
  whether subnormals are flushed or not: an analyser built from a valid configuration always
  finishes a chunk, and every bin it publishes is a finite number that is not negative.
\<close>

theorem bins_finite_nonnegative:
  assumes "exp_m1_law exp_m1" "vocoder_new B m fp exp_m1 sr cfg = Some v0" "sr < 2 ^ 32"
    "validate_vocoder_fields (ms_value (vc_attack_ms cfg)) (ms_value (vc_release_ms cfg))
      (hz_value (vc_freq_low cfg)) (hz_value (vc_freq_high cfg)) (vc_filter_q cfg) = Inr ()"
    "0 < n"
  shows "\<exists>v. process_chunks B z ch n v0 chunks = Some v \<and>
    length (current_bins v) = BAND_COUNT \<and> (\<forall>b \<in> set (current_bins v). is_level b)"
proof -
  have fin: "f32_is_finite (f32_of_nat sr)"
  proof -
    have "f32_unpack (f32_of_nat sr) = fl_lit F32 sr 1"
      unfolding f32_of_nat_def f32_lit_def by (rule f32_unpack_pack) (simp add: fl_lit_def)
    moreover have "round_mag F32 (sr * 2 ^ 149) 1 \<le> 0x4F800000"
      using assms(3) by (intro round_mag_upper) (simp_all add: mag_val_def Let_def)
    ultimately show ?thesis by (simp add: f32_is_finite_def fl_is_finite_def fl_lit_def)
  qed
  have "voc_fresh v0"
    using assms(4)
    by (intro vocoder_new_fresh [OF assms(2,1)] fin)
      (auto simp: validate_vocoder_fields_Inr is_strictly_positive_key is_level_def f32_le_def
        fl_le_def f32_is_finite_def fl_is_finite_def fl_is_nan_def fl_key_def)
  then have "voc_inv v0" by (rule voc.init_inv)
  moreover obtain v where v: "process_chunks B z ch n v0 chunks = Some v" "(voc_step B z)\<^sup>*\<^sup>* v0 v"
    using process_chunks_steps [OF assms(5)] by blast
  ultimately have inv: "voc_inv v" by (blast intro: voc.steps_inv)
  then have len: "length (current_bins v) = BAND_COUNT"
    by (simp add: voc_inv_def voc_sized_def current_bins_def)
  have "\<forall>b \<in> set (current_bins v). is_level b"
    using inv len by (auto simp: voc_inv_def in_set_conv_nth current_bins_def)
  with v len show ?thesis by blast
qed

text \<open>An instance: constant filters, a stubbed library, the built-in configuration.\<close>

definition silent_coefficients :: coefficients where
  "silent_coefficients = \<lparr>co_a1 = 0, co_a2 = 0, co_b0 = 0, co_b1 = 0, co_b2 = 0\<rparr>"

definition half_exp_m1 :: "f64 \<Rightarrow> f64" where
  "half_exp_m1 x = 0xBFE0000000000000"

definition id_libm :: libm_f32 where
  "id_libm = \<lparr>lm_ln = (\<lambda>x. x), lm_exp = (\<lambda>x. x)\<rparr>"

lemma unpack_one64: "f64_unpack 0x3FF0000000000000 = (False, 0x3FF0000000000000)"
  "f64_unpack 0 = (False, 0)"
  by (simp_all add: f64_unpack_def)

lemma one64: "f64_lit 1 1 = 0x3FF0000000000000"
  by (simp add: f64_lit_def fl_lit_def round_mag_def rhe_def Let_def f64_pack_def)

lemma add_zero64:
  "f64_add 0x3FF0000000000000 0 = 0x3FF0000000000000"
  "f64_sub 0x3FF0000000000000 0 = 0x3FF0000000000000"
  using round_mag_exact [of 1 "0x3FF0000000000000" F64]
  by (simp_all add: f64_add_def f64_sub_def fl_sub_def fl_add_def fl_neg_def fl_is_nan_def
      fl_is_inf_def fl_int_def fl_round_def unpack_one64 f64_pack_def mag_val_one64
      del: F64_sel(2))

lemma f64_of_f32_zero: "f64_of_f32 0 = 0"
  by (simp add: f64_of_f32_def fl_convert_def fl_is_nan_def fl_is_inf_def f64_pack_def)

lemma silent_stable: "coefficients_are_stable silent_coefficients"
  by (simp add: coefficients_are_stable_def silent_coefficients_def f64_of_f32_zero one64 add_zero64
      Let_def f32_is_finite_def fl_is_finite_def f64_lt_def fl_lt_def fl_is_nan_def fl_key_def
      unpack_one64 del: One_nat_def)

lemma silent_loop:
  "bandpass_loop m (\<lambda>_ _ _. Some silent_coefficients) sr cfg bands =
    Inr (map (\<lambda>_. silent_coefficients) bands)"
  by (induction bands) (simp_all add: silent_stable)

lemma half_exp_m1_law: "exp_m1_law half_exp_m1"
  by (simp add: exp_m1_law_def half_exp_m1_def f64_unpack_def)

theorem bins_finite_nonnegative_witness:
  "\<exists>v0 v. vocoder_new pass_ops id_libm (\<lambda>_ _ _. Some silent_coefficients) half_exp_m1 48000
       vocoder_config_default = Some v0 \<and>
     process_chunks pass_ops True 1 2 v0 [[0x3F800000, 0x7FC00000], [], [0xBF800000, 0x42F60000, 1]] = Some v \<and>
     list_all is_level (current_bins v)"
proof -
  obtain v0 where v0: "vocoder_new pass_ops id_libm (\<lambda>_ _ _. Some silent_coefficients) half_exp_m1 48000
       vocoder_config_default = Some v0"
    by (simp add: vocoder_new_def bandpass_coefficients_def silent_loop Let_def)
  show ?thesis
    using v0 bins_finite_nonnegative [OF half_exp_m1_law v0, of 2 True 1
        "[[0x3F800000, 0x7FC00000], [], [0xBF800000, 0x42F60000, 1]]"]
    by (auto simp: list_all_iff vocoder_config_default_bits default_vocoder_valid simp del: process_chunks.simps)
qed

end
