(* ===== verification/Audio.thy ===== *)
theory Audio
  imports Config_Types "HOL-Library.Sublist"
begin

text \<open>
  Audio input, \<^verbatim>\<open>src/src/managers/audio.rs\<close>: buffer sizes, the ring buffer's capacity, the
  channel selection and the push of the stream callback, and the choice of the input device. The
  ring buffer and the audio host are third-party code: the producer half is a record of operations
  with the laws \<open>producer_laws\<close>, a device is what the code reads from it.
\<close>

section \<open>Stream specifications\<close>

record specs =
  sp_channels :: u16
  sp_sample_rate :: u32

text \<open>The multiplication is done on 64 bits; the operands are widened first.\<close>

definition samples_for_ms :: "specs \<Rightarrow> u32 \<Rightarrow> nat" where
  "samples_for_ms s ms =
     unat ((ucast (sp_sample_rate s) :: u64) * (ucast (sp_channels s) :: u64) * (ucast ms :: u64))
       div 1000"

text \<open>None is the division by zero for a stream without channels.\<close>

definition frame_aligned_samples_for_ms :: "specs \<Rightarrow> u32 \<Rightarrow> nat option" where
  "frame_aligned_samples_for_ms s ms =
     (let channels = unat (sp_channels s) in
      if channels = 0 then None else Some (div_ceil (samples_for_ms s ms) channels * channels))"

lemma unat_ucast_up:
  fixes a :: "'a::len word"
  assumes "LENGTH('a) \<le> LENGTH('b)"
  shows "unat (ucast a :: 'b::len word) = unat a"
  using assms by (simp add: unsigned_ucast_eq take_bit_nat_eq_self less_le_trans [OF unsigned_less])

lemma mult3_less:
  fixes a b c :: nat
  assumes "a < x" "b < y" "c < z"
  shows "a * b * c < x * y * z"
  using assms by (intro mult_strict_mono) auto

lemma samples_product:
  fixes ms :: u32
  assumes "unat ms < 2 ^ 16"
  shows "unat ((ucast (sp_sample_rate s) :: u64) * (ucast (sp_channels s) :: u64) * (ucast ms :: u64))
    = unat (sp_sample_rate s) * unat (sp_channels s) * unat ms"
proof -
  have "unat (sp_sample_rate s) < 2 ^ 32" "unat (sp_channels s) < 2 ^ 16"
    using unsigned_less [of "sp_sample_rate s", where ?'a = nat]
      unsigned_less [of "sp_channels s", where ?'a = nat] by simp_all
  from mult3_less [OF this assms]
  have lt: "unat (sp_sample_rate s) * unat (sp_channels s) * unat ms < 2 ^ 64" by simp
  then show ?thesis
    by (simp add: unat_word_ariths unat_ucast_up mod_mult_left_eq)
qed

lemma samples_for_ms_exact:
  assumes "unat ms < 2 ^ 16"
  shows "samples_for_ms s ms = unat (sp_sample_rate s) * unat (sp_channels s) * unat ms div 1000"
  by (simp only: samples_for_ms_def samples_product [OF assms])

text \<open>
  The transfer buffers of the analyser and the generator: for any stream with channels
  and any duration below 65 seconds the multiplication does not wrap, the length is a whole number
  of frames, covers the requested time, and exceeds it by less than one frame.
\<close>

lemma frame_aligned_bounds:
  assumes "0 < sp_channels s" "unat ms < 2 ^ 16"
  shows "\<exists>n. frame_aligned_samples_for_ms s ms = Some n \<and> unat (sp_channels s) dvd n \<and>
    unat (sp_sample_rate s) * unat (sp_channels s) * unat ms div 1000 \<le> n \<and>
    n < unat (sp_sample_rate s) * unat (sp_channels s) * unat ms div 1000 + unat (sp_channels s)"
proof -
  have "0 < unat (sp_channels s)" using assms(1) by (simp add: word_less_nat_alt)
  then show ?thesis
    using div_ceil_ge div_ceil_lt
    by (simp add: frame_aligned_samples_for_ms_def Let_def samples_for_ms_exact [OF assms(2)])
qed

section \<open>Ring buffer capacity\<close>

definition next_power_of_two :: "nat \<Rightarrow> nat" where
  "next_power_of_two n = (if n \<le> 1 then 1 else 2 ^ bit_length (n - 1))"

text \<open>None is the failed assertion on a zero duration. The result is the capacity of the ring.\<close>

definition create_audio_buffer_pair :: "specs \<Rightarrow> u32 \<Rightarrow> nat option" where
  "create_audio_buffer_pair s buffer_ms =
     (if buffer_ms = 0 then None else
      let samples_per_sec = (ucast (sp_sample_rate s) :: u64) * (ucast (sp_channels s) :: u64);
          capacity = unat (samples_per_sec * (ucast buffer_ms :: u64)) div 1000
      in Some (next_power_of_two capacity))"

lemma next_power_of_two_ge: "n \<le> next_power_of_two n"
proof (cases "n \<le> 1")
  case False
  have "n - 1 < 2 ^ bit_length (n - 1)" using bit_length_le [of "n - 1" "bit_length (n - 1)"] by simp
  with False show ?thesis by (simp add: next_power_of_two_def)
qed (simp add: next_power_of_two_def)

lemma next_power_of_two_lt:
  assumes "0 < n" shows "next_power_of_two n < 2 * n"
proof (cases "n \<le> 1")
  case False
  then have pos: "0 < bit_length (n - 1)" by (subst bit_length.simps) simp
  then obtain k where k: "bit_length (n - 1) = Suc k" by (cases "bit_length (n - 1)") auto
  then have "2 ^ k \<le> n - 1" using bit_length_gt [of k "n - 1"] by simp
  with False k show ?thesis by (simp add: next_power_of_two_def)
qed (use assms in \<open>simp add: next_power_of_two_def\<close>)

lemma next_power_of_two_spec:
  "\<exists>k. next_power_of_two n = 2 ^ k \<and> n \<le> 2 ^ k \<and> (0 < n \<longrightarrow> 2 ^ k < 2 * n)"
proof -
  obtain k where k: "next_power_of_two n = 2 ^ k"
    by (metis next_power_of_two_def power_0)
  show ?thesis
    using next_power_of_two_ge [of n] next_power_of_two_lt [of n] unfolding k by auto
qed

text \<open>
  The ring buffer's capacity: with the half second the bootstrap asks for, or any
  duration below 65 seconds, it is a power of two, at least the requested number of samples and
  less than twice that number.
\<close>

lemma buffer_capacity_bounds:
  assumes "0 < ms" "unat ms < 2 ^ 16"
  shows "\<exists>k. create_audio_buffer_pair s ms = Some (2 ^ k) \<and>
    unat (sp_sample_rate s) * unat (sp_channels s) * unat ms div 1000 \<le> 2 ^ k \<and>
    (0 < unat (sp_sample_rate s) * unat (sp_channels s) * unat ms div 1000 \<longrightarrow>
      2 ^ k < 2 * (unat (sp_sample_rate s) * unat (sp_channels s) * unat ms div 1000))"
proof -
  let ?c = "unat (sp_sample_rate s) * unat (sp_channels s) * unat ms div 1000"
  have ms: "ms \<noteq> 0" using assms(1) by auto
  have cap: "create_audio_buffer_pair s ms = Some (next_power_of_two ?c)"
    unfolding create_audio_buffer_pair_def Let_def samples_product [OF assms(2)] using ms by simp
  obtain k where "next_power_of_two ?c = 2 ^ k" "?c \<le> 2 ^ k" "0 < ?c \<longrightarrow> 2 ^ k < 2 * ?c"
    using next_power_of_two_spec [of ?c] by (elim exE conjE)
  then show ?thesis unfolding cap by (intro exI [of _ k]) simp
qed

section \<open>The producer half of the ring\<close>

text \<open>
  Time passes at every call, and the consumer may take samples meanwhile, so each operation returns
  the producer's next state. \<open>hist\<close> is everything the ring has accepted so far, in order, and
  \<open>room\<close> the space the producer is sure of: the consumer can only make it larger. \<open>producer_laws\<close>
  is the documented behaviour of \<^verbatim>\<open>vacant_len\<close>, \<^verbatim>\<open>push_slice\<close> and \<^verbatim>\<open>try_push\<close>.
\<close>

record 'p producer_ops =
  pr_vacant_len :: "'p \<Rightarrow> 'p \<times> nat"
  pr_push_slice :: "'p \<Rightarrow> f32 list \<Rightarrow> 'p \<times> nat"
  pr_try_push :: "'p \<Rightarrow> f32 \<Rightarrow> 'p \<times> bool"

definition producer_laws :: "'p producer_ops \<Rightarrow> ('p \<Rightarrow> f32 list) \<Rightarrow> ('p \<Rightarrow> nat) \<Rightarrow> bool" where
  "producer_laws P hist room \<longleftrightarrow>
     (\<forall>p. hist (fst (pr_vacant_len P p)) = hist p \<and>
        snd (pr_vacant_len P p) \<le> room (fst (pr_vacant_len P p))) \<and>
     (\<forall>p xs. let (p', k) = pr_push_slice P p xs in hist p' = hist p @ take k xs \<and>
        min (length xs) (room p) \<le> k \<and> k \<le> length xs \<and> room p - k \<le> room p') \<and>
     (\<forall>p x. 0 < room p \<longrightarrow> hist (fst (pr_try_push P p x)) = hist p @ [x] \<and>
        room p - 1 \<le> room (fst (pr_try_push P p x)))"

lemma producer_vacant:
  assumes "producer_laws P hist room" "pr_vacant_len P p = (p', n)"
  shows "hist p' = hist p" "n \<le> room p'"
  using assms unfolding producer_laws_def by (metis fst_conv snd_conv)+

lemma producer_push_slice:
  assumes "producer_laws P hist room" "length xs \<le> room p"
  shows "hist (fst (pr_push_slice P p xs)) = hist p @ xs"
proof -
  obtain p' k where pk: "pr_push_slice P p xs = (p', k)" by (cases "pr_push_slice P p xs")
  have "\<forall>p xs. let (p', k) = pr_push_slice P p xs in hist p' = hist p @ take k xs \<and>
      min (length xs) (room p) \<le> k \<and> k \<le> length xs \<and> room p - k \<le> room p'"
    using assms(1) unfolding producer_laws_def by blast
  from this [rule_format, of p xs] pk assms(2) show ?thesis by simp
qed

lemma producer_try_push:
  assumes "producer_laws P hist room" "0 < room p"
  shows "hist (fst (pr_try_push P p x)) = hist p @ [x]" "room p - 1 \<le> room (fst (pr_try_push P p x))"
  using assms unfolding producer_laws_def by blast+

text \<open>A bounded ring that nobody reads, an instance of the laws: its capacity and its content.\<close>

definition ring_ops :: "(nat \<times> f32 list) producer_ops" where
  "ring_ops = \<lparr>pr_vacant_len = (\<lambda>(c, xs). ((c, xs), c - length xs)),
     pr_push_slice = (\<lambda>(c, xs) ys. ((c, xs @ take (c - length xs) ys), min (c - length xs) (length ys))),
     pr_try_push = (\<lambda>(c, xs) x. if length xs < c then ((c, xs @ [x]), True) else ((c, xs), False))\<rparr>"

definition ring_room :: "nat \<times> f32 list \<Rightarrow> nat" where
  "ring_room r = fst r - length (snd r)"

lemma take_min_length: "take (min n (length xs)) xs = take n xs"
  by (simp add: min_def)

lemma ring_laws: "producer_laws ring_ops snd ring_room"
  by (auto simp: take_min_length producer_laws_def ring_ops_def ring_room_def split: prod.splits)

section \<open>Channel selection and the stream callback\<close>

datatype channel_mode = AllChannels | Selected "u16 list"

definition channel_mode_resolve :: "u16 list option \<Rightarrow> specs \<Rightarrow> channel_mode \<times> specs" where
  "channel_mode_resolve selection s = (case selection of
       Some indices \<Rightarrow> (Selected indices, s\<lparr>sp_channels := of_nat (length indices)\<rparr>)
     | None \<Rightarrow> (AllChannels, s))"

record 'p stream_sink =
  ss_tx :: 'p
  ss_mode :: channel_mode

text \<open>One frame of the selected path: None is the panic of an index out of range.\<close>

fun push_selected :: "'p producer_ops \<Rightarrow> f32 list \<Rightarrow> u16 list \<Rightarrow> 'p \<Rightarrow> 'p option" where
  "push_selected P frame [] p = Some p"
| "push_selected P frame (idx # indices) p =
     (if unat idx < length frame
      then push_selected P frame indices (fst (pr_try_push P p (frame ! unat idx)))
      else None)"

fun push_frames ::
  "'p producer_ops \<Rightarrow> u16 list \<Rightarrow> f32 list list \<Rightarrow> 'p \<Rightarrow> bool \<Rightarrow> ('p \<times> bool) option" where
  "push_frames P indices [] p dropped = Some (p, dropped)"
| "push_frames P indices (frame # frames) p dropped =
     (case pr_vacant_len P p of (p', vacant) \<Rightarrow>
        if vacant < length indices then push_frames P indices frames p' True
        else Option.bind (push_selected P frame indices p')
          (\<lambda>q. push_frames P indices frames q dropped))"

text \<open>\<^verbatim>\<open>StreamSink::push\<close>: None is the panic for a stream without channels.\<close>

definition stream_sink_push ::
  "'p producer_ops \<Rightarrow> 'p stream_sink \<Rightarrow> f32 list \<Rightarrow> nat \<Rightarrow> ('p stream_sink \<times> bool) option" where
  "stream_sink_push P s data hw_channels =
     (if hw_channels = 0 then None else case ss_mode s of
        AllChannels \<Rightarrow>
          let len = length data div hw_channels * hw_channels in
          (case pr_vacant_len P (ss_tx s) of (p, vacant) \<Rightarrow>
             let writable = vacant div hw_channels * hw_channels; n = min len writable
             in Some (s\<lparr>ss_tx := fst (pr_push_slice P p (take n data))\<rparr>, n < len))
      | Selected indices \<Rightarrow>
          map_option (\<lambda>(p, dropped). (s\<lparr>ss_tx := p\<rparr>, dropped))
            (push_frames P indices (chunks_exact hw_channels data) (ss_tx s) False))"

text \<open>What a mode takes from a frame.\<close>

fun pick :: "channel_mode \<Rightarrow> f32 list \<Rightarrow> f32 list" where
  "pick AllChannels frame = frame"
| "pick (Selected indices) frame = map (\<lambda>i. frame ! unat i) indices"

lemma pick_all [simp]: "pick AllChannels = (\<lambda>frame. frame)"
  by (rule ext) (simp only: pick.simps)

fun mode_fits :: "channel_mode \<Rightarrow> nat \<Rightarrow> bool" where
  "mode_fits AllChannels n = True"
| "mode_fits (Selected indices) n = (\<forall>i \<in> set indices. unat i < n)"

lemma push_selected_picks:
  assumes "producer_laws P hist room" "\<forall>i \<in> set indices. unat i < length frame"
    "length indices \<le> room p"
  shows "\<exists>q. push_selected P frame indices p = Some q \<and>
    hist q = hist p @ pick (Selected indices) frame"
  using assms(2,3)
proof (induction indices arbitrary: p)
  case (Cons i indices)
  let ?p = "fst (pr_try_push P p (frame ! unat i))"
  have room: "0 < room p" using Cons.prems(2) by (cases "room p") auto
  have "length indices \<le> room ?p"
    using producer_try_push(2) [OF assms(1) room, of "frame ! unat i"] Cons.prems(2) by simp
  with Cons.IH [of ?p] Cons.prems(1) producer_try_push(1) [OF assms(1) room, of "frame ! unat i"]
  show ?case by auto
qed simp

declare pick.simps [simp del]

lemma push_frames_keeps:
  assumes laws: "producer_laws P hist room" and fits: "mode_fits (Selected indices) n"
    and "\<forall>fr \<in> set frames. length fr = n"
  shows "\<exists>q d kept. push_frames P indices frames p dropped = Some (q, d) \<and> subseq kept frames \<and>
    hist q = hist p @ concat (map (pick (Selected indices)) kept) \<and>
    (d \<longleftrightarrow> dropped \<or> length kept < length frames)"
  using assms(3)
proof (induction frames arbitrary: p dropped)
  case (Cons fr frames)
  obtain p' v where v: "pr_vacant_len P p = (p', v)" by (cases "pr_vacant_len P p")
  note vac = producer_vacant [OF laws v]
  have len: "length fr = n" and rest: "\<forall>fr \<in> set frames. length fr = n" using Cons.prems by auto
  show ?case
  proof (cases "v < length indices")
    case True
    from Cons.IH [OF rest, of p' True] obtain q d kept where
      "push_frames P indices frames p' True = Some (q, d)" "subseq kept frames" "d"
      "hist q = hist p' @ concat (map (pick (Selected indices)) kept)"
      by auto
    with True v vac show ?thesis
      by (intro exI [of _ q] exI [of _ d] exI [of _ kept]) (auto dest: list_emb_length)
  next
    case False
    then have "length indices \<le> room p'" using vac by simp
    from push_selected_picks [OF laws _ this, of fr] fits len obtain p'' where
      p'': "push_selected P fr indices p' = Some p''"
      "hist p'' = hist p' @ pick (Selected indices) fr" by auto
    from Cons.IH [OF rest, of p'' dropped] obtain q d kept where
      "push_frames P indices frames p'' dropped = Some (q, d)" "subseq kept frames"
      "hist q = hist p'' @ concat (map (pick (Selected indices)) kept)"
      "d \<longleftrightarrow> dropped \<or> length kept < length frames"
      by auto
    with False v vac p'' show ?thesis
      by (intro exI [of _ q] exI [of _ d] exI [of _ "fr # kept"]) auto
  qed
qed (auto intro: exI [of _ "[]"])

lemma take_frames:
  assumes "0 < n" "k * n \<le> length xs"
  shows "take (k * n) xs = concat (take k (chunks_exact n xs))"
  using assms(2)
proof (induction k arbitrary: xs)
  case (Suc k)
  have "n \<le> length xs" using Suc.prems by simp
  moreover have "take (k * n) (drop n xs) = concat (take k (chunks_exact n (drop n xs)))"
    using Suc.prems by (intro Suc.IH) simp
  ultimately show ?case using assms(1)
    by (simp add: chunks_exact.simps [of n xs] take_add)
qed simp

lemma chunks_exact_count: "0 < n \<Longrightarrow> length (chunks_exact n xs) = length xs div n"
proof (induction n xs rule: chunks_exact.induct)
  case (1 n xs)
  show ?case
  proof (cases "length xs < n")
    case False
    with 1 show ?thesis by (simp add: chunks_exact.simps [of n xs] le_div_geq)
  qed (simp add: chunks_exact.simps [of n xs])
qed

lemma stream_sink_push_frames:
  assumes "producer_laws P hist room" "0 < hw" "mode_fits (ss_mode s) hw"
  shows "\<exists>s' dropped kept. stream_sink_push P s data hw = Some (s', dropped) \<and>
    subseq kept (chunks_exact hw data) \<and> ss_mode s' = ss_mode s \<and>
    hist (ss_tx s') = hist (ss_tx s) @ concat (map (pick (ss_mode s)) kept) \<and>
    (dropped \<longleftrightarrow> length kept < length (chunks_exact hw data))"
proof (cases "ss_mode s")
  case AllChannels
  obtain p v where v: "pr_vacant_len P (ss_tx s) = (p, v)" by (cases "pr_vacant_len P (ss_tx s)")
  note vac = producer_vacant [OF assms(1) v]
  let ?k = "min (length data div hw) (v div hw)"
  have n: "min (length data div hw * hw) (v div hw * hw) = ?k * hw"
    by (simp add: min_def)
  have le: "?k * hw \<le> length data" "?k * hw \<le> v"
    by (meson le_trans min.cobounded1 min.cobounded2 mult_le_mono1 div_times_less_eq_dividend)+
  then have "hist (fst (pr_push_slice P p (take (?k * hw) data))) = hist p @ take (?k * hw) data"
    using vac by (intro producer_push_slice [OF assms(1)]) simp
  with AllChannels v vac assms(2) n show ?thesis
    by (intro exI [of _ "s\<lparr>ss_tx := fst (pr_push_slice P p (take (?k * hw) data))\<rparr>"]
        exI [of _ "?k * hw < length data div hw * hw"] exI [of _ "take ?k (chunks_exact hw data)"])
      (auto simp: stream_sink_push_def Let_def take_frames [OF assms(2) le(1)] chunks_exact_count
        simp del: min_less_iff_conj)
next
  case (Selected indices)
  have "\<forall>fr \<in> set (chunks_exact hw data). length fr = hw" by (simp add: chunks_exact_length)
  from push_frames_keeps [OF assms(1) _ this, of indices "ss_tx s" False] assms(2,3) Selected
  show ?thesis by (fastforce simp: stream_sink_push_def)
qed

text \<open>
  Claim C6. Overflow never tears a frame: a push of the audio callback, in either channel mode and
  whatever the analyser takes out meanwhile, appends to the ring the selected channels of some of
  the whole frames it was given, in order, and nothing else; it reports a drop exactly when a frame
  is missing.
\<close>

theorem stream_sink_push_whole_frames:
  assumes "producer_laws P hist room" "0 < hw" "mode_fits (ss_mode s) hw"
  shows "\<exists>s' dropped kept. stream_sink_push P s data hw = Some (s', dropped) \<and>
    subseq kept (chunks_exact hw data) \<and> ss_mode s' = ss_mode s \<and>
    hist (ss_tx s') = hist (ss_tx s) @ concat (map (pick (ss_mode s)) kept) \<and>
    (dropped \<longleftrightarrow> length kept < length (chunks_exact hw data))"
  by (rule stream_sink_push_frames [OF assms])

text \<open>A ring of five samples, two of four channels selected, three frames and a torn one.\<close>

theorem stream_sink_push_whole_frames_witness:
  "\<exists>s' dropped kept. stream_sink_push ring_ops \<lparr>ss_tx = (5, []), ss_mode = Selected [1, 3]\<rparr>
       [1, 2, 3, 4, 5, 6, 7, 8, 9, 10, 11, 12, 13] 4 = Some (s', dropped) \<and>
     subseq kept (chunks_exact 4 [1, 2, 3, 4, 5, 6, 7, 8, 9, 10, 11, 12, 13]) \<and>
     snd (ss_tx s') = concat (map (pick (Selected [1, 3])) kept)"
  using stream_sink_push_whole_frames [OF ring_laws, of 4 "\<lparr>ss_tx = (5, []), ss_mode = Selected [1, 3]\<rparr>"
      "[1, 2, 3, 4, 5, 6, 7, 8, 9, 10, 11, 12, 13]"]
  by auto

section \<open>Writers of whole frames\<close>

text \<open>
  The interface between a producer thread and the analyser: each step of the writer appends whole
  frames of \<open>n\<close> samples. The stream callback provides it here, the generator in its own theory.
\<close>

lemma frames_dvd: "\<forall>fr \<in> set frames. length fr = n \<Longrightarrow> n dvd length (concat frames)"
  by (induction frames) auto

locale whole_frame_writer =
  fixes step :: "'p \<Rightarrow> 'p \<Rightarrow> bool" and hist :: "'p \<Rightarrow> f32 list" and n :: nat
  assumes step_frames:
    "step p q \<Longrightarrow> \<exists>frames. (\<forall>fr \<in> set frames. length fr = n) \<and> hist q = hist p @ concat frames"
begin

lemma run_frames:
  "step\<^sup>*\<^sup>* p q \<Longrightarrow> \<exists>frames. (\<forall>fr \<in> set frames. length fr = n) \<and> hist q = hist p @ concat frames"
proof (induction rule: rtranclp_induct)
  case base
  show ?case by (rule exI [of _ "[]"]) simp
next
  case (step q r)
  from step.IH obtain frames where
    "\<forall>fr \<in> set frames. length fr = n" "hist q = hist p @ concat frames" by blast
  moreover from step_frames [OF step.hyps(2)] obtain frames' where
    "\<forall>fr \<in> set frames'. length fr = n" "hist r = hist q @ concat frames'" by blast
  ultimately show ?case by (intro exI [of _ "frames @ frames'"]) auto
qed

lemma run_aligned: "step\<^sup>*\<^sup>* p q \<Longrightarrow> hist p = [] \<Longrightarrow> n dvd length (hist q)"
  using run_frames [of p q] by (auto simp: frames_dvd)

end

fun frame_size :: "channel_mode \<Rightarrow> nat \<Rightarrow> nat" where
  "frame_size AllChannels hw = hw"
| "frame_size (Selected indices) hw = length indices"

inductive sink_step ::
  "'p producer_ops \<Rightarrow> ('p \<Rightarrow> f32 list) \<Rightarrow> ('p \<Rightarrow> nat) \<Rightarrow> channel_mode \<Rightarrow> nat \<Rightarrow> 'p \<Rightarrow> 'p \<Rightarrow> bool"
  for P hist room mode hw where
  "producer_laws P hist room \<Longrightarrow> 0 < hw \<Longrightarrow> mode_fits mode hw \<Longrightarrow>
   stream_sink_push P \<lparr>ss_tx = p, ss_mode = mode\<rparr> data hw = Some (s, dropped) \<Longrightarrow>
   sink_step P hist room mode hw p (ss_tx s)"

inductive_cases sink_stepE: "sink_step P hist room mode hw p q"

interpretation sink: whole_frame_writer "sink_step P hist room mode hw" hist "frame_size mode hw"
  for P :: "'p producer_ops" and hist room mode hw
proof
  fix p q
  assume "sink_step P hist room mode hw p q"
  then obtain data s d where laws: "producer_laws P hist room" "0 < hw" "mode_fits mode hw"
    and push: "stream_sink_push P \<lparr>ss_tx = p, ss_mode = mode\<rparr> data hw = Some (s, d)" "q = ss_tx s"
    by (auto elim: sink_stepE)
  from stream_sink_push_frames [OF laws(1,2), of "\<lparr>ss_tx = p, ss_mode = mode\<rparr>" data] laws(3) push
  obtain kept where kept: "subseq kept (chunks_exact hw data)"
    "hist q = hist p @ concat (map (pick mode) kept)" by auto
  have "length fr = hw" if "fr \<in> set kept" for fr
    using that kept(1) by (auto dest: list_emb_set chunks_exact_length)
  then have "\<forall>fr \<in> set (map (pick mode) kept). length fr = frame_size mode hw"
    by (cases mode) (auto simp: pick.simps)
  with kept(2) show "\<exists>frames. (\<forall>fr \<in> set frames. length fr = frame_size mode hw) \<and>
      hist q = hist p @ concat frames" by blast
qed

section \<open>Choosing the input device\<close>

text \<open>
  A device of the audio host, by what the code reads from it: its description and its default input
  configuration, None when the query fails. The host's enumeration is the list of its devices, or
  None when it fails.
\<close>

record stream_config =
  cf_channels :: u16
  cf_sample_rate :: u32
  cf_format :: string

record audio_device =
  dv_description :: "rstring option"
  dv_config :: "stream_config option"

datatype device_error =
    EmptyQuery
  | NoMatch rstring
  | UnsupportedFormat string
  | HardwareStreamError rstring
  | HostError string

definition device_name :: "audio_device \<Rightarrow> rstring" where
  "device_name d = unwrap_or (dv_description d) (lit ''Unknown Device'')"

record device_info =
  di_index :: nat
  di_name :: rstring
  di_sample_rate :: "u32 option"
  di_channels :: "u16 option"
  di_sample_format :: "string option"
  di_supported :: bool

definition enumerate_devices :: "audio_device list option \<Rightarrow> device_error + device_info list" where
  "enumerate_devices host =
     and_then (ok_or host (HostError ''Failed to query input devices''))
       (\<lambda>devices. Inr (map (\<lambda>(index, d).
          \<lparr>di_index = index, di_name = device_name d,
           di_sample_rate = map_option cf_sample_rate (dv_config d),
           di_channels = map_option cf_channels (dv_config d),
           di_sample_format = map_option cf_format (dv_config d),
           di_supported = (case dv_config d of Some c \<Rightarrow> cf_format c = ''F32'' | None \<Rightarrow> False)\<rparr>)
          (zip [0..<length devices] devices)))"

definition build_device_specs ::
  "audio_device \<Rightarrow> device_error + audio_device \<times> stream_config \<times> specs" where
  "build_device_specs d =
     and_then (ok_or (dv_config d) (HostError ''Failed to query hardware config''))
       (\<lambda>config. Inr (d, config,
          \<lparr>sp_channels = cf_channels config, sp_sample_rate = cf_sample_rate config\<rparr>))"

text \<open>
  The loop over the devices: it stops at an exact match and otherwise carries the first device
  whose lower-cased name contains the lower-cased query. \<open>lower\<close> is \<^verbatim>\<open>str::to_lowercase\<close>.
\<close>

fun find_device ::
  "(rstring \<Rightarrow> rstring) \<Rightarrow> rstring \<Rightarrow> audio_device list \<Rightarrow> audio_device option \<Rightarrow> audio_device option" where
  "find_device lower query [] fuzzy = fuzzy"
| "find_device lower query (d # ds) fuzzy =
     (if device_name d = query then Some d
      else if fuzzy = None \<and> contains (lower (device_name d)) (lower query)
      then find_device lower query ds (Some d)
      else find_device lower query ds fuzzy)"

definition get_device ::
  "(rstring \<Rightarrow> rstring) \<Rightarrow> audio_device list option \<Rightarrow> rstring
    \<Rightarrow> device_error + audio_device \<times> stream_config \<times> specs" where
  "get_device lower host query =
     (if trim query = [] then Inl EmptyQuery
      else and_then (ok_or host (HostError ''Failed to enumerate input devices''))
        (\<lambda>devices. case find_device lower query devices None of
           Some d \<Rightarrow> build_device_specs d
         | None \<Rightarrow> Inl (NoMatch query)))"

text \<open>
  \<^verbatim>\<open>Input::start_stream\<close>: the stream is built and played by the host, parameters that may fail;
  the active stream is replaced only when both succeed. A sample format is named by its variant, which
  is also its Debug text in the listing; the error carries the Display text of the format, the parameter
  \<open>show_format\<close>.
\<close>

definition start_stream ::
  "(string \<Rightarrow> string) \<Rightarrow> (stream_config \<Rightarrow> device_error + 's) \<Rightarrow> ('s \<Rightarrow> device_error + unit) \<Rightarrow> 's option \<Rightarrow> stream_config
    \<Rightarrow> 's option \<times> (device_error + unit)" where
  "start_stream show_format build play active config =
     (if cf_format config \<noteq> ''F32'' then (active, Inl (UnsupportedFormat (show_format (cf_format config))))
      else case build config of
         Inl e \<Rightarrow> (active, Inl e)
       | Inr stream \<Rightarrow> (case play stream of
             Inl e \<Rightarrow> (active, Inl e)
           | Inr u \<Rightarrow> (Some stream, Inr ())))"

text \<open>Two of the Display texts, for the witnesses.\<close>

definition demo_display :: "string \<Rightarrow> string" where
  "demo_display f = (if f = ''F32'' then ''f32'' else if f = ''I16'' then ''i16'' else f)"

lemma find_device_find:
  "find_device lower query ds fuzzy =
     (case List.find (\<lambda>d. device_name d = query) ds of
        Some d \<Rightarrow> Some d
      | None \<Rightarrow> (case fuzzy of Some f \<Rightarrow> Some f
          | None \<Rightarrow> List.find (\<lambda>d. contains (lower (device_name d)) (lower query)) ds))"
  by (induction ds arbitrary: fuzzy) (auto split: option.splits)

text \<open>
  Device selection: an exact name wins over every substring match wherever it stands in
  the enumeration, the first device whose name contains the query case-insensitively is the fallback,
  an empty or blank query and a query that matches nothing are errors, and no other device is ever
  opened.
\<close>

lemma get_device_choice:
  "get_device lower (Some ds) query =
    (if list_all white_space query then Inl EmptyQuery else
     case List.find (\<lambda>d. device_name d = query) ds of
       Some d \<Rightarrow> build_device_specs d
     | None \<Rightarrow> (case List.find (\<lambda>d. contains (lower (device_name d)) (lower query)) ds of
         Some d \<Rightarrow> build_device_specs d
       | None \<Rightarrow> Inl (NoMatch query)))"
  by (simp add: get_device_def find_device_find trim_empty list_all_iff split: option.split)

end
