(* ===== verification/Analyser.thy ===== *)
theory Analyser
  imports Audio Vocoder
begin

text \<open>
  The analyser thread, \<^verbatim>\<open>src/src/managers/analyser.rs\<close>: peak measurement, the transfer buffer with
  its carried partial frame, the publication through the watch channel and the drain loop. The flush
  mode \<open>z\<close> of the floating-point unit, the watch channel \<open>W\<close>, the filters \<open>B\<close> and the consumer half
  of the ring \<open>C\<close> are parameters. None stands for a panic, or for a loop that never ends.
\<close>

definition CHUNK_SIZE_MS :: u32 where
  "CHUNK_SIZE_MS = 10"

section \<open>Definitions\<close>

definition peak_step :: "bool \<Rightarrow> f32 \<Rightarrow> f32 \<Rightarrow> f32" where
  "peak_step z peak s = (let abs_s = f32_abs s in if f32_gt_z z abs_s peak then abs_s else peak)"

definition interleaved_peak :: "bool \<Rightarrow> f32 list \<Rightarrow> nat \<Rightarrow> nat \<Rightarrow> f32 option" where
  "interleaved_peak z buffer channel channels =
     strided_loop (peak_step z) buffer channel channels 0"

text \<open>\<open>st_warnings\<close> counts the warning lines the thread has logged.\<close>

record ('f, 'w) analyser_state =
  st_channels :: nat
  st_transfer_buffer :: "f32 list"
  st_pending :: nat
  st_frame_data :: raw_payload
  st_raw_tx :: 'w
  st_analysers :: "'f vocoder list"
  st_mapper_gone_logged :: bool
  st_warnings :: nat

definition analyser_new ::
  "(nat \<Rightarrow> vocoder_config \<Rightarrow> 'f vocoder option) \<Rightarrow> specs \<Rightarrow> 'w \<Rightarrow> vocoder_config
    \<Rightarrow> ('f, 'w) analyser_state option" where
  "analyser_new new_vocoder s raw_tx cfg =
     (let channels = unat (sp_channels s) in
      if channels = 0 then None else
      Option.bind (frame_aligned_samples_for_ms s CHUNK_SIZE_MS) (\<lambda>len.
      Option.bind (new_vocoder (unat (sp_sample_rate s)) cfg) (\<lambda>voc.
        Some \<lparr>st_channels = channels, st_transfer_buffer = replicate len 0, st_pending = 0,
          st_frame_data = raw_payload_new channels, st_raw_tx = raw_tx,
          st_analysers = replicate channels voc, st_mapper_gone_logged = False, st_warnings = 0\<rparr>)))"

definition analyse_channel ::
  "'f biquad_ops \<Rightarrow> bool \<Rightarrow> f32 list \<Rightarrow> ('f, 'w) analyser_state \<Rightarrow> nat
    \<Rightarrow> ('f, 'w) analyser_state option" where
  "analyse_channel B z active s ch =
     Option.bind (interleaved_peak z active ch (st_channels s)) (\<lambda>peak.
       if ch < length (st_analysers s) \<and> ch < length (rp_channels (st_frame_data s)) then
         Option.bind (process_interleaved B z (st_analysers s ! ch) active ch (st_channels s)) (\<lambda>voc.
           Some (s\<lparr>st_analysers := (st_analysers s)[ch := voc],
             st_frame_data := \<lparr>rp_channels = (rp_channels (st_frame_data s))
               [ch := \<lparr>cl_peak = peak, cl_bins = current_bins voc\<rparr>]\<rparr>\<rparr>))
       else None)"

fun analyse_channels ::
  "'f biquad_ops \<Rightarrow> bool \<Rightarrow> f32 list \<Rightarrow> nat list \<Rightarrow> ('f, 'w) analyser_state
    \<Rightarrow> ('f, 'w) analyser_state option" where
  "analyse_channels B z active [] s = Some s"
| "analyse_channels B z active (ch # chs) s =
     Option.bind (analyse_channel B z active s ch) (analyse_channels B z active chs)"

definition publish_frame ::
  "('w, raw_payload) watch_ops \<Rightarrow> ('f, 'w) analyser_state \<Rightarrow> ('f, 'w) analyser_state" where
  "publish_frame W s =
     (if w_is_closed W (st_raw_tx s) then
        (if st_mapper_gone_logged s then s
         else s\<lparr>st_warnings := st_warnings s + 1, st_mapper_gone_logged := True\<rparr>)
      else case w_send_replace W (st_raw_tx s) (st_frame_data s) of (tx, old) \<Rightarrow>
        s\<lparr>st_raw_tx := tx, st_frame_data := old\<rparr>)"

definition analyse ::
  "'f biquad_ops \<Rightarrow> bool \<Rightarrow> ('w, raw_payload) watch_ops \<Rightarrow> nat \<Rightarrow> ('f, 'w) analyser_state
    \<Rightarrow> ('f, 'w) analyser_state option" where
  "analyse B z W count s =
     (if length (st_transfer_buffer s) < count then None
      else map_option (publish_frame W)
        (analyse_channels B z (take count (st_transfer_buffer s)) [0..<st_channels s] s))"

text \<open>\<^verbatim>\<open>State::process\<close>; None also is the remainder by zero and a range past the buffer.\<close>

definition analyser_process ::
  "'f biquad_ops \<Rightarrow> bool \<Rightarrow> ('w, raw_payload) watch_ops \<Rightarrow> nat \<Rightarrow> ('f, 'w) analyser_state
    \<Rightarrow> ('f, 'w) analyser_state option" where
  "analyser_process B z W popped s =
     (if st_channels s = 0 then None else
      let total = st_pending s + popped; aligned = total - total mod st_channels s in
      Option.bind (if 0 < aligned then analyse B z W aligned s else Some s) (\<lambda>s'.
        let buf = st_transfer_buffer s' in
        if length buf < total then None
        else Some (s'\<lparr>st_transfer_buffer :=
            take (total - aligned) (drop aligned buf) @ drop (total - aligned) buf,
          st_pending := total - aligned\<rparr>)))"

text \<open>
  The consumer half of the ring, and one turn of the thread's loop: pop into the free part of the
  transfer buffer and process what came. The turn that finds nothing only sleeps.
\<close>

record 'c consumer_ops =
  cn_is_empty :: "'c \<Rightarrow> bool"
  cn_pop_slice :: "'c \<Rightarrow> nat \<Rightarrow> 'c \<times> f32 list"

definition analyser_turn ::
  "'f biquad_ops \<Rightarrow> bool \<Rightarrow> ('w, raw_payload) watch_ops \<Rightarrow> 'c consumer_ops
    \<Rightarrow> ('f, 'w) analyser_state \<times> 'c \<Rightarrow> (('f, 'w) analyser_state \<times> 'c) option" where
  "analyser_turn B z W C sc = (case sc of (s, c) \<Rightarrow>
     (case cn_pop_slice C c (length (st_transfer_buffer s) - st_pending s) of (c', xs) \<Rightarrow>
        let s' = s\<lparr>st_transfer_buffer := take (st_pending s) (st_transfer_buffer s) @ xs
               @ drop (st_pending s + length xs) (st_transfer_buffer s)\<rparr>
        in if xs \<noteq> [] then map_option (\<lambda>t. (t, c')) (analyser_process B z W (length xs) s')
           else Some (s', c')))"

fun analyser_turns ::
  "'f biquad_ops \<Rightarrow> bool \<Rightarrow> ('w, raw_payload) watch_ops \<Rightarrow> 'c consumer_ops \<Rightarrow> nat
    \<Rightarrow> ('f, 'w) analyser_state \<times> 'c \<Rightarrow> (('f, 'w) analyser_state \<times> 'c) option" where
  "analyser_turns B z W C 0 sc = Some sc"
| "analyser_turns B z W C (Suc k) sc =
     Option.bind (analyser_turn B z W C sc) (analyser_turns B z W C k)"

text \<open>The loop once \<^verbatim>\<open>keep_running\<close> is cleared: it runs until the ring is empty.\<close>

partial_function (option) analyser_drain ::
  "'f biquad_ops \<Rightarrow> bool \<Rightarrow> ('w, raw_payload) watch_ops \<Rightarrow> 'c consumer_ops
    \<Rightarrow> ('f, 'w) analyser_state \<times> 'c \<Rightarrow> (('f, 'w) analyser_state \<times> 'c) option" where
  [code]: "analyser_drain B z W C sc =
     (if cn_is_empty C (snd sc) then Some sc
      else Option.bind (analyser_turn B z W C sc) (analyser_drain B z W C))"

section \<open>Peaks\<close>

lemma f32_gt_z_trans: "f32_gt_z z a b \<Longrightarrow> f32_gt_z z b c \<Longrightarrow> f32_gt_z z a c"
  by (auto simp: f32_gt_z_def fl_lt_def)

lemma fl_is_nan_flush [simp]: "fl_is_nan F32 (fl_flush F32 z x) = fl_is_nan F32 x"
  by (simp add: fl_is_nan_def fl_flush_def)

lemma f32_gt_z_split:
  "f32_gt_z z a c \<Longrightarrow> \<not> fl_is_nan F32 (f32_unpack b) \<Longrightarrow> f32_gt_z z a b \<or> f32_gt_z z b c"
  by (auto simp: f32_gt_z_def fl_lt_def)

lemma f32_gt_z_number: "f32_gt_z z a b \<Longrightarrow> \<not> fl_is_nan F32 (f32_unpack a)"
  by (auto simp: f32_gt_z_def fl_lt_def)

lemma peak_fold:
  assumes "\<not> fl_is_nan F32 (f32_unpack p0)"
  shows "(\<forall>x \<in> insert p0 (f32_abs ` set ss). \<not> f32_gt_z z x (foldl (peak_step z) p0 ss)) \<and>
   foldl (peak_step z) p0 ss \<in> insert p0 (f32_abs ` set ss)"
  using assms
proof (induction ss arbitrary: p0)
  case Nil
  show ?case by (simp add: f32_gt_z_def fl_lt_def)
next
  case (Cons s ss)
  let ?p = "peak_step z p0 s"
  let ?m = "foldl (peak_step z) ?p ss"
  have "\<not> fl_is_nan F32 (f32_unpack ?p)"
    using Cons.prems f32_gt_z_number by (auto simp: peak_step_def Let_def)
  from Cons.IH [OF this] have IH: "\<not> f32_gt_z z ?p ?m" "\<forall>x \<in> f32_abs ` set ss. \<not> f32_gt_z z x ?m"
    "?m \<in> insert ?p (f32_abs ` set ss)" by simp_all
  show ?case
  proof (cases "f32_gt_z z (f32_abs s) p0")
    case True
    then have p: "?p = f32_abs s" by (simp add: peak_step_def)
    have "\<not> f32_gt_z z p0 ?m" using True IH(1) p f32_gt_z_trans by metis
    with IH p show ?thesis by auto
  next
    case False
    then have p: "?p = p0" by (simp add: peak_step_def)
    have "\<not> f32_gt_z z (f32_abs s) ?m" using False IH(1) p f32_gt_z_split [OF _ Cons.prems] by metis
    with IH p show ?thesis by auto
  qed
qed

text \<open>
  The peak of a channel: for whole frames it is the magnitude of one of that channel's
  samples, or zero, and no sample's magnitude is greater in the comparison the thread uses; samples
  of other channels and NaN samples do not count.
\<close>

lemma interleaved_peak_max:
  assumes "ch < n" "\<forall>fr \<in> set frames. length fr = n"
  shows "\<exists>p. interleaved_peak z (concat frames) ch n = Some p \<and>
    (p = 0 \<or> (\<exists>fr \<in> set frames. p = f32_abs (fr ! ch))) \<and>
    (\<forall>fr \<in> set frames. \<not> f32_gt_z z (f32_abs (fr ! ch)) p)"
proof -
  let ?p = "foldl (peak_step z) 0 (map (\<lambda>fr. fr ! ch) frames)"
  have "interleaved_peak z (concat frames) ch n = Some ?p"
    using assms by (simp add: interleaved_peak_def strided_loop_foldl strided_frames)
  moreover have "\<not> fl_is_nan F32 (f32_unpack 0)" by (simp add: fl_is_nan_def)
  from peak_fold [OF this, of "map (\<lambda>fr. fr ! ch) frames" z]
  have "?p = 0 \<or> (\<exists>fr \<in> set frames. ?p = f32_abs (fr ! ch))"
    "\<forall>fr \<in> set frames. \<not> f32_gt_z z (f32_abs (fr ! ch)) ?p" by auto
  ultimately show ?thesis by blast
qed

section \<open>Chunks and frames\<close>

lemma chunks_exact_append:
  "0 < n \<Longrightarrow> chunks_exact n (xs @ ys) =
     chunks_exact n xs @ chunks_exact n (drop (length xs div n * n) xs @ ys)"
proof (induction n xs rule: chunks_exact.induct)
  case (1 n xs)
  show ?case
  proof (cases "length xs < n")
    case True
    then show ?thesis by (simp add: chunks_exact.simps [of n xs])
  next
    case False
    with 1 have IH: "chunks_exact n (drop n xs @ ys) = chunks_exact n (drop n xs) @
        chunks_exact n (drop (length (drop n xs) div n * n) (drop n xs) @ ys)" by simp
    have "length xs div n * n = length (drop n xs) div n * n + n"
      using False "1.prems" by (simp add: le_div_geq)
    with False "1.prems" IH show ?thesis
      by (simp add: chunks_exact.simps [of n xs] chunks_exact.simps [of n "xs @ ys"])
  qed
qed

lemma chunks_exact_prefix:
  assumes "0 < n"
  shows "concat (chunks_exact n xs) = take (length xs - length xs mod n) xs"
  using assms by (simp add: chunks_exact_concat minus_mod_eq_div_mult)

definition column :: "nat \<Rightarrow> nat \<Rightarrow> f32 list \<Rightarrow> f32 list" where
  "column n ch xs = map (\<lambda>fr. fr ! ch) (chunks_exact n xs)"

lemma column_append:
  "0 < n \<Longrightarrow> column n ch (xs @ ys) =
     column n ch xs @ column n ch (drop (length xs div n * n) xs @ ys)"
  by (simp add: column_def chunks_exact_append [of n xs ys])

lemma strided_column:
  assumes "ch < n"
  shows "strided (take (length xs - length xs mod n) xs) ch n = column n ch xs"
proof -
  have "0 < n" using assms by simp
  from chunks_exact_prefix [OF this, of xs] strided_frames [OF assms, of "chunks_exact n xs"]
  show ?thesis by (simp add: column_def chunks_exact_length)
qed

section \<open>One analysis\<close>

lemma map_upt_update:
  assumes "k < n"
  shows "(map (\<lambda>i. if i < k then f i else g i) [0..<n])[k := f k]
    = map (\<lambda>i. if i < Suc k then f i else g i) [0..<n]"
  using assms by (intro nth_equalityI) (auto simp: nth_list_update less_Suc_eq)

lemma analyse_channels_append:
  "analyse_channels B z a (xs @ ys) s =
     Option.bind (analyse_channels B z a xs s) (analyse_channels B z a ys)"
  by (induction xs arbitrary: s) (auto split: Option.bind_splits)

text \<open>The vocoder and the level of channel \<open>ch\<close> after the block \<open>active\<close>.\<close>

definition channel_voc :: "'f biquad_ops \<Rightarrow> bool \<Rightarrow> f32 list \<Rightarrow> nat \<Rightarrow> 'f vocoder list \<Rightarrow> nat \<Rightarrow> 'f vocoder" where
  "channel_voc B z active n vocs ch = foldl (sample_step B z) (vocs ! ch) (strided active ch n)"

definition channel_out :: "'f biquad_ops \<Rightarrow> bool \<Rightarrow> f32 list \<Rightarrow> nat \<Rightarrow> 'f vocoder list \<Rightarrow> nat \<Rightarrow> channel_level" where
  "channel_out B z active n vocs ch =
     \<lparr>cl_peak = foldl (peak_step z) 0 (strided active ch n),
      cl_bins = current_bins (channel_voc B z active n vocs ch)\<rparr>"

lemma analyse_channels_upto:
  assumes "st_channels s = n" "0 < n" "length (st_analysers s) = n"
    "length (rp_channels (st_frame_data s)) = n" "k \<le> n"
  shows "analyse_channels B z active [0..<k] s = Some (s
    \<lparr>st_analysers := map (\<lambda>i. if i < k then channel_voc B z active n (st_analysers s) i
        else st_analysers s ! i) [0..<n],
     st_frame_data := \<lparr>rp_channels = map (\<lambda>i. if i < k then channel_out B z active n (st_analysers s) i
        else rp_channels (st_frame_data s) ! i) [0..<n]\<rparr>\<rparr>)"
  using assms(5)
proof (induction k)
  case 0
  have "map ((!) (st_analysers s)) [0..<n] = st_analysers s"
    "map ((!) (rp_channels (st_frame_data s))) [0..<n] = rp_channels (st_frame_data s)"
    using assms(3,4) by (metis map_nth)+
  then show ?case by simp
next
  case (Suc k)
  then have k: "k < n" and IH: "analyse_channels B z active [0..<k] s = Some (s
    \<lparr>st_analysers := map (\<lambda>i. if i < k then channel_voc B z active n (st_analysers s) i
        else st_analysers s ! i) [0..<n],
     st_frame_data := \<lparr>rp_channels = map (\<lambda>i. if i < k then channel_out B z active n (st_analysers s) i
        else rp_channels (st_frame_data s) ! i) [0..<n]\<rparr>\<rparr>)" (is "_ = Some ?s") by auto
  have "process_interleaved B z (st_analysers s ! k) active k n
      = Some (channel_voc B z active n (st_analysers s) k)"
    using assms(2) by (simp add: process_interleaved_def strided_loop_foldl channel_voc_def)
  moreover have "interleaved_peak z active k n = Some (foldl (peak_step z) 0 (strided active k n))"
    using assms(2) by (simp add: interleaved_peak_def strided_loop_foldl)
  ultimately have "analyse_channel B z active ?s k = Some (?s
    \<lparr>st_analysers := (st_analysers ?s)[k := channel_voc B z active n (st_analysers s) k],
     st_frame_data := \<lparr>rp_channels = (rp_channels (st_frame_data ?s))
        [k := channel_out B z active n (st_analysers s) k]\<rparr>\<rparr>)"
    using k assms(1) by (simp add: analyse_channel_def channel_out_def)
  also have "\<dots> = Some (s
    \<lparr>st_analysers := map (\<lambda>i. if i < Suc k then channel_voc B z active n (st_analysers s) i
        else st_analysers s ! i) [0..<n],
     st_frame_data := \<lparr>rp_channels = map (\<lambda>i. if i < Suc k then channel_out B z active n (st_analysers s) i
        else rp_channels (st_frame_data s) ! i) [0..<n]\<rparr>\<rparr>)"
    using map_upt_update [OF k, of "channel_voc B z active n (st_analysers s)" "\<lambda>i. st_analysers s ! i"]
      map_upt_update [OF k, of "channel_out B z active n (st_analysers s)"
        "\<lambda>i. rp_channels (st_frame_data s) ! i"]
    by simp
  finally show ?case using IH by (simp add: analyse_channels_append)
qed

text \<open>The invariant of the thread and the abstract content of its state after the stream \<open>xs\<close>.\<close>

definition an_inv :: "('w, raw_payload) watch_ops \<Rightarrow> nat \<Rightarrow> ('f, 'w) analyser_state \<Rightarrow> bool" where
  "an_inv W n s \<longleftrightarrow> watch_laws W \<and> st_channels s = n \<and> 0 < n \<and> n dvd length (st_transfer_buffer s) \<and>
     st_transfer_buffer s \<noteq> [] \<and> st_pending s < n \<and> length (st_analysers s) = n \<and>
     length (rp_channels (st_frame_data s)) = n \<and> length (rp_channels (w_borrow W (st_raw_tx s))) = n \<and>
     st_warnings s = (if st_mapper_gone_logged s then 1 else 0)"

definition an_follows ::
  "'f biquad_ops \<Rightarrow> bool \<Rightarrow> nat \<Rightarrow> 'f vocoder list \<Rightarrow> f32 list \<Rightarrow> ('f, 'w) analyser_state \<Rightarrow> bool" where
  "an_follows B z n vocs xs s \<longleftrightarrow> st_pending s = length xs mod n \<and>
     take (st_pending s) (st_transfer_buffer s) = drop (length xs div n * n) xs \<and>
     (\<forall>ch < n. st_analysers s ! ch = foldl (sample_step B z) (vocs ! ch) (column n ch xs))"

lemma publish_frame_inv:
  assumes "an_inv W n s" shows "an_inv W n (publish_frame W s)"
proof -
  obtain tx old where sr: "w_send_replace W (st_raw_tx s) (st_frame_data s) = (tx, old)"
    by (cases "w_send_replace W (st_raw_tx s) (st_frame_data s)")
  have "w_borrow W tx = st_frame_data s" "old = w_borrow W (st_raw_tx s)"
    using assms sr unfolding an_inv_def watch_laws_def by (metis fst_conv snd_conv)+
  with assms sr show ?thesis by (auto simp: an_inv_def publish_frame_def)
qed

lemma publish_frame_same [simp]:
  "st_transfer_buffer (publish_frame W s) = st_transfer_buffer s"
  "st_pending (publish_frame W s) = st_pending s"
  "st_analysers (publish_frame W s) = st_analysers s"
  "st_channels (publish_frame W s) = st_channels s"
  by (auto simp: publish_frame_def split: prod.splits)

lemma analyse_ok:
  assumes "an_inv W n s" "count \<le> length (st_transfer_buffer s)"
  defines "active \<equiv> take count (st_transfer_buffer s)"
  shows "\<exists>s'. analyse B z W count s = Some s' \<and> an_inv W n s' \<and>
    st_transfer_buffer s' = st_transfer_buffer s \<and> st_pending s' = st_pending s \<and>
    (\<forall>ch < n. st_analysers s' ! ch = channel_voc B z active n (st_analysers s) ch)"
proof -
  let ?s = "s\<lparr>st_analysers := map (channel_voc B z active n (st_analysers s)) [0..<n],
     st_frame_data := \<lparr>rp_channels = map (channel_out B z active n (st_analysers s)) [0..<n]\<rparr>\<rparr>"
  have "analyse_channels B z active [0..<n] s = Some ?s"
    using assms(1) by (subst analyse_channels_upto [of s n n])
      (auto simp: an_inv_def intro!: arg_cong [where f = st_analysers])
  then have "analyse B z W count s = Some (publish_frame W ?s)"
    using assms by (simp add: analyse_def an_inv_def)
  moreover have "an_inv W n ?s" using assms(1) by (simp add: an_inv_def)
  ultimately show ?thesis by (simp add: publish_frame_inv)
qed

lemma column_short: "length xs < n \<Longrightarrow> column n ch xs = []"
  by (simp add: column_def chunks_exact.simps)

lemma carried_remainder:
  fixes xs ys :: "'a list" and n :: nat
  assumes "0 < n"
  defines "rest \<equiv> drop (length xs div n * n) xs"
  defines "aligned \<equiv> length (rest @ ys) - length (rest @ ys) mod n"
  shows "length rest = length xs mod n"
    and "length (rest @ ys) mod n = length (xs @ ys) mod n"
    and "drop aligned (rest @ ys) = drop (length (xs @ ys) div n * n) (xs @ ys)"
proof -
  show len: "length rest = length xs mod n"
    unfolding rest_def by (simp add: minus_div_mult_eq_mod)
  have "length (rest @ ys) mod n = (length xs mod n + length ys) mod n" by (simp add: len)
  then show "length (rest @ ys) mod n = length (xs @ ys) mod n" by (simp add: mod_add_left_eq)
  have xs: "xs = take (length xs div n * n) xs @ rest" by (simp add: rest_def)
  have q: "length (xs @ ys) = length (rest @ ys) + length xs div n * n"
    by (simp add: len)
  have "length (xs @ ys) div n = length xs div n + length (rest @ ys) div n"
    unfolding q using assms(1) by simp
  then have "length (xs @ ys) div n * n = length xs div n * n + aligned"
    by (simp add: aligned_def minus_mod_eq_div_mult algebra_simps)
  moreover have "drop (length xs div n * n + aligned) (xs @ ys) = drop aligned (rest @ ys)"
  proof -
    have "length (take (length xs div n * n) xs) = length xs div n * n" by simp
    then show ?thesis by (subst xs) (simp add: drop_append)
  qed
  ultimately show "drop aligned (rest @ ys) = drop (length (xs @ ys) div n * n) (xs @ ys)" by simp
qed

lemma an_inv_buffer:
  assumes "an_inv W n u" "length b = length (st_transfer_buffer u)" "p < n"
  shows "an_inv W n (u\<lparr>st_transfer_buffer := b, st_pending := p\<rparr>)"
proof -
  have "b \<noteq> []" using assms(1,2) by (auto simp: an_inv_def)
  with assms show ?thesis by (simp add: an_inv_def)
qed

lemma take_exact: "length a = k \<Longrightarrow> take k (a @ b) = a"
  by simp

lemma analyser_process_ok:
  assumes inv: "an_inv W n s" and fol: "an_follows B z n vocs xs s'"
    and s: "s = s'\<lparr>st_transfer_buffer := buf\<rparr>"
    and buf: "take (st_pending s + length ys) buf = drop (length xs div n * n) xs @ ys"
    and fits: "st_pending s + length ys \<le> length buf"
  shows "\<exists>t. analyser_process B z W (length ys) s = Some t \<and> an_inv W n t \<and>
    an_follows B z n vocs (xs @ ys) t \<and> length (st_transfer_buffer t) = length buf"
proof -
  have n: "0 < n" "st_channels s = n" using inv by (simp_all add: an_inv_def)
  define rest where "rest = drop (length xs div n * n) xs"
  define total where "total = st_pending s + length ys"
  define aligned where "aligned = total - total mod n"
  note rem = carried_remainder(1) [OF n(1), where xs = xs, folded rest_def]
    carried_remainder(2,3) [OF n(1), where xs = xs and ys = ys, folded rest_def]
  have pend: "st_pending s = length xs mod n" using fol s by (simp add: an_follows_def)
  have total: "total = length (rest @ ys)" by (simp add: total_def pend rem(1))
  have "total - aligned = total mod n" by (simp add: aligned_def)
  moreover have "total mod n = length (xs @ ys) mod n" using rem(2) by (simp only: total)
  ultimately have al: "aligned \<le> total" "total - aligned = length (xs @ ys) mod n"
    "total - aligned < n" using n(1) by (simp_all add: aligned_def)
  have tb: "take total buf = rest @ ys" using buf by (simp add: total_def rest_def)
  have active: "take aligned buf = take aligned (rest @ ys)"
    by (metis al(1) min.absorb1 take_take tb)
  have str: "strided (take aligned buf) ch n = column n ch (rest @ ys)" if "ch < n" for ch
    using strided_column [OF that, of "rest @ ys"] unfolding active by (simp add: aligned_def total)
  have col: "foldl f v (column n ch (xs @ ys)) = foldl f (foldl f v (column n ch xs)) (column n ch (rest @ ys))"
    for f :: "'f vocoder \<Rightarrow> f32 \<Rightarrow> 'f vocoder" and v ch
    using column_append [OF n(1), of ch xs ys] by (simp add: rest_def)
  have step: "\<exists>u. (if 0 < aligned then analyse B z W aligned s else Some s) = Some u \<and> an_inv W n u \<and>
      st_transfer_buffer u = buf \<and> st_pending u = st_pending s \<and>
      (\<forall>ch < n. st_analysers u ! ch = foldl (sample_step B z) (vocs ! ch) (column n ch (xs @ ys)))"
  proof (cases "0 < aligned")
    case True
    have bl: "aligned \<le> length (st_transfer_buffer s)" using al(1) fits s by (simp add: total_def)
    have buf_s: "st_transfer_buffer s = buf" using s by simp
    from analyse_ok [OF inv bl, of B z] True str fol s show ?thesis
      by (auto simp: buf_s channel_voc_def an_follows_def col)
  next
    case False
    then have "length (rest @ ys) < n" using al by (simp add: total)
    then have "column n ch (rest @ ys) = []" for ch by (rule column_short)
    with False inv fol s show ?thesis by (auto simp: an_follows_def col)
  qed
  then obtain u where u: "(if 0 < aligned then analyse B z W aligned s else Some s) = Some u"
    "an_inv W n u" "st_transfer_buffer u = buf" "st_pending u = st_pending s"
    "\<forall>ch < n. st_analysers u ! ch = foldl (sample_step B z) (vocs ! ch) (column n ch (xs @ ys))"
    by blast
  let ?buf = "take (total - aligned) (drop aligned buf) @ drop (total - aligned) buf"
  let ?t = "u\<lparr>st_transfer_buffer := ?buf, st_pending := total - aligned\<rparr>"
  have proc: "analyser_process B z W (length ys) s = Some ?t"
    using u(3) fits n(1)
    unfolding analyser_process_def Let_def total_def [symmetric] n(2) aligned_def [symmetric] u(1)
    by simp
  have len: "length ?buf = length buf" using al(1) fits by (simp add: total_def)
  have inv_t: "an_inv W n ?t"
    by (rule an_inv_buffer [OF u(2) _ al(3)]) (simp only: len u(3))
  have fol_t: "an_follows B z n vocs (xs @ ys) ?t"
  proof -
    have "take (total - aligned) (drop aligned buf) = drop aligned (take total buf)"
      by (simp add: drop_take)
    also have "\<dots> = drop (length (xs @ ys) div n * n) (xs @ ys)"
      unfolding tb using rem(3) by (simp add: aligned_def total)
    finally have c: "take (total - aligned) (drop aligned buf)
      = drop (length (xs @ ys) div n * n) (xs @ ys)" .
    have "length (take (total - aligned) (drop aligned buf)) = total - aligned"
      using fits al(1) by (simp add: total_def)
    then have "take (total - aligned) ?buf = take (total - aligned) (drop aligned buf)"
      by (rule take_exact)
    then have "take (total - aligned) ?buf = drop (length (xs @ ys) div n * n) (xs @ ys)"
      by (simp only: c)
    with al(2) u(5) show ?thesis by (simp add: an_follows_def)
  qed
  have "length (st_transfer_buffer ?t) = length buf" using len by simp
  with proc inv_t fol_t show ?thesis by (intro exI [of _ ?t] conjI)
qed

section \<open>The loop\<close>

text \<open>
  The documented behaviour of the ring's consumer half. \<open>stream c\<close> is every sample that is still to
  come, delivered or not: a pop takes some prefix of it that fits into the slice. Once the producers
  are gone the ring is \<open>consumer_closed\<close>: it is empty exactly when nothing is to come, and a pop
  takes all that fits.
\<close>

definition consumer_laws :: "'c consumer_ops \<Rightarrow> ('c \<Rightarrow> f32 list) \<Rightarrow> bool" where
  "consumer_laws C stream \<longleftrightarrow> (\<forall>c n. length (snd (cn_pop_slice C c n)) \<le> n \<and>
     stream c = snd (cn_pop_slice C c n) @ stream (fst (cn_pop_slice C c n)))"

definition consumer_closed :: "'c consumer_ops \<Rightarrow> ('c \<Rightarrow> f32 list) \<Rightarrow> bool" where
  "consumer_closed C stream \<longleftrightarrow> (\<forall>c. (cn_is_empty C c \<longleftrightarrow> stream c = []) \<and>
     (\<forall>n. snd (cn_pop_slice C c n) = take n (stream c)))"

lemma an_inv_free: "an_inv W n s \<Longrightarrow> st_pending s < length (st_transfer_buffer s)"
  by (auto simp: an_inv_def dest!: dvd_imp_le)

text \<open>One turn, from what its pop delivered.\<close>

lemma analyser_turn_pop:
  assumes "an_inv W n s" "an_follows B z n vocs xs s"
    and pop: "cn_pop_slice C c (length (st_transfer_buffer s) - st_pending s) = (c', ys)"
    and ys: "length ys \<le> length (st_transfer_buffer s) - st_pending s"
  shows "\<exists>s'. analyser_turn B z W C (s, c) = Some (s', c') \<and> an_inv W n s' \<and>
    an_follows B z n vocs (xs @ ys) s'"
proof -
  have free: "st_pending s < length (st_transfer_buffer s)" by (rule an_inv_free [OF assms(1)])
  define buf where "buf = take (st_pending s) (st_transfer_buffer s) @ ys @
    drop (st_pending s + length ys) (st_transfer_buffer s)"
  let ?s = "s\<lparr>st_transfer_buffer := buf\<rparr>"
  have len: "length buf = length (st_transfer_buffer s)" using ys free by (simp add: buf_def)
  have turn: "analyser_turn B z W C (s, c) = (if ys \<noteq> []
      then map_option (\<lambda>t. (t, c')) (analyser_process B z W (length ys) ?s) else Some (?s, c'))"
    by (simp only: analyser_turn_def prod.case pop Let_def buf_def)
  have inv: "an_inv W n ?s"
    using an_inv_buffer [OF assms(1) len, of "st_pending s"] assms(1) by (simp add: an_inv_def)
  show ?thesis
  proof (cases "ys = []")
    case True
    then have "buf = st_transfer_buffer s" by (simp add: buf_def)
    then have "?s = s" by simp
    with True turn assms(1,2) show ?thesis by simp
  next
    case False
    have "length (take (st_pending s) (st_transfer_buffer s) @ ys) = st_pending s + length ys"
      using free by simp
    then have "take (st_pending s + length ys) buf = take (st_pending s) (st_transfer_buffer s) @ ys"
      unfolding buf_def append_assoc [symmetric] by (rule take_exact)
    moreover have "take (st_pending s) (st_transfer_buffer s) = drop (length xs div n * n) xs"
      using assms(2) unfolding an_follows_def by blast
    ultimately have "take (st_pending ?s + length ys) buf = drop (length xs div n * n) xs @ ys"
      by simp
    moreover have "st_pending ?s + length ys \<le> length buf" using ys len free by simp
    ultimately obtain t where "analyser_process B z W (length ys) ?s = Some t" "an_inv W n t"
      "an_follows B z n vocs (xs @ ys) t"
      using analyser_process_ok [OF inv assms(2) refl] by blast
    with False turn show ?thesis by simp
  qed
qed

lemma analyser_turn_ok:
  assumes "consumer_laws C stream" "an_inv W n s" "an_follows B z n vocs xs s"
  shows "\<exists>s' c' ys. analyser_turn B z W C (s, c) = Some (s', c') \<and> an_inv W n s' \<and>
    an_follows B z n vocs (xs @ ys) s' \<and> stream c = ys @ stream c' \<and>
    ys = snd (cn_pop_slice C c (length (st_transfer_buffer s) - st_pending s))"
proof -
  obtain c' ys where pop: "cn_pop_slice C c (length (st_transfer_buffer s) - st_pending s) = (c', ys)"
    by (cases "cn_pop_slice C c (length (st_transfer_buffer s) - st_pending s)")
  have ys: "length ys \<le> length (st_transfer_buffer s) - st_pending s" "stream c = ys @ stream c'"
    using assms(1) pop unfolding consumer_laws_def by (metis fst_conv snd_conv)+
  from analyser_turn_pop [OF assms(2,3) pop ys(1)] ys(2) pop show ?thesis by auto
qed

lemma analyser_turns_ok:
  assumes "consumer_laws C stream"
  shows "an_inv W n s \<Longrightarrow> an_follows B z n vocs xs s \<Longrightarrow>
    \<exists>s' c' ys. analyser_turns B z W C k (s, c) = Some (s', c') \<and> an_inv W n s' \<and>
      an_follows B z n vocs (xs @ ys) s' \<and> stream c = ys @ stream c'"
proof (induction k arbitrary: s c xs)
  case 0
  then show ?case by (auto intro!: exI [of _ "[]"])
next
  case (Suc k)
  from analyser_turn_ok [OF assms Suc.prems, of c] obtain s1 c1 ys where
    1: "analyser_turn B z W C (s, c) = Some (s1, c1)" "an_inv W n s1"
      "an_follows B z n vocs (xs @ ys) s1" "stream c = ys @ stream c1" by blast
  from Suc.IH [OF 1(2,3), of c1] obtain s2 c2 zs where
    "analyser_turns B z W C k (s1, c1) = Some (s2, c2)" "an_inv W n s2"
    "an_follows B z n vocs ((xs @ ys) @ zs) s2" "stream c1 = zs @ stream c2" by blast
  with 1 show ?case by (auto intro!: exI [of _ "ys @ zs"])
qed

lemma analyser_drain_ok:
  assumes "consumer_laws C stream" "consumer_closed C stream"
  shows "an_inv W n s \<Longrightarrow> an_follows B z n vocs xs s \<Longrightarrow>
    \<exists>s' c'. analyser_drain B z W C (s, c) = Some (s', c') \<and> stream c' = [] \<and> an_inv W n s' \<and>
      an_follows B z n vocs (xs @ stream c) s'"
proof (induction "length (stream c)" arbitrary: s c xs rule: less_induct)
  case less
  show ?case
  proof (cases "stream c = []")
    case True
    then have "cn_is_empty C c" using assms(2) by (simp add: consumer_closed_def)
    with True less.prems show ?thesis by (subst analyser_drain.simps) simp
  next
    case False
    then have ne: "\<not> cn_is_empty C c" using assms(2) by (simp add: consumer_closed_def)
    from analyser_turn_ok [OF assms(1) less.prems, of c] obtain s1 c1 ys where
      1: "analyser_turn B z W C (s, c) = Some (s1, c1)" "an_inv W n s1"
        "an_follows B z n vocs (xs @ ys) s1" "stream c = ys @ stream c1"
        "ys = snd (cn_pop_slice C c (length (st_transfer_buffer s) - st_pending s))" by blast
    have "ys = take (length (st_transfer_buffer s) - st_pending s) (stream c)"
      using assms(2) unfolding consumer_closed_def 1(5) by blast
    then have "ys \<noteq> []" using False an_inv_free [OF less.prems(1)] by (simp add: take_eq_Nil)
    then have "length (stream c1) < length (stream c)" by (simp add: 1(4))
    from less.hyps [OF this 1(2,3)] obtain s2 c2 where
      "analyser_drain B z W C (s1, c1) = Some (s2, c2)" "stream c2 = []" "an_inv W n s2"
      "an_follows B z n vocs ((xs @ ys) @ stream c1) s2" by blast
    then show ?thesis using ne 1(1)
      by (subst analyser_drain.simps) (simp add: 1(4))
  qed
qed

lemma column_Nil [simp]: "0 < n \<Longrightarrow> column n ch [] = []"
  by (simp add: column_short)

lemma analyser_new_ok:
  assumes "analyser_new nv sp tx cfg = Some s" "watch_laws W"
    and "length (rp_channels (w_borrow W tx)) = unat (sp_channels sp)"
    and "samples_for_ms sp CHUNK_SIZE_MS \<noteq> 0"
  shows "an_inv W (unat (sp_channels sp)) s \<and>
    an_follows B z (unat (sp_channels sp)) (st_analysers s) [] s"
proof -
  let ?n = "unat (sp_channels sp)"
  have n: "?n \<noteq> 0" using assms(1) by (auto simp: analyser_new_def Let_def split: if_splits)
  obtain len voc where lv: "frame_aligned_samples_for_ms sp CHUNK_SIZE_MS = Some len"
    "nv (unat (sp_sample_rate sp)) cfg = Some voc"
    using assms(1) n by (auto simp: analyser_new_def Let_def split: Option.bind_splits)
  have "len = div_ceil (samples_for_ms sp CHUNK_SIZE_MS) ?n * ?n"
    using lv(1) n by (simp add: frame_aligned_samples_for_ms_def Let_def)
  moreover have "samples_for_ms sp CHUNK_SIZE_MS \<le> div_ceil (samples_for_ms sp CHUNK_SIZE_MS) ?n * ?n"
    using n by (intro div_ceil_ge) simp
  ultimately have "?n dvd len" "samples_for_ms sp CHUNK_SIZE_MS \<le> len" by simp_all
  moreover from this(2) assms(4) have "0 < len" by (metis gr0I le_zero_eq)
  moreover have "s = \<lparr>st_channels = ?n, st_transfer_buffer = replicate len 0, st_pending = 0,
      st_frame_data = raw_payload_new ?n, st_raw_tx = tx, st_analysers = replicate ?n voc,
      st_mapper_gone_logged = False, st_warnings = 0\<rparr>"
    using assms(1) n lv by (simp add: analyser_new_def Let_def)
  ultimately show ?thesis using assms(2,3) n by (simp add: an_inv_def an_follows_def)
qed

section \<open>Properties\<close>

text \<open>
  Claim C3. Chunking does not matter. However the ring delivers the stream, in pieces that end in
  the middle of a frame or not, after any number of turns the thread has not panicked, the carried
  remainder is the torn frame at the end, each channel's analyser is in the state of one pass over
  that channel's samples of the whole frames, and the dropped-mapper warning was logged at most once.
\<close>

theorem analyser_chunking:
  assumes "consumer_laws C stream" "watch_laws W"
    and "analyser_new nv sp tx cfg = Some s0" "samples_for_ms sp CHUNK_SIZE_MS \<noteq> 0"
    and "length (rp_channels (w_borrow W tx)) = unat (sp_channels sp)"
  shows "\<exists>s c' xs. analyser_turns B z W C k (s0, c) = Some (s, c') \<and> stream c = xs @ stream c' \<and>
    st_pending s = length xs mod unat (sp_channels sp) \<and> st_warnings s \<le> 1 \<and>
    (\<forall>ch < unat (sp_channels sp). st_analysers s ! ch =
      foldl (sample_step B z) (st_analysers s0 ! ch) (column (unat (sp_channels sp)) ch xs))"
proof -
  note start = analyser_new_ok [OF assms(3,2,5,4), of B z]
  obtain s c' ys where "analyser_turns B z W C k (s0, c) = Some (s, c')"
    and inv: "an_inv W (unat (sp_channels sp)) s"
    and fol: "an_follows B z (unat (sp_channels sp)) (st_analysers s0) ([] @ ys) s"
    and "stream c = ys @ stream c'"
    using analyser_turns_ok [OF assms(1) conjunct1 [OF start] conjunct2 [OF start], of k c] by blast
  moreover have "st_warnings s \<le> 1" using inv by (simp add: an_inv_def)
  ultimately show ?thesis
    using fol by (intro exI [of _ s] exI [of _ c'] exI [of _ ys]) (simp add: an_follows_def)
qed

text \<open>
  Claim C12. Shutdown drains. Whenever the run is stopped, after any number of turns over any ring and
  so with any torn frame carried, and whatever the ring holds then: with the producers gone the loop
  ends, without a panic, with the ring empty; every channel's analyser is in the state of one pass
  over its samples of all whole frames that were delivered before the stop and drained after it,
  the frame that was torn between the two included; and only the torn rest of the stream is left.
\<close>

theorem analyser_drain_consumes_all:
  assumes "consumer_laws C stream" "consumer_laws D rest" "consumer_closed D rest" "watch_laws W"
    and "analyser_new nv sp tx cfg = Some s0" "samples_for_ms sp CHUNK_SIZE_MS \<noteq> 0"
    and "length (rp_channels (w_borrow W tx)) = unat (sp_channels sp)"
    and "analyser_turns B z W C k (s0, c) = Some (s1, c1)"
  shows "\<exists>s d' xs. stream c = xs @ stream c1 \<and> analyser_drain B z W D (s1, d) = Some (s, d') \<and> rest d' = [] \<and>
    st_pending s = (length xs + length (rest d)) mod unat (sp_channels sp) \<and> st_warnings s \<le> 1 \<and>
    take (st_pending s) (st_transfer_buffer s) =
      drop ((length xs + length (rest d)) div unat (sp_channels sp) * unat (sp_channels sp)) (xs @ rest d) \<and>
    (\<forall>ch < unat (sp_channels sp). st_analysers s ! ch =
      foldl (sample_step B z) (st_analysers s0 ! ch) (column (unat (sp_channels sp)) ch (xs @ rest d)))"
proof -
  note start = analyser_new_ok [OF assms(5,4,7,6), of B z]
  from analyser_turns_ok [OF assms(1) conjunct1 [OF start] conjunct2 [OF start], of k c] assms(8)
  obtain xs where 1: "stream c = xs @ stream c1" "an_inv W (unat (sp_channels sp)) s1"
    "an_follows B z (unat (sp_channels sp)) (st_analysers s0) xs s1" by auto
  from analyser_drain_ok [OF assms(2,3) 1(2,3), of d] obtain s d' where
    2: "analyser_drain B z W D (s1, d) = Some (s, d')" "rest d' = []" "an_inv W (unat (sp_channels sp)) s"
      "an_follows B z (unat (sp_channels sp)) (st_analysers s0) (xs @ rest d) s" by blast
  from 2(3) have "st_warnings s \<le> 1" by (simp add: an_inv_def)
  with 1(1) 2(1,2) 2(4) [unfolded an_follows_def length_append] show ?thesis by blast
qed

text \<open>
  What a frame publishes. With a live mapper the watch channel holds, for each analysed
  channel, the peak of this block and the vocoder's bins at its end; with a dropped mapper the
  channel is left alone and the warning is logged the first time only.
\<close>

lemma analyse_publishes:
  assumes "an_inv W n s" "count \<le> length (st_transfer_buffer s)"
  shows "\<exists>s'. analyse B z W count s = Some s' \<and>
    (if w_is_closed W (st_raw_tx s) then st_raw_tx s' = st_raw_tx s \<and> st_mapper_gone_logged s' \<and>
       st_warnings s' = (if st_mapper_gone_logged s then st_warnings s else st_warnings s + 1)
     else st_warnings s' = st_warnings s \<and>
       (\<forall>ch < n. interleaved_peak z (take count (st_transfer_buffer s)) ch n =
           Some (cl_peak (rp_channels (w_borrow W (st_raw_tx s')) ! ch)) \<and>
         cl_bins (rp_channels (w_borrow W (st_raw_tx s')) ! ch) = current_bins (st_analysers s' ! ch)))"
proof -
  define active where "active = take count (st_transfer_buffer s)"
  let ?s = "s\<lparr>st_analysers := map (channel_voc B z active n (st_analysers s)) [0..<n],
     st_frame_data := \<lparr>rp_channels = map (channel_out B z active n (st_analysers s)) [0..<n]\<rparr>\<rparr>"
  have n: "0 < n" "st_channels s = n" using assms(1) by (simp_all add: an_inv_def)
  have "analyse_channels B z active [0..<n] s = Some ?s"
    using assms(1) by (subst analyse_channels_upto [of s n n]) (auto simp: an_inv_def)
  then have s': "analyse B z W count s = Some (publish_frame W ?s)"
    using assms(2) n by (simp add: analyse_def active_def)
  obtain t old where sr: "w_send_replace W (st_raw_tx s) (st_frame_data ?s) = (t, old)"
    by (cases "w_send_replace W (st_raw_tx s) (st_frame_data ?s)")
  then have "w_borrow W t = st_frame_data ?s"
    using assms(1) unfolding an_inv_def watch_laws_def by (metis fst_conv)
  moreover have "interleaved_peak z active ch n = Some (foldl (peak_step z) 0 (strided active ch n))" for ch
    using n by (simp add: interleaved_peak_def strided_loop_foldl)
  ultimately show ?thesis
    unfolding active_def [symmetric]
    by (intro exI [of _ "publish_frame W ?s"] conjI s')
      (use sr in \<open>simp add: publish_frame_def channel_out_def\<close>)
qed

text \<open>A ring that is a list, two channels at 300 Hz, the pass-through bank.\<close>

definition list_consumer :: "f32 list consumer_ops" where
  "list_consumer = \<lparr>cn_is_empty = (\<lambda>c. c = []), cn_pop_slice = (\<lambda>c n. (drop n c, take n c))\<rparr>"

lemma list_consumer_laws:
  "consumer_laws list_consumer (\<lambda>c. c)" "consumer_closed list_consumer (\<lambda>c. c)"
  by (simp_all add: list_consumer_def consumer_laws_def consumer_closed_def)

definition demo_specs :: specs where
  "demo_specs = \<lparr>sp_channels = 2, sp_sample_rate = 300\<rparr>"

definition demo_analyser :: "(unit, raw_payload) analyser_state option" where
  "demo_analyser = analyser_new (\<lambda>_ _. Some demo_bank) demo_specs (raw_payload_new 2) vocoder_config_default"

lemma demo_facts:
  "samples_for_ms demo_specs CHUNK_SIZE_MS \<noteq> 0"
  "length (rp_channels (w_borrow cell_watch (raw_payload_new 2))) = unat (sp_channels demo_specs)"
  "unat (sp_channels demo_specs) = 2"
  by (simp_all add: samples_for_ms_exact demo_specs_def CHUNK_SIZE_MS_def)

lemma demo_analyser_Some: "\<exists>s. demo_analyser = Some s \<and> st_analysers s = [demo_bank, demo_bank] \<and> an_inv cell_watch 2 s"
proof -
  obtain len where "frame_aligned_samples_for_ms demo_specs CHUNK_SIZE_MS = Some len"
    by (simp add: frame_aligned_samples_for_ms_def demo_specs_def)
  then obtain s where s: "demo_analyser = Some s" "st_analysers s = [demo_bank, demo_bank]"
    using demo_facts(3) by (simp add: demo_analyser_def analyser_new_def Let_def numeral_2_eq_2)
  from analyser_new_ok [OF s(1) [unfolded demo_analyser_def] cell_watch_laws demo_facts(2,1)]
  have "an_inv cell_watch 2 s" unfolding demo_facts(3) by blast
  with s show ?thesis by blast
qed

theorem analyser_chunking_witness:
  "\<exists>s0 s c' xs. demo_analyser = Some s0 \<and>
    analyser_turns pass_ops True cell_watch list_consumer 3 (s0, [1, 2, 3, 4, 5, 6, 7, 8, 9]) = Some (s, c') \<and>
    [1, 2, 3, 4, 5, 6, 7, 8, 9] = xs @ c' \<and> st_pending s = length xs mod 2 \<and> st_warnings s \<le> 1"
proof -
  obtain s0 where s0: "demo_analyser = Some s0" using demo_analyser_Some by blast
  from analyser_chunking [OF list_consumer_laws(1) cell_watch_laws s0 [unfolded demo_analyser_def] demo_facts(1,2),
      of pass_ops True 3 "[1, 2, 3, 4, 5, 6, 7, 8, 9]"] s0
  show ?thesis unfolding demo_facts(3) by blast
qed

theorem analyser_drain_consumes_all_witness:
  "\<exists>s0 s1 s. demo_analyser = Some s0 \<and>
    analyser_turns pass_ops False cell_watch list_consumer 1 (s0, [1, 2, 3]) = Some (s1, []) \<and>
    analyser_drain pass_ops False cell_watch list_consumer (s1, [4, 5, 6, 7, 8, 9]) = Some (s, []) \<and>
    st_pending s = 1 \<and> st_analysers s ! 1 = foldl (sample_step pass_ops False) (st_analysers s0 ! 1)
      (column 2 1 [1, 2, 3, 4, 5, 6, 7, 8, 9])"
proof -
  obtain s0 where s0: "demo_analyser = Some s0" "an_inv cell_watch 2 s0" using demo_analyser_Some by blast
  have buf: "length (st_transfer_buffer s0) = 6" "st_pending s0 = 0"
    using s0(1) by (auto simp: demo_analyser_def analyser_new_def demo_specs_def Let_def
      frame_aligned_samples_for_ms_def samples_for_ms_exact CHUNK_SIZE_MS_def div_ceil_def split: Option.bind_splits)
  have inv: "an_follows pass_ops False 2 (st_analysers s0) [] s0"
    using s0(2) buf(2) by (simp add: an_follows_def an_inv_def)
  from analyser_turn_ok [OF list_consumer_laws(1) s0(2) inv, of "[1, 2, 3]"] obtain s1 c1 where
    turn: "analyser_turn pass_ops False cell_watch list_consumer (s0, [1, 2, 3]) = Some (s1, c1)"
    "[1, 2, 3] = snd (cn_pop_slice list_consumer [1, 2, 3] (length (st_transfer_buffer s0) - st_pending s0)) @ c1"
    by metis
  then have "c1 = []" by (simp add: buf list_consumer_def)
  with turn(1) have turns: "analyser_turns pass_ops False cell_watch list_consumer 1 (s0, [1, 2, 3]) = Some (s1, [])"
    by simp
  from analyser_drain_consumes_all [OF list_consumer_laws(1) list_consumer_laws cell_watch_laws
      s0(1) [unfolded demo_analyser_def] demo_facts(1,2) turns, of "[4, 5, 6, 7, 8, 9]"]
  show ?thesis using s0(1) turns unfolding demo_facts(3) by auto
qed

lemma analyse_publishes_witness:
  "\<exists>s0 s. demo_analyser = Some s0 \<and> analyse pass_ops True cell_watch 2 s0 = Some s \<and>
     st_warnings s = st_warnings s0 \<and>
     cl_bins (rp_channels (st_raw_tx s) ! 1) = current_bins (st_analysers s ! 1)"
proof -
  obtain s0 where s0: "demo_analyser = Some s0" "an_inv cell_watch 2 s0" using demo_analyser_Some by blast
  have "2 \<le> length (st_transfer_buffer s0)"
    using s0(2) by (auto simp: an_inv_def dest: dvd_imp_le)
  from analyse_publishes [OF s0(2) this, of pass_ops True] s0(1) show ?thesis by auto
qed

end
