(* ===== verification/App_State.thy ===== *)
theory App_State
  imports Prelude
begin

text \<open>
  The shared state of \<^verbatim>\<open>src/src/app.rs\<close>: the run flag, the MIDI atomics and the recorded stream
  error. Each operation here is one atomic access or one critical section of its mutex; memory
  accesses are sequentially consistent in the model.
\<close>

record app_state =
  as_keep_running :: bool
  as_midi_last_transport :: u8
  as_midi_steps :: u32
  as_midi_transport_count :: u32
  as_midi_transport_latest :: u8
  as_hardware_stream_error :: "rstring option"

definition app_state_default :: app_state where
  "app_state_default =
     \<lparr>as_keep_running = True, as_midi_last_transport = 0, as_midi_steps = 0,
      as_midi_transport_count = 0, as_midi_transport_latest = 0, as_hardware_stream_error = None\<rparr>"

text \<open>\<^verbatim>\<open>get_or_insert\<close> keeps the first message; the flag is cleared afterwards.\<close>

definition fail_hardware_stream :: "rstring \<Rightarrow> app_state \<Rightarrow> app_state" where
  "fail_hardware_stream message s =
     (let s' = s\<lparr>as_hardware_stream_error :=
          Some (case as_hardware_stream_error s of Some m \<Rightarrow> m | None \<Rightarrow> message)\<rparr>
      in s'\<lparr>as_keep_running := False\<rparr>)"

definition take_hardware_stream_error :: "app_state \<Rightarrow> app_state \<times> rstring option" where
  "take_hardware_stream_error s =
     (s\<lparr>as_hardware_stream_error := None\<rparr>, as_hardware_stream_error s)"

lemma fail_hardware_stream_twice [simp]:
  "as_hardware_stream_error (fail_hardware_stream m2 (fail_hardware_stream m1 s)) =
   as_hardware_stream_error (fail_hardware_stream m1 s)"
  by (simp add: fail_hardware_stream_def Let_def)

lemma fail_hardware_stream_stops [simp]: "\<not> as_keep_running (fail_hardware_stream m s)"
  by (simp add: fail_hardware_stream_def Let_def)

end
