(* ===== verification/Midi.thy ===== *)
theory Midi
  imports App_State Payload
begin

text \<open>
  MIDI input, \<^verbatim>\<open>src/src/managers/midi.rs\<close>, with the snapshot the mapper takes of it
  (\<^verbatim>\<open>read_midi_snapshot\<close> of \<^verbatim>\<open>src/src/managers/mapper.rs\<close>). A status byte is a short program of
  atomic accesses; run without interruption it is \<open>record_byte\<close>, and the machine at the end of the
  theory interleaves the accesses of the two threads.
\<close>

section \<open>Constants\<close>

definition MIDI_CLOCK_TICKS_PER_STEP :: u8 where
  "MIDI_CLOCK_TICKS_PER_STEP = 6"

definition MIDI_STATUS_TIMING_CLOCK :: u8 where
  "MIDI_STATUS_TIMING_CLOCK = 0xF8"

definition MIDI_STATUS_START :: u8 where
  "MIDI_STATUS_START = 0xFA"

definition MIDI_STATUS_CONTINUE :: u8 where
  "MIDI_STATUS_CONTINUE = 0xFB"

definition MIDI_STATUS_STOP :: u8 where
  "MIDI_STATUS_STOP = 0xFC"

definition MIDI_TRANSPORT_NONE :: u8 where
  "MIDI_TRANSPORT_NONE = 0"

definition MIDI_TRANSPORT_START :: u8 where
  "MIDI_TRANSPORT_START = 1"

definition MIDI_TRANSPORT_STOP :: u8 where
  "MIDI_TRANSPORT_STOP = 2"

definition MIDI_TRANSPORT_CONTINUE :: u8 where
  "MIDI_TRANSPORT_CONTINUE = 3"

lemmas midi_status = MIDI_STATUS_TIMING_CLOCK_def MIDI_STATUS_START_def MIDI_STATUS_CONTINUE_def
  MIDI_STATUS_STOP_def
lemmas midi_transport = MIDI_TRANSPORT_NONE_def MIDI_TRANSPORT_START_def MIDI_TRANSPORT_STOP_def
  MIDI_TRANSPORT_CONTINUE_def

section \<open>Status bytes\<close>

text \<open>One atomic access of the MIDI thread.\<close>

datatype midi_op =
    StoreSteps u32
  | AddStep
  | StoreLast u8
  | StoreLatest u8
  | AddCount

fun midi_op_run :: "midi_op \<Rightarrow> app_state \<Rightarrow> app_state" where
  "midi_op_run (StoreSteps n) s = s\<lparr>as_midi_steps := n\<rparr>"
| "midi_op_run AddStep s = s\<lparr>as_midi_steps := as_midi_steps s + 1\<rparr>"
| "midi_op_run (StoreLast c) s = s\<lparr>as_midi_last_transport := c\<rparr>"
| "midi_op_run (StoreLatest c) s = s\<lparr>as_midi_transport_latest := c\<rparr>"
| "midi_op_run AddCount s = s\<lparr>as_midi_transport_count := as_midi_transport_count s + 1\<rparr>"

definition record_transport_ops :: "u8 \<Rightarrow> midi_op list" where
  "record_transport_ops code = [StoreLast code, StoreLatest code, AddCount]"

text \<open>The accesses of one byte and the private tick counter after it.\<close>

definition record_byte_ops :: "u8 \<Rightarrow> u8 \<Rightarrow> midi_op list \<times> u8" where
  "record_byte_ops byte ticks =
     (if byte = MIDI_STATUS_START then (StoreSteps 0 # record_transport_ops MIDI_TRANSPORT_START, 0)
      else if byte = MIDI_STATUS_STOP then (record_transport_ops MIDI_TRANSPORT_STOP, ticks)
      else if byte = MIDI_STATUS_CONTINUE then (record_transport_ops MIDI_TRANSPORT_CONTINUE, ticks)
      else if byte = MIDI_STATUS_TIMING_CLOCK then
        (let t = ticks + 1 in if MIDI_CLOCK_TICKS_PER_STEP \<le> t then ([AddStep], 0) else ([], t))
      else ([], ticks))"

definition record_byte :: "u8 \<Rightarrow> app_state \<times> u8 \<Rightarrow> app_state \<times> u8" where
  "record_byte byte st = (case st of (s, ticks) \<Rightarrow>
     case record_byte_ops byte ticks of (ops, t) \<Rightarrow> (fold midi_op_run ops s, t))"

text \<open>The device callback: every byte of a message, in order.\<close>

definition record_bytes :: "u8 list \<Rightarrow> app_state \<times> u8 \<Rightarrow> app_state \<times> u8" where
  "record_bytes bytes st = fold record_byte bytes st"

text \<open>
  The specification: what the state is as a function of the bytes received so far. Ticks count
  from the last Start, or from the beginning; the tick counter and the step count are its remainder
  and quotient by six, the latter on 32 bits.
\<close>

fun ticks_since :: "nat \<Rightarrow> u8 list \<Rightarrow> nat" where
  "ticks_since k [] = k"
| "ticks_since k (b # bs) =
     ticks_since (if b = MIDI_STATUS_START then 0 else if b = MIDI_STATUS_TIMING_CLOCK then k + 1 else k) bs"

definition transport_code :: "u8 \<Rightarrow> u8 option" where
  "transport_code b =
     (if b = MIDI_STATUS_START then Some MIDI_TRANSPORT_START
      else if b = MIDI_STATUS_STOP then Some MIDI_TRANSPORT_STOP
      else if b = MIDI_STATUS_CONTINUE then Some MIDI_TRANSPORT_CONTINUE
      else None)"

definition transport_events :: "u8 list \<Rightarrow> u8 list" where
  "transport_events bs = List.map_filter transport_code bs"

lemma tick_step:
  fixes t :: u8
  assumes "unat t = k mod 6"
  shows "6 \<le> t + 1 \<longleftrightarrow> Suc k mod 6 = 0" "\<not> 6 \<le> t + 1 \<Longrightarrow> unat (t + 1) = Suc k mod 6"
proof -
  have lt: "k mod 6 < 6" by simp
  then have u: "unat (t + 1) = Suc (k mod 6)" using assms
    by (simp add: unat_word_ariths)
  have "6 \<le> t + 1 \<longleftrightarrow> 6 \<le> Suc (k mod 6)" unfolding word_le_nat_alt u by simp
  also have "\<dots> \<longleftrightarrow> k mod 6 = 5" using lt by linarith
  also have "\<dots> \<longleftrightarrow> Suc k mod 6 = 0" by (simp add: mod_Suc)
  finally show "6 \<le> t + 1 \<longleftrightarrow> Suc k mod 6 = 0" .
  show "unat (t + 1) = Suc k mod 6" if "\<not> 6 \<le> t + 1"
    using that u \<open>(6 \<le> t + 1) = (6 \<le> Suc (k mod 6))\<close> by (simp add: mod_Suc)
qed

definition midi_tracks :: "nat \<Rightarrow> app_state \<times> u8 \<Rightarrow> bool" where
  "midi_tracks k st \<longleftrightarrow> unat (snd st) = k mod 6 \<and> as_midi_steps (fst st) = of_nat (k div 6)"

lemma fold_transport [simp]:
  "fold midi_op_run (record_transport_ops c) s = s\<lparr>as_midi_last_transport := c,
     as_midi_transport_latest := c, as_midi_transport_count := as_midi_transport_count s + 1\<rparr>"
  by (simp add: record_transport_ops_def)

lemma record_byte_tracks:
  assumes "midi_tracks k st"
  shows "midi_tracks (ticks_since k [b]) (record_byte b st)"
proof -
  obtain s t where st: "st = (s, t)" by (cases st)
  have t: "unat t = k mod 6" "as_midi_steps s = of_nat (k div 6)"
    using assms by (simp_all add: midi_tracks_def st)
  show ?thesis
  proof (cases "b = MIDI_STATUS_TIMING_CLOCK")
    case True
    then have b: "b \<noteq> MIDI_STATUS_START" "b \<noteq> MIDI_STATUS_STOP" "b \<noteq> MIDI_STATUS_CONTINUE"
      by (simp_all add: midi_status)
    show ?thesis
    proof (cases "6 \<le> t + 1")
      case clock: True
      then have "Suc k mod 6 = 0" using tick_step(1) [OF t(1)] by simp
      then have "Suc k div 6 = Suc (k div 6)" by (simp add: div_Suc)
      with clock b True t \<open>Suc k mod 6 = 0\<close> show ?thesis
        by (simp add: midi_tracks_def record_byte_def record_byte_ops_def st MIDI_CLOCK_TICKS_PER_STEP_def
            add.commute)
    next
      case False
      note m = tick_step [OF t(1)]
      have "Suc k div 6 = k div 6" using m(1) False by (simp add: div_Suc)
      with False b True t m(2) show ?thesis
        by (simp add: midi_tracks_def record_byte_def record_byte_ops_def st MIDI_CLOCK_TICKS_PER_STEP_def)
    qed
  next
    case False
    with t show ?thesis
      by (simp add: midi_tracks_def record_byte_def record_byte_ops_def st)
  qed
qed

lemma ticks_since_Cons: "ticks_since k (b # bs) = ticks_since (ticks_since k [b]) bs"
  by simp

lemma record_bytes_tracks:
  "midi_tracks k st \<Longrightarrow> midi_tracks (ticks_since k bs) (record_bytes bs st)"
proof (induction bs arbitrary: k st)
  case (Cons b bs)
  from Cons.IH [OF record_byte_tracks [OF Cons.prems], of b] show ?case
    by (simp add: record_bytes_def)
qed (simp add: record_bytes_def)

lemma record_byte_transport:
  "as_midi_transport_count (fst (record_byte b st)) =
     as_midi_transport_count (fst st) + of_nat (length (transport_events [b]))"
  "as_midi_transport_latest (fst (record_byte b st)) =
     last (as_midi_transport_latest (fst st) # transport_events [b])"
  "as_midi_last_transport (fst (record_byte b st)) =
     last (as_midi_last_transport (fst st) # transport_events [b])"
  by (auto simp: record_byte_def record_byte_ops_def transport_events_def transport_code_def
      map_filter_simps midi_status Let_def split: prod.splits if_splits)

lemma transport_events_Cons: "transport_events (b # bs) = transport_events [b] @ transport_events bs"
  by (simp add: transport_events_def map_filter_simps split: option.splits)

lemma last_Cons_append: "last (x # ys @ zs) = last (last (x # ys) # zs)"
  by (cases zs) auto

lemma record_bytes_transport:
  "as_midi_transport_count (fst (record_bytes bs st)) =
     as_midi_transport_count (fst st) + of_nat (length (transport_events bs)) \<and>
   as_midi_transport_latest (fst (record_bytes bs st)) =
     last (as_midi_transport_latest (fst st) # transport_events bs) \<and>
   as_midi_last_transport (fst (record_bytes bs st)) =
     last (as_midi_last_transport (fst st) # transport_events bs)"
proof (induction bs arbitrary: st)
  case Nil
  show ?case by (simp add: record_bytes_def transport_events_def map_filter_simps)
next
  case (Cons b bs)
  from Cons.IH [of "record_byte b st"] show ?case
    unfolding transport_events_Cons [of b bs] last_Cons_append
    by (simp only: record_bytes_def fold_Cons o_apply record_byte_transport length_append of_nat_add
        add.assoc)
qed

text \<open>
  Claim C13. The MIDI atomics after any byte stream: the step count is the number of clock ticks
  since the last Start divided by six, on 32 bits, the private counter is the remainder and never
  reaches six, and the transport atomics hold the number of transport events and the latest of them;
  every other byte is ignored.
\<close>

theorem midi_stream_meaning:
  "case record_bytes bs (app_state_default, 0) of (s, ticks) \<Rightarrow>
     as_midi_steps s = of_nat (ticks_since 0 bs div 6) \<and> unat ticks = ticks_since 0 bs mod 6 \<and>
     as_midi_transport_count s = of_nat (length (transport_events bs)) \<and>
     as_midi_transport_latest s = last (MIDI_TRANSPORT_NONE # transport_events bs) \<and>
     as_midi_last_transport s = last (MIDI_TRANSPORT_NONE # transport_events bs)"
proof -
  have "midi_tracks 0 (app_state_default, 0)" by (simp add: midi_tracks_def app_state_default_def)
  from record_bytes_tracks [OF this, of bs] record_bytes_transport [of bs "(app_state_default, 0)"]
  show ?thesis
    by (auto simp: midi_tracks_def app_state_default_def MIDI_TRANSPORT_NONE_def split: prod.splits)
qed

section \<open>The mapper's snapshot\<close>

definition transport_code_to_str :: "u8 \<Rightarrow> string option" where
  "transport_code_to_str code =
     (if code = MIDI_TRANSPORT_START then Some ''start''
      else if code = MIDI_TRANSPORT_STOP then Some ''stop''
      else if code = MIDI_TRANSPORT_CONTINUE then Some ''continue''
      else None)"

text \<open>The two accesses of \<^verbatim>\<open>read_midi_snapshot\<close>, a swap and a load, and the whole of it.\<close>

definition swap_transport :: "app_state \<Rightarrow> app_state \<times> u8" where
  "swap_transport s = (s\<lparr>as_midi_last_transport := MIDI_TRANSPORT_NONE\<rparr>, as_midi_last_transport s)"

definition snapshot_of :: "u8 \<Rightarrow> app_state \<Rightarrow> midi_snapshot" where
  "snapshot_of code s = \<lparr>ms_transport = transport_code_to_str code, ms_steps = as_midi_steps s\<rparr>"

definition read_midi_snapshot :: "app_state \<Rightarrow> bool \<Rightarrow> app_state \<times> midi_snapshot option" where
  "read_midi_snapshot s midi_enabled =
     (if \<not> midi_enabled then (s, None)
      else case swap_transport s of (s', code) \<Rightarrow> (s', Some (snapshot_of code s')))"

section \<open>The two threads interleaved\<close>

text \<open>
  The MIDI thread runs the accesses of one byte after the other; the mapper may take its swap and
  its load anywhere in between. The last fields are history: how many Start bytes were taken, how
  many resets of the step count were executed and how many steps were added since, which Start wrote
  the last transport, which one the mapper's swap saw, and what each snapshot was made of.
\<close>

record snapshot_trace =
  sn_snapshot :: midi_snapshot
  sn_start :: nat
  sn_resets :: nat
  sn_adds :: nat

record midi_machine =
  mm_app :: app_state
  mm_ops :: "midi_op list"
  mm_ticks :: u8
  mm_swapped :: "u8 option"
  mm_starts :: nat
  mm_resets :: nat
  mm_adds :: nat
  mm_last_start :: nat
  mm_seen :: nat
  mm_out :: "snapshot_trace list"

fun midi_ghost :: "midi_op \<Rightarrow> midi_machine \<Rightarrow> midi_machine" where
  "midi_ghost (StoreSteps n) m = m\<lparr>mm_resets := mm_resets m + 1, mm_adds := 0\<rparr>"
| "midi_ghost AddStep m = m\<lparr>mm_adds := mm_adds m + 1\<rparr>"
| "midi_ghost (StoreLast c) m = m\<lparr>mm_last_start := mm_starts m\<rparr>"
| "midi_ghost op m = m"

definition midi_init :: "midi_machine \<Rightarrow> bool" where
  "midi_init m \<longleftrightarrow> m = \<lparr>mm_app = app_state_default, mm_ops = [], mm_ticks = 0, mm_swapped = None,
     mm_starts = 0, mm_resets = 0, mm_adds = 0, mm_last_start = 0, mm_seen = 0, mm_out = []\<rparr>"

inductive midi_step :: "midi_machine \<Rightarrow> midi_machine \<Rightarrow> bool" where
  midi_byte: "mm_ops m = [] \<Longrightarrow> record_byte_ops b (mm_ticks m) = (ops, t) \<Longrightarrow>
    midi_step m (m\<lparr>mm_ops := ops, mm_ticks := t,
      mm_starts := (if b = MIDI_STATUS_START then mm_starts m + 1 else mm_starts m)\<rparr>)"
| midi_access: "mm_ops m = op # ops \<Longrightarrow>
    midi_step m (midi_ghost op (m\<lparr>mm_app := midi_op_run op (mm_app m), mm_ops := ops\<rparr>))"
| mapper_swap: "mm_swapped m = None \<Longrightarrow> swap_transport (mm_app m) = (s, c) \<Longrightarrow>
    midi_step m (m\<lparr>mm_app := s, mm_swapped := Some c, mm_seen := mm_last_start m\<rparr>)"
| mapper_load: "mm_swapped m = Some c \<Longrightarrow>
    midi_step m (m\<lparr>mm_swapped := None,
      mm_out := \<lparr>sn_snapshot = snapshot_of c (mm_app m), sn_start = mm_seen m,
        sn_resets = mm_resets m, sn_adds = mm_adds m\<rparr> # mm_out m\<rparr>)"

inductive_cases midi_stepE: "midi_step m m'"

text \<open>The Start events reported so far, latest first.\<close>

definition is_start :: "snapshot_trace \<Rightarrow> bool" where
  "is_start t \<longleftrightarrow> ms_transport (sn_snapshot t) = Some ''start''"

definition reported :: "midi_machine \<Rightarrow> nat list" where
  "reported m = (if mm_swapped m = Some MIDI_TRANSPORT_START then [mm_seen m] else []) @
     map sn_start (filter is_start (mm_out m))"

fun is_store_last :: "midi_op \<Rightarrow> bool" where
  "is_store_last (StoreLast c) = True"
| "is_store_last _ = False"

definition ops_safe :: "midi_machine \<Rightarrow> bool" where
  "ops_safe m \<longleftrightarrow> length (filter is_store_last (mm_ops m)) \<le> 1 \<and>
     (mm_ops m = StoreSteps 0 # record_transport_ops MIDI_TRANSPORT_START \<and> mm_resets m + 1 = mm_starts m \<or>
      (\<forall>n. StoreSteps n \<notin> set (mm_ops m)) \<and> mm_resets m = mm_starts m) \<and>
     (StoreLast MIDI_TRANSPORT_START \<in> set (mm_ops m) \<longrightarrow>
        mm_last_start m < mm_starts m \<and> (\<forall>r \<in> set (reported m). r < mm_starts m))"

definition midi_inv :: "midi_machine \<Rightarrow> bool" where
  "midi_inv m \<longleftrightarrow> ops_safe m \<and> mm_last_start m \<le> mm_resets m \<and>
     (as_midi_last_transport (mm_app m) = MIDI_TRANSPORT_START \<longrightarrow>
        1 \<le> mm_last_start m \<and> (\<forall>r \<in> set (reported m). r < mm_last_start m)) \<and>
     (mm_swapped m = Some MIDI_TRANSPORT_START \<longrightarrow> 1 \<le> mm_seen m \<and> mm_seen m \<le> mm_resets m) \<and>
     as_midi_steps (mm_app m) = of_nat (mm_adds m) \<and>
     (\<forall>r \<in> set (reported m). r \<le> mm_resets m) \<and> sorted_wrt (>) (reported m) \<and>
     (\<forall>t \<in> set (mm_out m). ms_steps (sn_snapshot t) = of_nat (sn_adds t) \<and>
        (is_start t \<longrightarrow> 1 \<le> sn_start t \<and> sn_start t \<le> sn_resets t))"

lemma filter_none: "filter p xs = [] \<Longrightarrow> p x \<Longrightarrow> x \<notin> set xs"
  by (auto simp: filter_empty_conv)

lemma record_byte_ops_shape:
  assumes "record_byte_ops b t = (ops, t')"
  shows "length (filter is_store_last ops) \<le> 1"
    and "b = MIDI_STATUS_START \<and> ops = StoreSteps 0 # record_transport_ops MIDI_TRANSPORT_START \<or>
    b \<noteq> MIDI_STATUS_START \<and> (\<forall>n. StoreSteps n \<notin> set ops) \<and>
      StoreLast MIDI_TRANSPORT_START \<notin> set ops"
  using assms
  by (auto simp: record_byte_ops_def record_transport_ops_def midi_transport Let_def split: if_splits)

lemma transport_code_to_str_start:
  "transport_code_to_str c = Some ''start'' \<longleftrightarrow> c = MIDI_TRANSPORT_START"
  by (auto simp: transport_code_to_str_def)

lemma midi_inv_byte:
  assumes "midi_inv m" "mm_ops m = []" "record_byte_ops b (mm_ticks m) = (ops, t)"
  shows "midi_inv (m\<lparr>mm_ops := ops, mm_ticks := t,
      mm_starts := (if b = MIDI_STATUS_START then mm_starts m + 1 else mm_starts m)\<rparr>)"
proof -
  have eq: "mm_resets m = mm_starts m" using assms(1,2) by (simp add: midi_inv_def ops_safe_def)
  have rep: "reported (m\<lparr>mm_ops := ops, mm_ticks := t, mm_starts := k\<rparr>) = reported m" for k
    by (simp add: reported_def)
  have "\<forall>r \<in> set (reported m). r \<le> mm_starts m" using assms(1) eq by (simp add: midi_inv_def)
  then have lt: "\<forall>r \<in> set (reported m). r < mm_starts m + 1" by auto
  from record_byte_ops_shape(2) [OF assms(3)] record_byte_ops_shape(1) [OF assms(3)] assms(1) eq lt
  show ?thesis unfolding midi_inv_def ops_safe_def rep by (elim disjE) simp_all
qed

lemma midi_inv_access:
  assumes inv: "midi_inv m" and ops: "mm_ops m = op # ops"
  shows "midi_inv (midi_ghost op (m\<lparr>mm_app := midi_op_run op (mm_app m), mm_ops := ops\<rparr>))"
proof -
  have rep: "reported (midi_ghost op (m\<lparr>mm_app := a, mm_ops := ops\<rparr>)) = reported m" for a
    by (cases op) (simp_all add: reported_def)
  from inv have safe: "ops_safe m" by (simp add: midi_inv_def)
  have seen: "mm_swapped m = Some MIDI_TRANSPORT_START \<longrightarrow> 1 \<le> mm_seen m \<and> mm_seen m \<le> mm_resets m"
    using inv by (simp add: midi_inv_def)
  show ?thesis
  proof (cases op)
    case (StoreSteps n)
    with safe ops have n: "n = 0" "ops = record_transport_ops MIDI_TRANSPORT_START"
      "mm_resets m + 1 = mm_starts m" "mm_last_start m < mm_starts m" "\<forall>r \<in> set (reported m). r < mm_starts m"
      by (auto simp: ops_safe_def record_transport_ops_def)
    then show ?thesis using inv StoreSteps
      unfolding midi_inv_def ops_safe_def rep
      by (auto simp: record_transport_ops_def le_Suc_eq)
  next
    case (StoreLast c)
    with safe ops have "mm_resets m = mm_starts m" "\<forall>n. StoreSteps n \<notin> set ops"
      "c = MIDI_TRANSPORT_START \<longrightarrow> mm_last_start m < mm_starts m \<and> (\<forall>r \<in> set (reported m). r < mm_starts m)"
      "StoreLast MIDI_TRANSPORT_START \<notin> set ops" "filter is_store_last ops = []"
      by (auto simp: ops_safe_def dest: filter_none [of is_store_last _ "StoreLast MIDI_TRANSPORT_START"])
    then show ?thesis using inv StoreLast
      unfolding midi_inv_def ops_safe_def rep by (auto simp: Suc_le_eq)
  next
    case AddStep
    with safe ops show ?thesis using inv
      unfolding midi_inv_def ops_safe_def rep by (simp add: add.commute)
  next
    case (StoreLatest c)
    with safe ops show ?thesis using inv
      unfolding midi_inv_def ops_safe_def rep by simp
  next
    case AddCount
    with safe ops show ?thesis using inv
      unfolding midi_inv_def ops_safe_def rep by simp
  qed
qed

lemma midi_inv_swap:
  assumes inv: "midi_inv m" and "mm_swapped m = None" "swap_transport (mm_app m) = (s, c)"
  shows "midi_inv (m\<lparr>mm_app := s, mm_swapped := Some c, mm_seen := mm_last_start m\<rparr>)"
proof -
  have s: "s = (mm_app m)\<lparr>as_midi_last_transport := MIDI_TRANSPORT_NONE\<rparr>"
    "c = as_midi_last_transport (mm_app m)"
    using assms(3) by (auto simp: swap_transport_def)
  have rep: "reported (m\<lparr>mm_app := s, mm_swapped := Some c, mm_seen := mm_last_start m\<rparr>) =
      (if c = MIDI_TRANSPORT_START then mm_last_start m # reported m else reported m)"
    using assms(2) by (simp add: reported_def)
  have "MIDI_TRANSPORT_NONE \<noteq> MIDI_TRANSPORT_START" by (simp add: midi_transport)
  with inv s show ?thesis unfolding midi_inv_def ops_safe_def rep
    by (auto simp: assms(2))
qed

lemma midi_inv_load:
  assumes inv: "midi_inv m" and "mm_swapped m = Some c"
  shows "midi_inv (m\<lparr>mm_swapped := None,
      mm_out := \<lparr>sn_snapshot = snapshot_of c (mm_app m), sn_start = mm_seen m,
        sn_resets = mm_resets m, sn_adds = mm_adds m\<rparr> # mm_out m\<rparr>)"
proof -
  have rep: "reported (m\<lparr>mm_swapped := None,
      mm_out := \<lparr>sn_snapshot = snapshot_of c (mm_app m), sn_start = mm_seen m,
        sn_resets = mm_resets m, sn_adds = mm_adds m\<rparr> # mm_out m\<rparr>) = reported m"
    using assms(2) by (simp add: reported_def is_start_def snapshot_of_def transport_code_to_str_start)
  show ?thesis using inv assms(2) unfolding midi_inv_def ops_safe_def rep
    by (auto simp: is_start_def snapshot_of_def transport_code_to_str_start)
qed

interpretation midi: transition_system midi_init midi_step midi_inv
proof
  show "midi_inv m" if "midi_init m" for m
    using that by (simp add: midi_init_def midi_inv_def ops_safe_def reported_def app_state_default_def
        midi_transport)
  show "midi_inv m'" if "midi_inv m" "midi_step m m'" for m m'
    using that(2,1)
    by cases (simp_all add: midi_inv_byte midi_inv_access midi_inv_swap midi_inv_load)
qed

text \<open>
  Claim C5. The mapper against the MIDI thread. Wherever the mapper's two accesses fall between the
  MIDI thread's, a snapshot that reports a Start carries a step count that was reset by that Start or
  a later one, the count in every snapshot is the number of steps since the last executed reset, on
  32 bits, and no Start is reported twice.
\<close>

theorem snapshot_start_is_fresh:
  assumes "reach midi_init midi_step m"
  shows "(\<forall>t \<in> set (mm_out m). ms_steps (sn_snapshot t) = of_nat (sn_adds t) \<and>
      (is_start t \<longrightarrow> 1 \<le> sn_start t \<and> sn_start t \<le> sn_resets t)) \<and>
    distinct (map sn_start (filter is_start (mm_out m)))"
proof -
  have inv: "midi_inv m" by (rule midi.reachable_inv [OF assms])
  have "sorted_wrt (>) xs \<Longrightarrow> distinct xs" for xs :: "nat list" by (induction xs) auto
  then have "distinct (reported m)" using inv by (simp add: midi_inv_def)
  then have "distinct (map sn_start (filter is_start (mm_out m)))" by (simp add: reported_def)
  with inv show ?thesis by (simp add: midi_inv_def)
qed

text \<open>A run: a Start byte is taken, two of its accesses execute, then the mapper reads.\<close>

definition midi_demo :: midi_machine where
  "midi_demo = \<lparr>mm_app = app_state_default, mm_ops = [StoreLatest 1, AddCount], mm_ticks = 0,
     mm_swapped = None, mm_starts = 1, mm_resets = 1, mm_adds = 0, mm_last_start = 1, mm_seen = 1,
     mm_out = [\<lparr>sn_snapshot = \<lparr>ms_transport = Some ''start'', ms_steps = 0\<rparr>, sn_start = 1,
       sn_resets = 1, sn_adds = 0\<rparr>]\<rparr>"

lemma midi_demo_reach: "reach midi_init midi_step midi_demo"
proof -
  define m0 where "m0 = \<lparr>mm_app = app_state_default, mm_ops = [], mm_ticks = 0, mm_swapped = None,
     mm_starts = 0, mm_resets = 0, mm_adds = 0, mm_last_start = 0, mm_seen = 0, mm_out = []\<rparr>"
  define m1 where "m1 = m0\<lparr>mm_ops := StoreSteps 0 # record_transport_ops MIDI_TRANSPORT_START, mm_starts := 1\<rparr>"
  define m2 where "m2 = m1\<lparr>mm_ops := record_transport_ops MIDI_TRANSPORT_START, mm_resets := 1\<rparr>"
  define m3 where "m3 = m2\<lparr>mm_ops := [StoreLatest 1, AddCount], mm_last_start := 1,
    mm_app := app_state_default\<lparr>as_midi_last_transport := 1\<rparr>\<rparr>"
  define m4 where "m4 = m3\<lparr>mm_app := app_state_default, mm_swapped := Some 1, mm_seen := 1\<rparr>"
  have "reach midi_init midi_step m0" by (rule reach_init) (simp add: midi_init_def m0_def)
  moreover have "midi_step m0 m1"
    using midi_byte [of m0 MIDI_STATUS_START "StoreSteps 0 # record_transport_ops MIDI_TRANSPORT_START" 0]
    by (simp add: m0_def m1_def record_byte_ops_def)
  moreover have "midi_step m1 m2"
    using midi_access [of m1 "StoreSteps 0" "record_transport_ops MIDI_TRANSPORT_START"]
    by (simp add: m0_def m1_def m2_def app_state_default_def)
  moreover have "midi_step m2 m3"
    using midi_access [of m2 "StoreLast 1" "[StoreLatest 1, AddCount]"]
    by (simp add: m0_def m1_def m2_def m3_def record_transport_ops_def midi_transport)
  moreover have "midi_step m3 m4"
    using mapper_swap [of m3 app_state_default 1]
    by (simp add: m0_def m1_def m2_def m3_def m4_def swap_transport_def app_state_default_def midi_transport)
  moreover have "midi_step m4 midi_demo"
    using mapper_load [of m4 1]
    by (simp add: m0_def m1_def m2_def m3_def m4_def midi_demo_def snapshot_of_def
        transport_code_to_str_def midi_transport app_state_default_def)
  ultimately show ?thesis by (metis reach_step)
qed

theorem snapshot_start_is_fresh_witness:
  "mm_out midi_demo \<noteq> [] \<and> is_start (hd (mm_out midi_demo)) \<and>
    1 \<le> sn_start (hd (mm_out midi_demo)) \<and> sn_start (hd (mm_out midi_demo)) \<le> sn_resets (hd (mm_out midi_demo))"
  using snapshot_start_is_fresh [OF midi_demo_reach] by (auto simp: midi_demo_def is_start_def)

section \<open>The synthetic clock\<close>

text \<open>
  The loop polls the clock; \<open>polls\<close> lists the times it reads, in nanoseconds, while
  \<^verbatim>\<open>keep_running\<close> is set. The deadline advances by the interval, not from the time of the poll.
\<close>

fun clock_polls :: "nat \<Rightarrow> nat list \<Rightarrow> nat \<Rightarrow> app_state \<times> u8 \<Rightarrow> nat \<times> app_state \<times> u8" where
  "clock_polls interval [] next_tick st = (next_tick, st)"
| "clock_polls interval (now # polls) next_tick st =
     (if next_tick \<le> now
      then clock_polls interval polls (next_tick + interval) (record_byte MIDI_STATUS_TIMING_CLOCK st)
      else clock_polls interval polls next_tick st)"

definition run_synthetic_clock :: "nat \<Rightarrow> nat \<Rightarrow> nat list \<Rightarrow> app_state \<Rightarrow> nat \<times> app_state \<times> u8" where
  "run_synthetic_clock interval start polls s =
     clock_polls interval polls (start + interval) (record_byte MIDI_STATUS_START (s, 0))"

text \<open>How many ticks the polls record, from a state with \<open>k\<close> ticks behind it.\<close>

fun clock_ticks :: "nat \<Rightarrow> nat \<Rightarrow> nat list \<Rightarrow> nat \<Rightarrow> nat" where
  "clock_ticks start interval [] k = k"
| "clock_ticks start interval (now # polls) k =
     clock_ticks start interval polls (if start + (k + 1) * interval \<le> now then k + 1 else k)"

lemma clock_polls_ticks:
  "midi_tracks k st \<Longrightarrow> as_midi_transport_count (fst st) = c \<Longrightarrow>
   case clock_polls interval polls (start + (k + 1) * interval) st of (next_tick, st') \<Rightarrow>
     next_tick = start + (clock_ticks start interval polls k + 1) * interval \<and>
     midi_tracks (clock_ticks start interval polls k) st' \<and> as_midi_transport_count (fst st') = c"
proof (induction polls arbitrary: k st)
  case (Cons now polls)
  show ?case
  proof (cases "start + (k + 1) * interval \<le> now")
    case True
    let ?st = "record_byte MIDI_STATUS_TIMING_CLOCK st"
    have "midi_tracks (k + 1) ?st"
      using record_byte_tracks [OF Cons.prems(1), of MIDI_STATUS_TIMING_CLOCK]
      by (simp add: midi_status)
    moreover have "as_midi_transport_count (fst ?st) = c"
      using Cons.prems(2) record_byte_transport(1) [of MIDI_STATUS_TIMING_CLOCK st]
      by (simp add: transport_events_def transport_code_def map_filter_simps midi_status)
    ultimately have "case clock_polls interval polls (start + (k + 1 + 1) * interval) ?st of (next_tick, st') \<Rightarrow>
        next_tick = start + (clock_ticks start interval polls (k + 1) + 1) * interval \<and>
        midi_tracks (clock_ticks start interval polls (k + 1)) st' \<and> as_midi_transport_count (fst st') = c"
      by (rule Cons.IH)
    moreover have "start + (k + 1) * interval + interval = start + (k + 1 + 1) * interval" by simp
    ultimately show ?thesis using True by (simp only: clock_polls.simps clock_ticks.simps if_True)
  next
    case False
    with Cons.IH [OF Cons.prems] show ?thesis by simp
  qed
qed simp

lemma clock_ticks_bound:
  "\<forall>now \<in> set polls. now \<le> stop \<Longrightarrow> start + k * interval \<le> stop \<Longrightarrow>
   start + clock_ticks start interval polls k * interval \<le> stop"
proof (induction polls arbitrary: k)
  case (Cons now polls)
  show ?case
  proof (cases "start + (k + 1) * interval \<le> now")
    case True
    moreover have "now \<le> stop" using Cons.prems(1) by simp
    ultimately show ?thesis using Cons.IH [of "k + 1"] Cons.prems(1) by simp
  next
    case False
    with Cons.IH [of k] Cons.prems show ?thesis by simp
  qed
qed simp

text \<open>
  The synthetic clock does not drift. Whatever the times of the polls are, the recorded
  ticks are those whose deadlines lie on the grid of the start time plus whole intervals, none is
  recorded before its time, and the published step count is their number divided by six.
\<close>

lemma synthetic_clock_no_drift:
  assumes "\<forall>now \<in> set polls. now \<le> stop" "start \<le> stop"
  shows "\<exists>n. start + n * interval \<le> stop \<and>
    (case run_synthetic_clock interval start polls app_state_default of (next_tick, s, ticks) \<Rightarrow>
      next_tick = start + (n + 1) * interval \<and> as_midi_steps s = of_nat (n div 6) \<and>
      unat ticks = n mod 6 \<and> as_midi_transport_count s = 1)"
proof -
  let ?st = "record_byte MIDI_STATUS_START (app_state_default, 0)"
  have "midi_tracks 0 (app_state_default, 0)" by (simp add: midi_tracks_def app_state_default_def)
  from record_byte_tracks [OF this, of MIDI_STATUS_START] have "midi_tracks 0 ?st" by simp
  moreover have "as_midi_transport_count (fst ?st) = 1"
    by (simp add: record_byte_transport transport_events_def transport_code_def map_filter_simps
        app_state_default_def)
  ultimately have "case clock_polls interval polls (start + (0 + 1) * interval) ?st of (next_tick, st') \<Rightarrow>
      next_tick = start + (clock_ticks start interval polls 0 + 1) * interval \<and>
      midi_tracks (clock_ticks start interval polls 0) st' \<and> as_midi_transport_count (fst st') = 1"
    by (rule clock_polls_ticks)
  moreover have "start + clock_ticks start interval polls 0 * interval \<le> stop"
    using assms by (intro clock_ticks_bound) auto
  ultimately show ?thesis
    by (intro exI [of _ "clock_ticks start interval polls 0"])
      (auto simp: run_synthetic_clock_def midi_tracks_def split: prod.splits)
qed

lemma synthetic_clock_no_drift_witness:
  "\<exists>n. 1000 + n * 20 \<le> (1100::nat) \<and>
    fst (run_synthetic_clock 20 1000 [1005, 1023, 1041, 1099, 1100] app_state_default) = 1000 + (n + 1) * 20"
  using synthetic_clock_no_drift [of "[1005, 1023, 1041, 1099, 1100]" 1100 1000 20]
  by (cases "run_synthetic_clock 20 1000 [1005, 1023, 1041, 1099, 1100] app_state_default") auto

section \<open>Choosing the port\<close>

datatype midi_device_error =
    MidiUnavailable rstring
  | MidiNoMatch rstring
  | MidiConnectFailed rstring rstring

datatype 'conn midi_input_source =
    TestClockSource f32 nat
  | MidiHardware 'conn

definition ascii_lower :: "nat \<Rightarrow> nat" where
  "ascii_lower c = (if 65 \<le> c \<and> c \<le> 90 then c + 32 else c)"

definition eq_ignore_ascii_case :: "rstring \<Rightarrow> rstring \<Rightarrow> bool" where
  "eq_ignore_ascii_case a b \<longleftrightarrow> map ascii_lower a = map ascii_lower b"

fun find_port ::
  "(rstring \<Rightarrow> rstring) \<Rightarrow> ('d \<Rightarrow> rstring option) \<Rightarrow> rstring \<Rightarrow> 'd list \<Rightarrow> 'd option \<Rightarrow> 'd option" where
  "find_port lower port_name query [] substring_match = substring_match"
| "find_port lower port_name query (d # ds) substring_match = (case port_name d of
       None \<Rightarrow> find_port lower port_name query ds substring_match
     | Some name \<Rightarrow>
         if eq_ignore_ascii_case name query then Some d
         else if substring_match = None \<and> contains (lower name) (lower query)
         then find_port lower port_name query ds (Some d)
         else find_port lower port_name query ds substring_match)"

definition find_matching_midi_device ::
  "(rstring \<Rightarrow> rstring) \<Rightarrow> ('d \<Rightarrow> rstring option) \<Rightarrow> rstring \<Rightarrow> 'd list \<Rightarrow> 'd option" where
  "find_matching_midi_device lower port_name query ds = find_port lower port_name query ds None"

text \<open>
  \<open>midi_in\<close> is the outcome of opening the backend, its ports, and \<open>connect\<close> that of opening a port;
  the callback starts with a zero tick counter, as in \<open>record_bytes\<close>.
\<close>

definition connect_midi_device ::
  "(rstring \<Rightarrow> rstring) \<Rightarrow> rstring + 'd list \<Rightarrow> ('d \<Rightarrow> rstring option) \<Rightarrow> ('d \<Rightarrow> rstring + 'conn)
    \<Rightarrow> rstring \<Rightarrow> midi_device_error + 'conn midi_input_source" where
  "connect_midi_device lower midi_in port_name connect query = (case midi_in of
       Inl e \<Rightarrow> Inl (MidiUnavailable e)
     | Inr ports \<Rightarrow>
         and_then (ok_or (find_matching_midi_device lower port_name query ports) (MidiNoMatch query))
           (\<lambda>port. let name = unwrap_or (port_name port) query in
              case connect port of
                Inl e \<Rightarrow> Inl (MidiConnectFailed name e)
              | Inr conn \<Rightarrow> Inr (MidiHardware conn)))"

record midi_device_info =
  mi_index :: nat
  mi_name :: rstring

definition enumerate_midi_devices ::
  "rstring + 'd list \<Rightarrow> ('d \<Rightarrow> rstring option) \<Rightarrow> rstring + midi_device_info list" where
  "enumerate_midi_devices midi_in port_name = and_then midi_in
     (\<lambda>ports. Inr (map (\<lambda>(index, port).
        \<lparr>mi_index = index, mi_name = unwrap_or (port_name port) (lit ''Unknown Device'')\<rparr>)
        (zip [0..<length ports] ports)))"

definition port_matches :: "('d \<Rightarrow> rstring option) \<Rightarrow> (rstring \<Rightarrow> bool) \<Rightarrow> 'd \<Rightarrow> bool" where
  "port_matches port_name p d \<longleftrightarrow> (case port_name d of Some name \<Rightarrow> p name | None \<Rightarrow> False)"

lemma find_port_find:
  "find_port lower port_name query ds m =
     (case List.find (port_matches port_name (\<lambda>name. eq_ignore_ascii_case name query)) ds of
        Some d \<Rightarrow> Some d
      | None \<Rightarrow> (case m of Some f \<Rightarrow> Some f
          | None \<Rightarrow> List.find (port_matches port_name (\<lambda>name. contains (lower name) (lower query))) ds))"
  by (induction ds arbitrary: m) (auto simp: port_matches_def split: option.splits)

text \<open>
  The MIDI port: a port whose name equals the query up to ASCII case wins wherever it
  stands, else the first whose name contains it case-insensitively; a port without a name is never
  chosen; a backend, a match or a connection that fails is the corresponding error, with no fallback.
\<close>

lemma connect_midi_device_choice:
  "connect_midi_device lower (Inr ports) port_name connect query =
    (case List.find (port_matches port_name (\<lambda>name. eq_ignore_ascii_case name query)) ports of
       Some port \<Rightarrow> map_sum (MidiConnectFailed (unwrap_or (port_name port) query)) MidiHardware (connect port)
     | None \<Rightarrow>
        (case List.find (port_matches port_name (\<lambda>name. contains (lower name) (lower query))) ports of
          Some port \<Rightarrow> map_sum (MidiConnectFailed (unwrap_or (port_name port) query)) MidiHardware (connect port)
        | None \<Rightarrow> Inl (MidiNoMatch query)))"
  by (auto simp: connect_midi_device_def find_matching_midi_device_def find_port_find Let_def
      split: option.split sum.split)

end
