(* ===== verification/Mapper.thy ===== *)
theory Mapper
  imports Midi
begin

text \<open>
  The mapper, \<^verbatim>\<open>src/src/managers/mapper.rs\<close>: it waits for the first analysis frame and then copies
  the latest one into the display payload at every tick of its 60 Hz timer. What its \<^verbatim>\<open>select!\<close> sees
  is a list of events: a new analysis frame (the value of the watch channel), the analyser's end, a
  timer tick with the value the channel holds then, and what the other threads do to the shared
  state in between: the stop of the run and the accesses of the MIDI thread. None is the panic of \<^verbatim>\<open>copy_from_slice\<close> on different lengths.
\<close>

definition BROADCAST_RATE_HZ :: nat where
  "BROADCAST_RATE_HZ = 60"

definition NANOSECONDS_PER_SECOND :: nat where
  "NANOSECONDS_PER_SECOND = 1000000000"

definition BROADCAST_INTERVAL :: nat where
  "BROADCAST_INTERVAL = NANOSECONDS_PER_SECOND div BROADCAST_RATE_HZ"

datatype mapper_event =
    RawChanged raw_payload
  | RawClosed
  | BroadcastTick raw_payload
  | KeepRunningCleared
  | MidiAccess midi_op

datatype mapper_phase = Waiting | Running | Exited

text \<open>\<open>mp_sent\<close> lists the published payloads, in order.\<close>

record 'w mapper_state =
  mp_phase :: mapper_phase
  mp_display_data :: display_payload
  mp_display_tx :: 'w
  mp_latest_frame_available :: bool
  mp_app :: app_state
  mp_sent :: "display_payload list"

text \<open>The test of \<^verbatim>\<open>keep_running\<close> at the head of both loops.\<close>

definition mapper_check :: "'w mapper_state \<Rightarrow> 'w mapper_state" where
  "mapper_check s = (if as_keep_running (mp_app s) then s else s\<lparr>mp_phase := Exited\<rparr>)"

definition mapper_new :: "nat \<Rightarrow> 'w \<Rightarrow> app_state \<Rightarrow> 'w mapper_state" where
  "mapper_new channels display_tx app = mapper_check
     \<lparr>mp_phase = Waiting, mp_display_data = display_payload_new channels, mp_display_tx = display_tx,
      mp_latest_frame_available = False, mp_app = app, mp_sent = []\<rparr>"

definition mapper_tick ::
  "('w, display_payload) watch_ops \<Rightarrow> bool \<Rightarrow> raw_payload \<Rightarrow> 'w mapper_state \<Rightarrow> 'w mapper_state option" where
  "mapper_tick W midi_enabled raw s =
     (if \<not> mp_latest_frame_available s then Some s
      else if length (dp_channels (mp_display_data s)) \<noteq> length (rp_channels raw) then None
      else case read_midi_snapshot (mp_app s) midi_enabled of (app, midi) \<Rightarrow>
        let payload = (mp_display_data s)\<lparr>dp_channels := rp_channels raw, dp_midi := midi\<rparr> in
        (case w_send_replace W (mp_display_tx s) payload of (tx, old) \<Rightarrow>
          Some (s\<lparr>mp_app := app, mp_display_tx := tx, mp_display_data := old,
            mp_sent := mp_sent s @ [payload]\<rparr>)))"

text \<open>One event; the threads' changes of the shared state are not events of the mapper's own.\<close>

fun mapper_event_step ::
  "('w, display_payload) watch_ops \<Rightarrow> bool \<Rightarrow> mapper_event \<Rightarrow> 'w mapper_state \<Rightarrow> 'w mapper_state option" where
  "mapper_event_step W me KeepRunningCleared s = Some (s\<lparr>mp_app := (mp_app s)\<lparr>as_keep_running := False\<rparr>\<rparr>)"
| "mapper_event_step W me (MidiAccess op) s = Some (s\<lparr>mp_app := midi_op_run op (mp_app s)\<rparr>)"
| "mapper_event_step W me (RawChanged raw) s = (case mp_phase s of
       Waiting \<Rightarrow> Some (mapper_check (if rp_channels raw \<noteq> []
          then s\<lparr>mp_phase := Running, mp_latest_frame_available := True\<rparr> else s))
     | Running \<Rightarrow> Some (mapper_check (s\<lparr>mp_latest_frame_available := rp_channels raw \<noteq> []\<rparr>))
     | Exited \<Rightarrow> Some s)"
| "mapper_event_step W me RawClosed s = Some (s\<lparr>mp_phase := Exited\<rparr>)"
| "mapper_event_step W me (BroadcastTick raw) s = (case mp_phase s of
       Running \<Rightarrow> map_option mapper_check (mapper_tick W me raw s)
     | _ \<Rightarrow> Some s)"

fun mapper_run ::
  "('w, display_payload) watch_ops \<Rightarrow> bool \<Rightarrow> mapper_event list \<Rightarrow> 'w mapper_state \<Rightarrow> 'w mapper_state option" where
  "mapper_run W me [] s = Some s"
| "mapper_run W me (e # es) s = Option.bind (mapper_event_step W me e s) (mapper_run W me es)"

section \<open>What the mapper publishes\<close>

text \<open>The specification: the analysis frames of the ticks that fall in the running phase.\<close>

fun expected_frames :: "mapper_phase \<Rightarrow> bool \<Rightarrow> mapper_event list \<Rightarrow> channel_level list list" where
  "expected_frames ph running [] = []"
| "expected_frames ph running (KeepRunningCleared # es) = expected_frames ph False es"
| "expected_frames ph running (MidiAccess op # es) = expected_frames ph running es"
| "expected_frames ph running (RawClosed # es) = expected_frames Exited running es"
| "expected_frames ph running (RawChanged raw # es) =
     expected_frames (if running \<and> ph \<noteq> Exited then Running else Exited) running es"
| "expected_frames ph running (BroadcastTick raw # es) =
     (if ph \<noteq> Running then expected_frames ph running es
      else rp_channels raw # expected_frames (if running then Running else Exited) running es)"

fun event_channels :: "nat \<Rightarrow> mapper_event \<Rightarrow> bool" where
  "event_channels n (RawChanged raw) = (length (rp_channels raw) = n)"
| "event_channels n (BroadcastTick raw) = (length (rp_channels raw) = n)"
| "event_channels n e = True"

definition mapper_inv :: "('w, display_payload) watch_ops \<Rightarrow> nat \<Rightarrow> bool \<Rightarrow> 'w mapper_state \<Rightarrow> bool" where
  "mapper_inv W n me s \<longleftrightarrow> watch_laws W \<and> 0 < n \<and> length (dp_channels (mp_display_data s)) = n \<and>
     length (dp_channels (w_borrow W (mp_display_tx s))) = n \<and>
     (mp_phase s = Running \<longrightarrow> mp_latest_frame_available s) \<and>
     (mp_sent s \<noteq> [] \<longrightarrow> w_borrow W (mp_display_tx s) = last (mp_sent s)) \<and>
     (\<not> me \<longrightarrow> (\<forall>p \<in> set (mp_sent s). dp_midi p = None))"

lemma midi_op_keep_running [simp]: "as_keep_running (midi_op_run op a) = as_keep_running a"
  by (cases op) simp_all

lemma read_midi_keep_running:
  "read_midi_snapshot a me = (a', m) \<Longrightarrow> as_keep_running a' = as_keep_running a \<and> (\<not> me \<longrightarrow> m = None)"
  by (auto simp: read_midi_snapshot_def swap_transport_def split: if_splits)

lemma mapper_tick_ok:
  assumes inv: "mapper_inv W n me s" and run: "mp_phase s = Running" and raw: "length (rp_channels raw) = n"
  shows "\<exists>s' m. mapper_tick W me raw s = Some s' \<and> mapper_inv W n me s' \<and> mp_phase s' = Running \<and>
    as_keep_running (mp_app s') = as_keep_running (mp_app s) \<and>
    mp_sent s' = mp_sent s @ [\<lparr>dp_channels = rp_channels raw, dp_midi = m\<rparr>]"
proof -
  obtain a m where am: "read_midi_snapshot (mp_app s) me = (a, m)" by (cases "read_midi_snapshot (mp_app s) me")
  let ?p = "\<lparr>dp_channels = rp_channels raw, dp_midi = m\<rparr> :: display_payload"
  obtain tx old where tx: "w_send_replace W (mp_display_tx s) ?p = (tx, old)"
    by (cases "w_send_replace W (mp_display_tx s) ?p")
  have laws: "w_borrow W tx = ?p" "old = w_borrow W (mp_display_tx s)"
    using inv tx unfolding mapper_inv_def watch_laws_def by (metis fst_conv snd_conv)+
  have p: "(mp_display_data s)\<lparr>dp_channels := rp_channels raw, dp_midi := m\<rparr> = ?p" by simp
  let ?s = "s\<lparr>mp_app := a, mp_display_tx := tx, mp_display_data := old, mp_sent := mp_sent s @ [?p]\<rparr>"
  have "mapper_tick W me raw s = Some ?s"
    using inv run raw am tx by (simp add: mapper_tick_def mapper_inv_def Let_def p)
  moreover have "mapper_inv W n me ?s"
    using inv raw laws read_midi_keep_running [OF am] by (auto simp: mapper_inv_def)
  ultimately show ?thesis using run read_midi_keep_running [OF am] by (intro exI [of _ ?s] exI [of _ m]) simp
qed

lemma mapper_inv_latest:
  "mapper_inv W n me s \<Longrightarrow> mapper_inv W n me (s\<lparr>mp_latest_frame_available := True\<rparr>)"
  "mapper_inv W n me s \<Longrightarrow> mapper_inv W n me (s\<lparr>mp_phase := Running, mp_latest_frame_available := True\<rparr>)"
  by (simp_all add: mapper_inv_def)

lemma mapper_check_keeps: "mapper_inv W n me s \<Longrightarrow> mapper_inv W n me (mapper_check s)"
  by (auto simp: mapper_check_def mapper_inv_def)

lemma mapper_check_sel [simp]:
  "mp_sent (mapper_check s) = mp_sent s" "mp_app (mapper_check s) = mp_app s"
  "mp_phase (mapper_check s) = (if as_keep_running (mp_app s) then mp_phase s else Exited)"
  by (auto simp: mapper_check_def)

lemma mapper_run_ok:
  assumes "mapper_inv W n me s" "\<forall>e \<in> set es. event_channels n e"
  shows "\<exists>s'. mapper_run W me es s = Some s' \<and> mapper_inv W n me s' \<and>
    map dp_channels (mp_sent s') = map dp_channels (mp_sent s) @
      expected_frames (mp_phase s) (as_keep_running (mp_app s)) es"
  using assms
proof (induction es arbitrary: s)
  case (Cons e es)
  have rest: "\<forall>e \<in> set es. event_channels n e" using Cons.prems by simp
  show ?case
  proof (cases e)
    case (RawChanged raw)
    with Cons.prems have raw: "rp_channels raw \<noteq> []" by (auto simp: mapper_inv_def)
    define t where "t = (case mp_phase s of
       Waiting \<Rightarrow> mapper_check (s\<lparr>mp_phase := Running, mp_latest_frame_available := True\<rparr>)
     | Running \<Rightarrow> mapper_check (s\<lparr>mp_latest_frame_available := True\<rparr>)
     | Exited \<Rightarrow> s)"
    have "mapper_event_step W me e s = Some t"
      using RawChanged raw by (simp add: t_def split: mapper_phase.split)
    moreover have "mapper_inv W n me t"
      using Cons.prems(1) unfolding t_def
      by (cases "mp_phase s") (auto intro!: mapper_check_keeps mapper_inv_latest)
    from Cons.IH [OF this rest] obtain s' where "mapper_run W me es t = Some s'" "mapper_inv W n me s'"
      "map dp_channels (mp_sent s') = map dp_channels (mp_sent t) @
        expected_frames (mp_phase t) (as_keep_running (mp_app t)) es" by blast
    moreover have "mp_sent t = mp_sent s" "mp_app t = mp_app s"
      "mp_phase t = (if as_keep_running (mp_app s) \<and> mp_phase s \<noteq> Exited then Running else Exited)"
      unfolding t_def by (cases "mp_phase s"; simp)+
    ultimately show ?thesis using RawChanged by simp
  next
    case (BroadcastTick raw)
    show ?thesis
    proof (cases "mp_phase s = Running")
      case True
      from mapper_tick_ok [OF Cons.prems(1) True, of raw] BroadcastTick Cons.prems(2) obtain t m where
        t: "mapper_tick W me raw s = Some t" "mapper_inv W n me t" "mp_phase t = Running"
          "as_keep_running (mp_app t) = as_keep_running (mp_app s)"
          "mp_sent t = mp_sent s @ [\<lparr>dp_channels = rp_channels raw, dp_midi = m\<rparr>]" by auto
      from Cons.IH [OF mapper_check_keeps [OF t(2)] rest] t True BroadcastTick show ?thesis by auto
    next
      case False
      with Cons.IH [OF Cons.prems(1) rest] BroadcastTick show ?thesis
        by (cases "mp_phase s") auto
    qed
  next
    case RawClosed
    have "mapper_inv W n me (s\<lparr>mp_phase := Exited\<rparr>)" using Cons.prems(1) by (simp add: mapper_inv_def)
    from Cons.IH [OF this rest] RawClosed show ?thesis by simp
  next
    case KeepRunningCleared
    have "mapper_inv W n me (s\<lparr>mp_app := (mp_app s)\<lparr>as_keep_running := False\<rparr>\<rparr>)"
      using Cons.prems(1) by (simp add: mapper_inv_def)
    from Cons.IH [OF this rest] KeepRunningCleared show ?thesis by simp
  next
    case (MidiAccess op)
    have "mapper_inv W n me (s\<lparr>mp_app := midi_op_run op (mp_app s)\<rparr>)"
      using Cons.prems(1) by (simp add: mapper_inv_def)
    from Cons.IH [OF this rest] MidiAccess show ?thesis by simp
  qed
qed simp

text \<open>
  Claim C9. The mapper over any run of events: it never panics, it publishes nothing before the first
  analysis frame and nothing after the analyser's end or the stop of the run, and otherwise exactly one
  payload per timer tick, with the analysis channels of that moment; the display channel then holds
  the last of them, and no payload carries MIDI when MIDI is not configured.
\<close>

theorem mapper_publishes_ticks:
  assumes "watch_laws W" "0 < n" "\<forall>e \<in> set es. event_channels n e"
    "length (dp_channels (w_borrow W tx)) = n"
  shows "\<exists>s. mapper_run W me es (mapper_new n tx a) = Some s \<and>
    map dp_channels (mp_sent s) = expected_frames (if as_keep_running a then Waiting else Exited)
      (as_keep_running a) es \<and>
    (mp_sent s \<noteq> [] \<longrightarrow> w_borrow W (mp_display_tx s) = last (mp_sent s)) \<and>
    (\<not> me \<longrightarrow> (\<forall>p \<in> set (mp_sent s). dp_midi p = None))"
proof -
  have "mapper_inv W n me (mapper_new n tx a)"
    unfolding mapper_new_def using assms
    by (intro mapper_check_keeps) (simp add: mapper_inv_def display_payload_new_def)
  from mapper_run_ok [OF this assms(3)] show ?thesis
    by (auto simp: mapper_new_def mapper_inv_def)
qed

text \<open>One channel: a tick before the first frame, a frame, two ticks, the stop and one more tick.\<close>

definition demo_raw :: "f32 \<Rightarrow> raw_payload" where
  "demo_raw p = \<lparr>rp_channels = [\<lparr>cl_peak = p, cl_bins = replicate BAND_COUNT 0\<rparr>]\<rparr>"

theorem mapper_publishes_ticks_witness:
  "\<exists>s. mapper_run cell_watch True
      [BroadcastTick (demo_raw 0), RawChanged (demo_raw 1), BroadcastTick (demo_raw 1),
       KeepRunningCleared, BroadcastTick (demo_raw 2), BroadcastTick (demo_raw 3)]
      (mapper_new 1 (display_payload_new 1) app_state_default) = Some s \<and>
    map dp_channels (mp_sent s) = [rp_channels (demo_raw 1), rp_channels (demo_raw 2)]"
  using mapper_publishes_ticks [OF cell_watch_laws, of 1 "[BroadcastTick (demo_raw 0), RawChanged (demo_raw 1),
      BroadcastTick (demo_raw 1), KeepRunningCleared, BroadcastTick (demo_raw 2), BroadcastTick (demo_raw 3)]"
      "display_payload_new 1" True app_state_default]
  by (auto simp: demo_raw_def display_payload_new_def app_state_default_def simp del: mapper_run.simps)

end
