(* ===== verification/Frames.thy ===== *)
theory Frames
  imports Payload
begin

text \<open>
  The shared memory frame region, \<^verbatim>\<open>src/src/frames.rs\<close>. Every access of the code is one atomic
  32-bit or 64-bit access at an aligned byte offset, so the memory is a map from the byte offsets of
  its 32-bit words to their values, little-endian, and a 64-bit word is a pair of them. A publication
  is a list of such stores and a read a list of loads; here they run without interruption, and the
  theory \<open>Seqlock\<close> interleaves them. The page size and the outcome of \<^verbatim>\<open>mmap\<close> are parameters.
\<close>

section \<open>Layout\<close>

definition FRAME_MAGIC :: u32 where
  "FRAME_MAGIC = 0x52463450"

definition FRAME_LAYOUT_VERSION :: u32 where
  "FRAME_LAYOUT_VERSION = 1"

definition FRAME_HEADER_BYTES :: nat where
  "FRAME_HEADER_BYTES = 64"

definition WORD_BYTES :: nat where
  "WORD_BYTES = 4"

definition CHANNEL_RECORD_BYTES :: nat where
  "CHANNEL_RECORD_BYTES = (1 + BAND_COUNT) * WORD_BYTES"

definition OFFSET_MAGIC :: nat where "OFFSET_MAGIC = 0"
definition OFFSET_LAYOUT_VERSION :: nat where "OFFSET_LAYOUT_VERSION = 4"
definition OFFSET_SEQUENCE :: nat where "OFFSET_SEQUENCE = 8"
definition OFFSET_PUBLISHED_NS :: nat where "OFFSET_PUBLISHED_NS = 16"
definition OFFSET_CHANNEL_COUNT :: nat where "OFFSET_CHANNEL_COUNT = 24"
definition OFFSET_BAND_COUNT :: nat where "OFFSET_BAND_COUNT = 28"
definition OFFSET_SAMPLE_RATE :: nat where "OFFSET_SAMPLE_RATE = 32"
definition OFFSET_MIDI_FLAGS :: nat where "OFFSET_MIDI_FLAGS = 36"
definition OFFSET_MIDI_STEPS :: nat where "OFFSET_MIDI_STEPS = 40"
definition OFFSET_MIDI_TRANSPORT_COUNT :: nat where "OFFSET_MIDI_TRANSPORT_COUNT = 44"
definition OFFSET_MIDI_TRANSPORT_LAST :: nat where "OFFSET_MIDI_TRANSPORT_LAST = 48"
definition RECORD_PEAK_OFFSET :: nat where "RECORD_PEAK_OFFSET = 0"
definition RECORD_BINS_OFFSET :: nat where "RECORD_BINS_OFFSET = WORD_BYTES"
definition MIDI_FLAG_CONFIGURED :: u32 where "MIDI_FLAG_CONFIGURED = 1"
definition READ_ATTEMPTS :: nat where "READ_ATTEMPTS = 3"

lemmas layout_defs = FRAME_HEADER_BYTES_def WORD_BYTES_def CHANNEL_RECORD_BYTES_def BAND_COUNT_def
  OFFSET_MAGIC_def OFFSET_LAYOUT_VERSION_def OFFSET_SEQUENCE_def OFFSET_PUBLISHED_NS_def
  OFFSET_CHANNEL_COUNT_def OFFSET_BAND_COUNT_def OFFSET_SAMPLE_RATE_def OFFSET_MIDI_FLAGS_def
  OFFSET_MIDI_STEPS_def OFFSET_MIDI_TRANSPORT_COUNT_def OFFSET_MIDI_TRANSPORT_LAST_def
  RECORD_PEAK_OFFSET_def RECORD_BINS_OFFSET_def

definition frame_bytes :: "nat \<Rightarrow> nat" where
  "frame_bytes channel_count = FRAME_HEADER_BYTES + channel_count * CHANNEL_RECORD_BYTES"

definition record_offset :: "nat \<Rightarrow> nat" where
  "record_offset index = FRAME_HEADER_BYTES + index * CHANNEL_RECORD_BYTES"

record frame_midi =
  fm_steps :: u32
  fm_transport_count :: u32
  fm_transport_last :: u32

record frame_header =
  fh_layout_version :: u32
  fh_channel_count :: u32
  fh_band_count :: u32
  fh_sample_rate :: u32
  fh_midi_flags :: u32

record frame =
  fr_sequence :: u64
  fr_published_ns :: u64
  fr_midi :: frame_midi
  fr_channels :: "channel_level list"

section \<open>Memory\<close>

type_synonym mem = "nat \<Rightarrow> u32"

datatype mem_store = St32 nat u32 | St64 nat u64

datatype mem_load = Ld32 nat | Ld64 nat

fun store_run :: "mem_store \<Rightarrow> mem \<Rightarrow> mem" where
  "store_run (St32 a w) m = m(a := w)"
| "store_run (St64 a w) m = m(a := ucast w, a + 4 := ucast (drop_bit 32 w))"

fun load_run :: "mem \<Rightarrow> mem_load \<Rightarrow> u64" where
  "load_run m (Ld32 a) = ucast (m a)"
| "load_run m (Ld64 a) = or (ucast (m a)) (push_bit 32 (ucast (m (a + 4))))"

definition load32 :: "mem \<Rightarrow> nat \<Rightarrow> u32" where
  "load32 m a = ucast (load_run m (Ld32 a))"

definition load64 :: "mem \<Rightarrow> nat \<Rightarrow> u64" where
  "load64 m a = load_run m (Ld64 a)"

section \<open>The region\<close>

record frame_region =
  rg_mem :: mem
  rg_mapped_len :: nat
  rg_channel_count :: nat

datatype region_error = InvalidChannelCount | MmapFailed

definition region_header_stores :: "nat \<Rightarrow> u32 \<Rightarrow> bool \<Rightarrow> mem_store list" where
  "region_header_stores channel_count sample_rate midi_configured =
     [St32 OFFSET_MAGIC FRAME_MAGIC, St32 OFFSET_LAYOUT_VERSION FRAME_LAYOUT_VERSION,
      St32 OFFSET_CHANNEL_COUNT (of_nat channel_count), St32 OFFSET_BAND_COUNT (of_nat BAND_COUNT),
      St32 OFFSET_SAMPLE_RATE sample_rate,
      St32 OFFSET_MIDI_FLAGS (if midi_configured then MIDI_FLAG_CONFIGURED else 0)]"

definition frame_region_new ::
  "nat \<Rightarrow> bool \<Rightarrow> nat \<Rightarrow> u32 \<Rightarrow> bool \<Rightarrow> region_error + frame_region" where
  "frame_region_new page_size mmap_ok channel_count sample_rate midi_configured =
     (if 2 ^ 32 \<le> channel_count then Inl InvalidChannelCount
      else let mapped_len = div_ceil (frame_bytes channel_count) page_size * page_size in
        if \<not> mmap_ok then Inl MmapFailed
        else Inr \<lparr>rg_mem = fold store_run
              (region_header_stores channel_count sample_rate midi_configured) (\<lambda>_. 0),
            rg_mapped_len = mapped_len, rg_channel_count = channel_count\<rparr>)"

text \<open>The stores of one channel record and of a frame's payload, and a whole publication.\<close>

definition channel_stores :: "nat \<Rightarrow> channel_level \<Rightarrow> mem_store list" where
  "channel_stores index c =
     St32 (record_offset index + RECORD_PEAK_OFFSET) (cl_peak c) #
     map (\<lambda>(band, bin). St32 (record_offset index + RECORD_BINS_OFFSET + band * WORD_BYTES) bin)
       (zip [0..<length (cl_bins c)] (cl_bins c))"

definition payload_stores :: "channel_level list \<Rightarrow> frame_midi \<Rightarrow> u64 \<Rightarrow> mem_store list" where
  "payload_stores channels midi published_ns =
     [St64 OFFSET_PUBLISHED_NS published_ns, St32 OFFSET_MIDI_STEPS (fm_steps midi),
      St32 OFFSET_MIDI_TRANSPORT_COUNT (fm_transport_count midi),
      St32 OFFSET_MIDI_TRANSPORT_LAST (fm_transport_last midi)] @
     concat (map (\<lambda>(index, c). channel_stores index c) (zip [0..<length channels] channels))"

definition publish_stores ::
  "u64 \<Rightarrow> channel_level list \<Rightarrow> frame_midi \<Rightarrow> u64 \<Rightarrow> mem_store list" where
  "publish_stores settled channels midi published_ns =
     St64 OFFSET_SEQUENCE (settled + 1) # payload_stores channels midi published_ns @
     [St64 OFFSET_SEQUENCE (settled + 2)]"

definition channels_finite :: "channel_level list \<Rightarrow> bool" where
  "channels_finite channels \<longleftrightarrow> list_all level_finite channels"

text \<open>None is the failed assertion on the channel count.\<close>

definition region_publish ::
  "frame_region \<Rightarrow> channel_level list \<Rightarrow> frame_midi \<Rightarrow> u64 \<Rightarrow> (frame_region \<times> bool) option" where
  "region_publish r channels midi published_ns =
     (if length channels \<noteq> rg_channel_count r then None
      else if \<not> channels_finite channels then Some (r, False)
      else let settled = load64 (rg_mem r) OFFSET_SEQUENCE in
        Some (r\<lparr>rg_mem := fold store_run (publish_stores settled channels midi published_ns) (rg_mem r)\<rparr>,
          True))"

section \<open>Reading\<close>

definition read_header :: "mem \<Rightarrow> nat \<Rightarrow> frame_header option" where
  "read_header m len =
     (if len < FRAME_HEADER_BYTES then None
      else if load32 m OFFSET_MAGIC \<noteq> FRAME_MAGIC then None
      else Some \<lparr>fh_layout_version = load32 m OFFSET_LAYOUT_VERSION,
        fh_channel_count = load32 m OFFSET_CHANNEL_COUNT, fh_band_count = load32 m OFFSET_BAND_COUNT,
        fh_sample_rate = load32 m OFFSET_SAMPLE_RATE, fh_midi_flags = load32 m OFFSET_MIDI_FLAGS\<rparr>)"

text \<open>The loads of one attempt, in order, and the frame their values make.\<close>

definition channel_loads :: "nat \<Rightarrow> mem_load list" where
  "channel_loads index = Ld32 (record_offset index + RECORD_PEAK_OFFSET) #
     map (\<lambda>band. Ld32 (record_offset index + RECORD_BINS_OFFSET + band * WORD_BYTES)) [0..<BAND_COUNT]"

definition payload_loads :: "nat \<Rightarrow> mem_load list" where
  "payload_loads channel_count =
     [Ld64 OFFSET_PUBLISHED_NS, Ld32 OFFSET_MIDI_STEPS, Ld32 OFFSET_MIDI_TRANSPORT_COUNT,
      Ld32 OFFSET_MIDI_TRANSPORT_LAST] @ concat (map channel_loads [0..<channel_count])"

definition decode_channel :: "u64 list \<Rightarrow> channel_level" where
  "decode_channel vs = \<lparr>cl_peak = ucast (hd vs), cl_bins = map ucast (tl vs)\<rparr>"

definition decode_frame :: "u64 \<Rightarrow> u64 list \<Rightarrow> frame" where
  "decode_frame before vs = \<lparr>fr_sequence = before, fr_published_ns = vs ! 0,
     fr_midi = \<lparr>fm_steps = ucast (vs ! 1), fm_transport_count = ucast (vs ! 2),
       fm_transport_last = ucast (vs ! 3)\<rparr>,
     fr_channels = map decode_channel (chunks_exact (1 + BAND_COUNT) (drop 4 vs))\<rparr>"

definition read_frame_channels :: "mem \<Rightarrow> nat \<Rightarrow> nat option" where
  "read_frame_channels m len = Option.bind (read_header m len) (\<lambda>header.
     if fh_layout_version header \<noteq> FRAME_LAYOUT_VERSION \<or> unat (fh_band_count header) \<noteq> BAND_COUNT then None
     else let channel_count = unat (fh_channel_count header) in
       if len < frame_bytes channel_count then None else Some channel_count)"

text \<open>An attempt that nothing interrupts, and the loop over the attempts.\<close>

fun read_attempts :: "nat \<Rightarrow> mem \<Rightarrow> nat \<Rightarrow> frame option" where
  "read_attempts 0 m channel_count = None"
| "read_attempts (Suc k) m channel_count =
     (let before = load64 m OFFSET_SEQUENCE in
      if before = 0 then None
      else if odd before then read_attempts k m channel_count
      else let vs = map (load_run m) (payload_loads channel_count) in
        if load64 m OFFSET_SEQUENCE = before then Some (decode_frame before vs)
        else read_attempts k m channel_count)"

definition read_frame :: "mem \<Rightarrow> nat \<Rightarrow> frame option" where
  "read_frame m len =
     Option.bind (read_frame_channels m len) (read_attempts READ_ATTEMPTS m)"

definition region_read :: "frame_region \<Rightarrow> frame option" where
  "region_read r = read_frame (rg_mem r) (rg_mapped_len r)"

section \<open>The slot\<close>

text \<open>A write-once cell; \<^verbatim>\<open>fill\<close> tells whether it stored the region.\<close>

definition slot_region :: "'r option \<Rightarrow> 'r option" where
  "slot_region slot = slot"

definition slot_fill :: "'r \<Rightarrow> 'r option \<Rightarrow> 'r option \<times> bool" where
  "slot_fill region slot = (case slot of None \<Rightarrow> (Some region, True) | Some r \<Rightarrow> (Some r, False))"

section \<open>Stores and loads\<close>

fun store_addr :: "mem_store \<Rightarrow> nat" where
  "store_addr (St32 a w) = a" | "store_addr (St64 a w) = a"

fun store_end :: "mem_store \<Rightarrow> nat" where
  "store_end (St32 a w) = a + 4" | "store_end (St64 a w) = a + 8"

fun load_addr :: "mem_load \<Rightarrow> nat" where
  "load_addr (Ld32 a) = a" | "load_addr (Ld64 a) = a"

fun load_end :: "mem_load \<Rightarrow> nat" where
  "load_end (Ld32 a) = a + 4" | "load_end (Ld64 a) = a + 8"

text \<open>The load that reads a store back, and the value it finds.\<close>

fun load_of :: "mem_store \<Rightarrow> mem_load" where
  "load_of (St32 a w) = Ld32 a" | "load_of (St64 a w) = Ld64 a"

fun stored :: "mem_store \<Rightarrow> u64" where
  "stored (St32 a w) = ucast w" | "stored (St64 a w) = w"

definition aligned :: "nat \<Rightarrow> bool" where
  "aligned a \<longleftrightarrow> a mod 4 = 0"

definition before_store :: "mem_store \<Rightarrow> mem_store \<Rightarrow> bool" where
  "before_store s t \<longleftrightarrow> store_end s \<le> store_addr t"

lemma word64_halves:
  fixes w :: u64
  shows "or (ucast (ucast w :: u32)) (push_bit 32 (ucast (ucast (drop_bit 32 w) :: u32))) = w"
  by (rule bit_word_eqI) (auto simp: bit_or_iff bit_push_bit_iff bit_ucast_iff bit_drop_bit_eq)

lemma load_same [simp]: "load_run (store_run s m) (load_of s) = stored s"
  by (cases s) (simp_all add: word64_halves)

lemma load_other [simp]:
  "store_end s \<le> load_addr l \<or> load_end l \<le> store_addr s \<Longrightarrow> load_run (store_run s m) l = load_run m l"
  by (cases s; cases l) auto

lemma load_fold_other:
  "\<forall>s \<in> set ss. store_end s \<le> load_addr l \<or> load_end l \<le> store_addr s \<Longrightarrow>
   load_run (fold store_run ss m) l = load_run m l"
  by (induction ss arbitrary: m) auto

lemma load_of_range [simp]: "load_addr (load_of s) = store_addr s" "load_end (load_of s) = store_end s"
  by (cases s; simp)+

lemma load_fold_same:
  "sorted_wrt before_store ss \<Longrightarrow> s \<in> set ss \<Longrightarrow> load_run (fold store_run ss m) (load_of s) = stored s"
proof (induction ss arbitrary: m)
  case (Cons t ss)
  show ?case
  proof (cases "s \<in> set ss")
    case True
    with Cons show ?thesis by simp
  next
    case False
    with Cons.prems have "s = t" by simp
    moreover have "\<forall>u \<in> set ss. store_end t \<le> store_addr u"
      using Cons.prems(1) by (simp add: before_store_def)
    ultimately show ?thesis by (simp add: load_fold_other)
  qed
qed simp

text \<open>Every store of a record lies inside the record.\<close>

lemma channel_stores_bounds:
  assumes "level_ok c" "s \<in> set (channel_stores i c)"
  shows "record_offset i \<le> store_addr s \<and> store_end s \<le> record_offset (Suc i)"
  using assms
  by (auto simp: channel_stores_def record_offset_def level_ok_def layout_defs set_zip)

lemma channel_stores_sorted: "sorted_wrt before_store (channel_stores i c)"
  unfolding channel_stores_def sorted_wrt.simps
proof
  show "\<forall>s \<in> set (map (\<lambda>(band, bin). St32 (record_offset i + RECORD_BINS_OFFSET + band * WORD_BYTES) bin)
      (zip [0..<length (cl_bins c)] (cl_bins c))). before_store (St32 (record_offset i + RECORD_PEAK_OFFSET) (cl_peak c)) s"
    by (auto simp: before_store_def layout_defs set_zip)
  show "sorted_wrt before_store (map (\<lambda>(band, bin). St32 (record_offset i + RECORD_BINS_OFFSET + band * WORD_BYTES) bin)
      (zip [0..<length (cl_bins c)] (cl_bins c)))"
    by (auto simp: before_store_def layout_defs sorted_wrt_iff_nth_less)
qed

definition records_stores :: "nat \<Rightarrow> channel_level list \<Rightarrow> mem_store list" where
  "records_stores i cs = concat (map (\<lambda>(index, c). channel_stores index c) (zip [i..<i + length cs] cs))"

lemma records_stores_Cons [simp]:
  "records_stores i (c # cs) = channel_stores i c @ records_stores (Suc i) cs"
  by (simp add: records_stores_def upt_rec)

lemma records_stores_Nil [simp]: "records_stores i [] = []"
  by (simp add: records_stores_def)

lemma record_offset_mono: "i \<le> j \<Longrightarrow> record_offset i \<le> record_offset j"
  by (simp add: record_offset_def)

lemma records_stores_bounds:
  "list_all level_ok cs \<Longrightarrow> s \<in> set (records_stores i cs) \<Longrightarrow>
   record_offset i \<le> store_addr s \<and> store_end s \<le> record_offset (i + length cs)"
proof (induction cs arbitrary: i)
  case (Cons c cs)
  show ?case
  proof (cases "s \<in> set (channel_stores i c)")
    case True
    with channel_stores_bounds [of c s i] Cons.prems record_offset_mono [of "Suc i" "i + length (c # cs)"]
    show ?thesis by simp
  next
    case False
    with Cons.IH [of "Suc i"] Cons.prems record_offset_mono [of i "Suc i"] show ?thesis by simp
  qed
qed simp

lemma records_stores_sorted: "list_all level_ok cs \<Longrightarrow> sorted_wrt before_store (records_stores i cs)"
proof (induction cs arbitrary: i)
  case (Cons c cs)
  have "before_store s t" if "s \<in> set (channel_stores i c)" "t \<in> set (records_stores (Suc i) cs)" for s t
    using that Cons.prems channel_stores_bounds [of c s i] records_stores_bounds [of cs t "Suc i"]
    by (simp add: before_store_def)
  with Cons show ?case by (simp add: sorted_wrt_append channel_stores_sorted)
qed simp

lemma payload_stores_records:
  "payload_stores cs midi ns =
     [St64 OFFSET_PUBLISHED_NS ns, St32 OFFSET_MIDI_STEPS (fm_steps midi),
      St32 OFFSET_MIDI_TRANSPORT_COUNT (fm_transport_count midi),
      St32 OFFSET_MIDI_TRANSPORT_LAST (fm_transport_last midi)] @ records_stores 0 cs"
  by (simp add: payload_stores_def records_stores_def)

lemma payload_stores_sorted:
  assumes "list_all level_ok cs" shows "sorted_wrt before_store (payload_stores cs midi ns)"
proof -
  have "24 \<le> store_addr s \<and> 44 \<le> store_addr s \<and> 48 \<le> store_addr s \<and> 52 \<le> store_addr s"
    if "s \<in> set (records_stores 0 cs)" for s
    using records_stores_bounds [OF assms that] by (simp add: record_offset_def layout_defs)
  then show ?thesis
    by (auto simp: payload_stores_records records_stores_sorted assms before_store_def layout_defs)
qed

lemma payload_stores_above:
  assumes "list_all level_ok cs" "s \<in> set (payload_stores cs midi ns)"
  shows "16 \<le> store_addr s"
  using assms(2) records_stores_bounds [OF assms(1), of s 0]
  by (auto simp: payload_stores_records record_offset_def layout_defs)

text \<open>The reader's loads are the loads of the writer's stores.\<close>

lemma channel_loads_stores: "level_ok c \<Longrightarrow> map load_of (channel_stores i c) = channel_loads i"
  by (auto simp: channel_stores_def channel_loads_def level_ok_def intro!: nth_equalityI)

lemma records_loads_stores:
  "list_all level_ok cs \<Longrightarrow>
   map load_of (records_stores i cs) = concat (map channel_loads [i..<i + length cs])"
proof (induction cs arbitrary: i)
  case (Cons c cs)
  then show ?case by (simp add: channel_loads_stores upt_conv_Cons del: upt_Suc)
qed simp

lemma payload_loads_stores:
  "list_all level_ok cs \<Longrightarrow> map load_of (payload_stores cs midi ns) = payload_loads (length cs)"
  using records_loads_stores [of cs 0] by (simp add: payload_stores_records payload_loads_def)

lemma read_back:
  assumes "list_all level_ok cs"
  shows "map (load_run (fold store_run (payload_stores cs midi ns) m)) (payload_loads (length cs))
    = map stored (payload_stores cs midi ns)"
  using load_fold_same [OF payload_stores_sorted [OF assms]]
  by (simp add: payload_loads_stores [OF assms, of midi ns, symmetric])

text \<open>Decoding what a publication stored gives the frame back.\<close>

lemma ucast_u64_u32 [simp]: "ucast (ucast (w :: u32) :: u64) = w"
  by (rule bit_word_eqI) (simp add: bit_ucast_iff)

lemma channel_stored: "map stored (channel_stores i c) = ucast (cl_peak c) # map ucast (cl_bins c)"
  by (auto simp: channel_stores_def intro!: nth_equalityI)

lemma records_stored:
  "map stored (records_stores i cs) = concat (map (\<lambda>c. ucast (cl_peak c) # map ucast (cl_bins c)) cs)"
  by (induction cs arbitrary: i) (simp_all add: channel_stored)

lemma decode_stored:
  assumes "list_all level_ok cs"
  shows "decode_frame before (map stored (payload_stores cs midi ns)) =
    \<lparr>fr_sequence = before, fr_published_ns = ns, fr_midi = midi, fr_channels = cs\<rparr>"
proof -
  let ?enc = "\<lambda>c. ucast (cl_peak c) # map ucast (cl_bins c) :: u64 list"
  have "\<forall>fr \<in> set (map ?enc cs). length fr = 1 + BAND_COUNT"
    using assms by (auto simp: list_all_iff level_ok_def)
  then have "chunks_exact (1 + BAND_COUNT) (concat (map ?enc cs)) = map ?enc cs"
    by (intro chunks_exact_frames) simp_all
  then show ?thesis
    by (simp add: decode_frame_def payload_stores_records records_stored decode_channel_def
        comp_def map_idI)
qed

section \<open>Round trips\<close>

definition header_loads :: "mem_load list" where
  "header_loads = map Ld32 [OFFSET_MAGIC, OFFSET_LAYOUT_VERSION, OFFSET_CHANNEL_COUNT,
     OFFSET_BAND_COUNT, OFFSET_SAMPLE_RATE, OFFSET_MIDI_FLAGS]"

lemma payload_stores_spare_header:
  assumes "list_all level_ok cs" "s \<in> set (payload_stores cs midi ns)" "l \<in> set header_loads"
  shows "store_end s \<le> load_addr l \<or> load_end l \<le> store_addr s"
  using assms(2,3) records_stores_bounds [OF assms(1), of s 0]
  by (auto simp: payload_stores_records header_loads_def record_offset_def layout_defs)

lemma publish_stores_header:
  assumes "list_all level_ok cs" "l \<in> set header_loads"
  shows "load_run (fold store_run (publish_stores settled cs midi ns) m) l = load_run m l"
proof (rule load_fold_other)
  have "store_end (St64 OFFSET_SEQUENCE w) \<le> load_addr l \<or> load_end l \<le> store_addr (St64 OFFSET_SEQUENCE w)" for w
    using assms(2) by (auto simp: header_loads_def layout_defs)
  then show "\<forall>s \<in> set (publish_stores settled cs midi ns). store_end s \<le> load_addr l \<or> load_end l \<le> store_addr s"
    using payload_stores_spare_header [OF assms(1) _ assms(2)] by (auto simp: publish_stores_def)
qed

lemma payload_loads_above: "l \<in> set (payload_loads n) \<Longrightarrow> 16 \<le> load_addr l"
  by (auto simp: payload_loads_def channel_loads_def record_offset_def layout_defs)

lemma publish_stores_sequence:
  "load64 (fold store_run (publish_stores settled cs midi ns) m) OFFSET_SEQUENCE = settled + 2"
  using load_same [of "St64 OFFSET_SEQUENCE (settled + 2)"]
  by (simp add: load64_def publish_stores_def del: load_same store_run.simps load_run.simps)

lemma publish_stores_payload:
  assumes "list_all level_ok cs"
  shows "map (load_run (fold store_run (publish_stores settled cs midi ns) m)) (payload_loads (length cs))
    = map stored (payload_stores cs midi ns)"
proof -
  have "load_run (store_run (St64 OFFSET_SEQUENCE w) m') l = load_run m' l"
    if "l \<in> set (payload_loads (length cs))" for l w m'
    using payload_loads_above [OF that] by (intro load_other) (simp add: layout_defs)
  with read_back [OF assms, of midi ns "store_run (St64 OFFSET_SEQUENCE (settled + 1)) m"] show ?thesis
    by (simp add: publish_stores_def del: store_run.simps cong: map_cong)
qed

definition header_good :: "nat \<Rightarrow> u32 \<Rightarrow> bool \<Rightarrow> frame_region \<Rightarrow> bool" where
  "header_good n sample_rate midi_configured r \<longleftrightarrow> n < 2 ^ 32 \<and> rg_channel_count r = n \<and>
     frame_bytes n \<le> rg_mapped_len r \<and>
     map (load_run (rg_mem r)) header_loads = map ucast [FRAME_MAGIC, FRAME_LAYOUT_VERSION, of_nat n,
       of_nat BAND_COUNT, sample_rate, if midi_configured then MIDI_FLAG_CONFIGURED else 0]"

lemma header_good_read:
  assumes "header_good n sr mc r"
  shows "read_header (rg_mem r) (rg_mapped_len r) = Some \<lparr>fh_layout_version = FRAME_LAYOUT_VERSION,
      fh_channel_count = of_nat n, fh_band_count = of_nat BAND_COUNT, fh_sample_rate = sr,
      fh_midi_flags = (if mc then MIDI_FLAG_CONFIGURED else 0)\<rparr>"
    and "read_frame_channels (rg_mem r) (rg_mapped_len r) = Some n"
proof -
  have len: "FRAME_HEADER_BYTES \<le> rg_mapped_len r" "frame_bytes n \<le> rg_mapped_len r"
    using assms by (auto simp: header_good_def frame_bytes_def)
  have loads: "load32 (rg_mem r) OFFSET_MAGIC = FRAME_MAGIC"
    "load32 (rg_mem r) OFFSET_LAYOUT_VERSION = FRAME_LAYOUT_VERSION"
    "load32 (rg_mem r) OFFSET_CHANNEL_COUNT = of_nat n" "load32 (rg_mem r) OFFSET_BAND_COUNT = of_nat BAND_COUNT"
    "load32 (rg_mem r) OFFSET_SAMPLE_RATE = sr"
    "load32 (rg_mem r) OFFSET_MIDI_FLAGS = (if mc then MIDI_FLAG_CONFIGURED else 0)"
    using assms by (simp_all add: header_good_def header_loads_def load32_def del: load_run.simps)
  show header: "read_header (rg_mem r) (rg_mapped_len r) = Some \<lparr>fh_layout_version = FRAME_LAYOUT_VERSION,
      fh_channel_count = of_nat n, fh_band_count = of_nat BAND_COUNT, fh_sample_rate = sr,
      fh_midi_flags = (if mc then MIDI_FLAG_CONFIGURED else 0)\<rparr>"
    using len by (simp add: read_header_def loads)
  have "n < 2 ^ 32" using assms by (simp add: header_good_def)
  then have "unat (of_nat n :: u32) = n" by (simp add: unat_of_nat)
  then show "read_frame_channels (rg_mem r) (rg_mapped_len r) = Some n"
    unfolding read_frame_channels_def header using len by (simp add: BAND_COUNT_def Let_def)
qed

lemma frame_region_new_good:
  assumes "frame_region_new page ok n sr mc = Inr r" "0 < page"
  shows "header_good n sr mc r" "load64 (rg_mem r) OFFSET_SEQUENCE = 0"
proof -
  have r: "n < 2 ^ 32" "r = \<lparr>rg_mem = fold store_run (region_header_stores n sr mc) (\<lambda>_. 0),
      rg_mapped_len = div_ceil (frame_bytes n) page * page, rg_channel_count = n\<rparr>"
    using assms(1) by (auto simp: frame_region_new_def Let_def not_le split: if_splits)
  have "map (load_run (fold store_run (region_header_stores n sr mc) (\<lambda>_. 0))) header_loads =
      map ucast [FRAME_MAGIC, FRAME_LAYOUT_VERSION, of_nat n, of_nat BAND_COUNT, sr,
        if mc then MIDI_FLAG_CONFIGURED else 0]"
    by (simp add: region_header_stores_def header_loads_def layout_defs)
  with r div_ceil_ge [OF assms(2), of "frame_bytes n"] show "header_good n sr mc r"
    by (simp add: header_good_def)
  show "load64 (rg_mem r) OFFSET_SEQUENCE = 0"
    using r by (simp add: region_header_stores_def load64_def layout_defs)
qed

type_synonym publication = "channel_level list \<times> frame_midi \<times> u64"

fun region_publishes :: "frame_region \<Rightarrow> publication list \<Rightarrow> frame_region option" where
  "region_publishes r [] = Some r"
| "region_publishes r ((cs, midi, ns) # ps) =
     Option.bind (region_publish r cs midi ns) (\<lambda>(r', ok). region_publishes r' ps)"

definition publication_ok :: "nat \<Rightarrow> publication \<Rightarrow> bool" where
  "publication_ok n p \<longleftrightarrow> length (fst p) = n \<and> list_all level_ok (fst p)"

definition publication_finite :: "publication \<Rightarrow> bool" where
  "publication_finite p \<longleftrightarrow> channels_finite (fst p)"

text \<open>The frame a reader sees after the publications \<open>done\<close>, and the region that holds it.\<close>

definition frame_after :: "publication list \<Rightarrow> frame option" where
  "frame_after ps = (if ps = [] then None else case last ps of (cs, midi, ns) \<Rightarrow>
     Some \<lparr>fr_sequence = of_nat (2 * length ps), fr_published_ns = ns, fr_midi = midi, fr_channels = cs\<rparr>)"

definition mem_holds :: "mem \<Rightarrow> nat \<Rightarrow> publication list \<Rightarrow> bool" where
  "mem_holds m n ps \<longleftrightarrow> load64 m OFFSET_SEQUENCE = of_nat (2 * length ps) \<and>
     (ps \<noteq> [] \<longrightarrow> list_all level_ok (fst (last ps)) \<and>
       map (load_run m) (payload_loads n) =
         map stored (payload_stores (fst (last ps)) (fst (snd (last ps))) (snd (snd (last ps)))))"

lemma double_of_nat:
  assumes "0 < k" "k < 2 ^ 63"
  shows "of_nat (2 * k) \<noteq> (0 :: u64)" "even (of_nat (2 * k) :: u64)"
proof -
  have "unat (of_nat (2 * k) :: u64) = 2 * k" unfolding unat_of_nat using assms by simp
  with assms show "of_nat (2 * k) \<noteq> (0 :: u64)" by (metis mult_is_0 neq0_conv unsigned_0 zero_neq_numeral)
  show "even (of_nat (2 * k) :: u64)" by simp
qed

lemma header_good_mem:
  "header_good n sr mc r \<Longrightarrow> map (load_run m) header_loads = map (load_run (rg_mem r)) header_loads \<Longrightarrow>
   header_good n sr mc (r\<lparr>rg_mem := m\<rparr>)"
  by (cases r) (simp add: header_good_def del: map_eq_conv)

lemma region_publish_ok:
  assumes "header_good n sr mc r" "mem_holds (rg_mem r) n ps" "publication_ok n (cs, midi, ns)"
    "channels_finite cs"
  shows "\<exists>r'. region_publish r cs midi ns = Some (r', True) \<and> header_good n sr mc r' \<and>
    mem_holds (rg_mem r') n (ps @ [(cs, midi, ns)])"
proof -
  have cs: "length cs = n" "list_all level_ok cs" using assms(3) by (simp_all add: publication_ok_def)
  let ?m = "fold store_run (publish_stores (of_nat (2 * length ps)) cs midi ns) (rg_mem r)"
  have pub: "region_publish r cs midi ns = Some (r\<lparr>rg_mem := ?m\<rparr>, True)"
    using assms cs by (simp add: region_publish_def header_good_def mem_holds_def Let_def)
  have "map (load_run ?m) header_loads = map (load_run (rg_mem r)) header_loads"
    by (intro map_cong refl publish_stores_header [OF cs(2)])
  then have "header_good n sr mc (r\<lparr>rg_mem := ?m\<rparr>)" by (rule header_good_mem [OF assms(1)])
  moreover have "mem_holds (rg_mem (r\<lparr>rg_mem := ?m\<rparr>)) n (ps @ [(cs, midi, ns)])"
    using publish_stores_payload [OF cs(2)] cs by (simp add: mem_holds_def publish_stores_sequence)
  ultimately show ?thesis using pub by blast
qed

lemma region_publishes_ok:
  assumes "header_good n sr mc r" "mem_holds (rg_mem r) n ps" "\<forall>p \<in> set fs. publication_ok n p"
  shows "\<exists>r'. region_publishes r fs = Some r' \<and> header_good n sr mc r' \<and>
    mem_holds (rg_mem r') n (ps @ filter publication_finite fs)"
  using assms
proof (induction fs arbitrary: r ps)
  case (Cons p fs)
  obtain cs midi ns where p: "p = (cs, midi, ns)" by (cases p)
  have ok: "publication_ok n (cs, midi, ns)" using Cons.prems(3) p by simp
  show ?case
  proof (cases "channels_finite cs")
    case True
    from region_publish_ok [OF Cons.prems(1,2) ok True] obtain r1 where
      r1: "region_publish r cs midi ns = Some (r1, True)" "header_good n sr mc r1"
        "mem_holds (rg_mem r1) n (ps @ [(cs, midi, ns)])" by blast
    from Cons.IH [OF r1(2,3)] Cons.prems(3) r1(1) True p show ?thesis
      by (simp add: publication_finite_def)
  next
    case False
    have "length cs = rg_channel_count r"
      using ok Cons.prems(1) by (simp add: publication_ok_def header_good_def)
    with False have "region_publish r cs midi ns = Some (r, False)" by (simp add: region_publish_def)
    with Cons.IH [OF Cons.prems(1,2)] Cons.prems(3) False p show ?thesis
      by (simp add: publication_finite_def)
  qed
qed simp

lemma region_read_holds:
  assumes "header_good n sr mc r" "mem_holds (rg_mem r) n ps" "length ps < 2 ^ 63"
  shows "region_read r = frame_after ps"
proof (cases "ps = []")
  case True
  with assms show ?thesis
    by (simp add: region_read_def read_frame_def header_good_read(2) mem_holds_def
        frame_after_def READ_ATTEMPTS_def numeral_3_eq_3 Let_def)
next
  case False
  obtain cs midi ns where l: "last ps = (cs, midi, ns)" by (cases "last ps")
  have "of_nat (2 * length ps) \<noteq> (0 :: u64)" "even (of_nat (2 * length ps) :: u64)"
    using double_of_nat [of "length ps"] False assms(3) by auto
  moreover have "load64 (rg_mem r) OFFSET_SEQUENCE = of_nat (2 * length ps)" "list_all level_ok cs"
    "map (load_run (rg_mem r)) (payload_loads n) = map stored (payload_stores cs midi ns)"
    using assms(2) False l by (simp_all add: mem_holds_def)
  ultimately show ?thesis using False l
    by (simp only: region_read_def read_frame_def header_good_read(2) [OF assms(1)] READ_ATTEMPTS_def
        numeral_3_eq_3 read_attempts.simps Let_def frame_after_def)
      (simp add: decode_stored)
qed

text \<open>
  Claim C7. Round trip through the frame region: after any sequence of publications the header still
  carries the fields written once, a reader gets exactly the last frame whose values were all finite,
  bit for bit, under an even sequence number that counts the frames, and nothing before the first one;
  a frame with a NaN or an infinity leaves the region as it was.
\<close>

theorem frame_region_round_trip:
  assumes "frame_region_new page ok n sr mc = Inr r0" "0 < page"
    "\<forall>p \<in> set fs. publication_ok n p" "length fs < 2 ^ 63"
  shows "\<exists>r. region_publishes r0 fs = Some r \<and>
    region_read r = frame_after (filter publication_finite fs) \<and>
    read_header (rg_mem r) (rg_mapped_len r) = Some \<lparr>fh_layout_version = 1, fh_channel_count = of_nat n,
      fh_band_count = 32, fh_sample_rate = sr, fh_midi_flags = (if mc then 1 else 0)\<rparr>"
proof -
  note new = frame_region_new_good [OF assms(1,2)]
  have "mem_holds (rg_mem r0) n []" using new(2) by (simp add: mem_holds_def)
  from region_publishes_ok [OF new(1) this assms(3)] obtain r where
    r: "region_publishes r0 fs = Some r" "header_good n sr mc r"
      "mem_holds (rg_mem r) n (filter publication_finite fs)" by auto
  have "length (filter publication_finite fs) < 2 ^ 63"
    using length_filter_le [of publication_finite fs] assms(4) by linarith
  from region_read_holds [OF r(2,3) this] header_good_read(1) [OF r(2)] r(1) show ?thesis
    by (simp add: FRAME_LAYOUT_VERSION_def BAND_COUNT_def MIDI_FLAG_CONFIGURED_def)
qed

text \<open>One channel, a good frame and then one whose peak is a NaN.\<close>

definition demo_publication :: publication where
  "demo_publication = ([\<lparr>cl_peak = 0x3F000000, cl_bins = replicate BAND_COUNT 0x3E800000\<rparr>],
     \<lparr>fm_steps = 7, fm_transport_count = 1, fm_transport_last = 1\<rparr>, 123456)"

definition nan_publication :: publication where
  "nan_publication = ([\<lparr>cl_peak = 0x7FC00000, cl_bins = replicate BAND_COUNT 0\<rparr>],
     \<lparr>fm_steps = 8, fm_transport_count = 1, fm_transport_last = 1\<rparr>, 133456)"

lemma demo_publications:
  "publication_ok 1 demo_publication" "publication_ok 1 nan_publication"
  "publication_finite demo_publication" "\<not> publication_finite nan_publication"
  by (simp_all add: publication_ok_def demo_publication_def nan_publication_def level_ok_def
      publication_finite_def channels_finite_def level_finite_def f32_is_finite_def fl_is_finite_def
      f32_unpack_def list_all_iff)

theorem frame_region_round_trip_witness:
  "\<exists>r0 r. frame_region_new 16384 True 1 48000 True = Inr r0 \<and>
     region_publishes r0 [demo_publication, nan_publication] = Some r \<and>
     region_read r = Some \<lparr>fr_sequence = 2, fr_published_ns = 123456,
       fr_midi = \<lparr>fm_steps = 7, fm_transport_count = 1, fm_transport_last = 1\<rparr>,
       fr_channels = [\<lparr>cl_peak = 0x3F000000, cl_bins = replicate BAND_COUNT 0x3E800000\<rparr>]\<rparr>"
proof -
  obtain r0 where r0: "frame_region_new 16384 True 1 48000 True = Inr r0"
    by (simp add: frame_region_new_def)
  have "filter publication_finite [demo_publication, nan_publication] = [demo_publication]"
    by (simp add: demo_publications)
  with frame_region_round_trip [OF r0, of "[demo_publication, nan_publication]"] demo_publications
  obtain r where "region_publishes r0 [demo_publication, nan_publication] = Some r"
    "region_read r = frame_after [demo_publication]" by auto
  with r0 show ?thesis
    by (intro exI [of _ r0] exI [of _ r]) (simp add: frame_after_def demo_publication_def)
qed

end
