(* ===== verification/Seqlock.thy ===== *)
theory Seqlock
  imports Frames
begin

text \<open>
  The sequence lock of \<^verbatim>\<open>src/src/frames.rs\<close> with its writer and a reader interleaved, access by
  access. The writer's accesses are the stores of \<open>publish_stores\<close>, the reader's the loads of
  \<open>read_frame\<close>, in their program order; the machine is sequentially consistent, so the fences and
  the orderings of the code are what justifies it. The writer publishes fewer than \<open>2 ^ 63\<close> frames,
  which at a frame every 10 ms takes longer than a billion years, so that the sequence does not wrap.
\<close>

section \<open>The machine\<close>

datatype reader =
    RIdle
  | RBegin nat
  | RCopy nat u64 "mem_load list" "u64 list"

text \<open>
  \<open>sq_frames\<close> are the publications started so far, the last one perhaps still in progress, and
  \<open>sq_reads\<close> the results the reader has returned, latest first.
\<close>

record seqlock =
  sq_mem :: mem
  sq_wops :: "mem_store list"
  sq_reader :: reader
  sq_frames :: "publication list"
  sq_reads :: "frame option list"

definition seqlock_init :: "nat \<Rightarrow> seqlock \<Rightarrow> bool" where
  "seqlock_init n s \<longleftrightarrow> mem_holds (sq_mem s) n [] \<and> sq_wops s = [] \<and> sq_reader s = RIdle \<and>
     sq_frames s = [] \<and> sq_reads s = []"

inductive seqlock_step :: "nat \<Rightarrow> seqlock \<Rightarrow> seqlock \<Rightarrow> bool" for n where
  writer_begin: "sq_wops s = [] \<Longrightarrow> publication_ok n (cs, midi, ns) \<Longrightarrow> channels_finite cs \<Longrightarrow>
    length (sq_frames s) + 1 < 2 ^ 63 \<Longrightarrow>
    seqlock_step n s (s\<lparr>sq_wops := publish_stores (load64 (sq_mem s) OFFSET_SEQUENCE) cs midi ns,
      sq_frames := sq_frames s @ [(cs, midi, ns)]\<rparr>)"
| writer_store: "sq_wops s = st # sts \<Longrightarrow>
    seqlock_step n s (s\<lparr>sq_mem := store_run st (sq_mem s), sq_wops := sts\<rparr>)"
| reader_call: "sq_reader s = RIdle \<Longrightarrow>
    seqlock_step n s (s\<lparr>sq_reader := RBegin READ_ATTEMPTS\<rparr>)"
| reader_give_up: "sq_reader s = RBegin 0 \<Longrightarrow>
    seqlock_step n s (s\<lparr>sq_reader := RIdle, sq_reads := None # sq_reads s\<rparr>)"
| reader_begin: "sq_reader s = RBegin (Suc k) \<Longrightarrow> load64 (sq_mem s) OFFSET_SEQUENCE = before \<Longrightarrow>
    seqlock_step n s
      (if before = 0 then s\<lparr>sq_reader := RIdle, sq_reads := None # sq_reads s\<rparr>
       else if odd before then s\<lparr>sq_reader := RBegin k\<rparr>
       else s\<lparr>sq_reader := RCopy k before (payload_loads n) []\<rparr>)"
| reader_load: "sq_reader s = RCopy k before (l # ls) vs \<Longrightarrow>
    seqlock_step n s (s\<lparr>sq_reader := RCopy k before ls (vs @ [load_run (sq_mem s) l])\<rparr>)"
| reader_end: "sq_reader s = RCopy k before [] vs \<Longrightarrow>
    seqlock_step n s
      (if load64 (sq_mem s) OFFSET_SEQUENCE = before
       then s\<lparr>sq_reader := RIdle, sq_reads := Some (decode_frame before vs) # sq_reads s\<rparr>
       else s\<lparr>sq_reader := RBegin k\<rparr>)"

inductive_cases seqlock_stepE: "seqlock_step n s t"

section \<open>The invariant\<close>

text \<open>The frames whose publication has finished.\<close>

definition settled_frames :: "seqlock \<Rightarrow> publication list" where
  "settled_frames s = (if sq_wops s = [] then sq_frames s else butlast (sq_frames s))"

abbreviation seq_of :: "seqlock \<Rightarrow> u64" where
  "seq_of s \<equiv> load64 (sq_mem s) OFFSET_SEQUENCE"

text \<open>The memory is quiet when the writer has not opened a publication, and torn in between.\<close>

definition quiet :: "nat \<Rightarrow> seqlock \<Rightarrow> bool" where
  "quiet n s \<longleftrightarrow> mem_holds (sq_mem s) n (settled_frames s) \<and>
     (sq_wops s = [] \<or> (\<exists>fs p. sq_frames s = fs @ [p] \<and>
        sq_wops s = publish_stores (of_nat (2 * length fs)) (fst p) (fst (snd p)) (snd (snd p))))"

definition torn :: "seqlock \<Rightarrow> bool" where
  "torn s \<longleftrightarrow> (\<exists>rest fs p. sq_frames s = fs @ [p] \<and>
     sq_wops s = rest @ [St64 OFFSET_SEQUENCE (of_nat (2 * length (sq_frames s)))] \<and>
     (\<forall>st \<in> set rest. 16 \<le> store_addr st) \<and> seq_of s = of_nat (2 * length fs + 1))"

definition writer_inv :: "nat \<Rightarrow> seqlock \<Rightarrow> bool" where
  "writer_inv n s \<longleftrightarrow> length (sq_frames s) < 2 ^ 63 \<and> (\<forall>p \<in> set (sq_frames s). publication_ok n p) \<and>
     mem_holds (fold store_run (sq_wops s) (sq_mem s)) n (sq_frames s) \<and> (quiet n s \<or> torn s)"

text \<open>What the reader has copied is current as long as the sequence is the one it started from.\<close>

definition reads_upto :: "seqlock \<Rightarrow> nat \<Rightarrow> bool" where
  "reads_upto s j \<longleftrightarrow> (\<forall>f. Some f \<in> set (sq_reads s) \<longrightarrow> unat (fr_sequence f) \<le> 2 * j)"

fun reader_inv :: "nat \<Rightarrow> seqlock \<Rightarrow> reader \<Rightarrow> bool" where
  "reader_inv n s (RCopy k before ls vs) = (\<exists>j. 1 \<le> j \<and> j \<le> length (settled_frames s) \<and>
     before = of_nat (2 * j) \<and> reads_upto s j \<and>
     (seq_of s = before \<longrightarrow> (\<exists>ls'. ls' @ ls = payload_loads n \<and> vs = map (load_run (sq_mem s)) ls')))"
| "reader_inv n s r = True"

definition reads_inv :: "seqlock \<Rightarrow> bool" where
  "reads_inv s \<longleftrightarrow> reads_upto s (length (settled_frames s)) \<and>
     (\<forall>f. Some f \<in> set (sq_reads s) \<longrightarrow>
        (\<exists>j. 1 \<le> j \<and> j \<le> length (sq_frames s) \<and> Some f = frame_after (take j (sq_frames s)))) \<and>
     sorted_wrt (\<lambda>f g. fr_sequence g \<le> fr_sequence f) (List.map_filter (\<lambda>r. r) (sq_reads s))"

definition seqlock_inv :: "nat \<Rightarrow> seqlock \<Rightarrow> bool" where
  "seqlock_inv n s \<longleftrightarrow> writer_inv n s \<and> reader_inv n s (sq_reader s) \<and> reads_inv s"

lemma tornI:
  "sq_frames s = fs @ [p] \<Longrightarrow>
   sq_wops s = rest @ [St64 OFFSET_SEQUENCE (of_nat (2 * length (sq_frames s)))] \<Longrightarrow>
   \<forall>st \<in> set rest. 16 \<le> store_addr st \<Longrightarrow> seq_of s = of_nat (2 * length fs + 1) \<Longrightarrow> torn s"
  unfolding torn_def by blast

lemma seq_nat: "k < 2 ^ 64 \<Longrightarrow> unat (of_nat k :: u64) = k"
  by (simp add: unat_of_nat)

lemma seq_eq_iff: "j < 2 ^ 64 \<Longrightarrow> k < 2 ^ 64 \<Longrightarrow> (of_nat j :: u64) = of_nat k \<longleftrightarrow> j = k"
  by (metis seq_nat)

lemma settled_le: "length (settled_frames s) \<le> length (sq_frames s)"
  by (simp add: settled_frames_def)

lemma settled_take:
  "j \<le> length (settled_frames s) \<Longrightarrow> take j (settled_frames s) = take j (sq_frames s)"
  by (auto simp: settled_frames_def butlast_conv_take)

lemma quiet_sequence: "quiet n s \<Longrightarrow> seq_of s = of_nat (2 * length (settled_frames s))"
  by (simp add: quiet_def mem_holds_def)

lemma torn_settled: "torn s \<Longrightarrow> seq_of s = of_nat (2 * length (settled_frames s) + 1) \<and> sq_wops s \<noteq> []"
  by (auto simp: torn_def settled_frames_def)

section \<open>The writer keeps it\<close>

lemma writer_idle_holds:
  assumes "writer_inv n s" "sq_wops s = []"
  shows "mem_holds (sq_mem s) n (sq_frames s)"
  using assms by (simp add: writer_inv_def)

lemma writer_begin_inv:
  assumes inv: "writer_inv n s" and idle: "sq_wops s = []"
    and p: "publication_ok n (cs, midi, ns)" "length (sq_frames s) + 1 < 2 ^ 63"
  defines "t \<equiv> s\<lparr>sq_wops := publish_stores (seq_of s) cs midi ns,
      sq_frames := sq_frames s @ [(cs, midi, ns)]\<rparr>"
  shows "writer_inv n t" "settled_frames t = settled_frames s" "quiet n t"
proof -
  have cs: "length cs = n" "list_all level_ok cs" using p(1) by (simp_all add: publication_ok_def)
  note holds = writer_idle_holds [OF inv idle]
  then have seq: "seq_of s = of_nat (2 * length (sq_frames s))" by (simp add: mem_holds_def)
  have ne: "publish_stores w cs midi ns \<noteq> []" for w by (simp add: publish_stores_def)
  show settled: "settled_frames t = settled_frames s"
    using idle ne by (simp add: t_def settled_frames_def)
  show "quiet n t"
    unfolding quiet_def settled
    using holds idle seq by (auto simp: t_def settled_frames_def)
  moreover have "mem_holds (fold store_run (sq_wops t) (sq_mem t)) n (sq_frames t)"
    using publish_stores_payload [OF cs(2)] cs seq by (simp add: t_def mem_holds_def publish_stores_sequence)
  ultimately show "writer_inv n t" using inv p by (simp add: writer_inv_def t_def)
qed

lemma store_above_keeps_sequence:
  "16 \<le> store_addr st \<Longrightarrow> load64 (store_run st m) OFFSET_SEQUENCE = load64 m OFFSET_SEQUENCE"
  unfolding load64_def by (rule load_other) (simp add: layout_defs)

lemma store_sequence: "load64 (store_run (St64 OFFSET_SEQUENCE w) m) OFFSET_SEQUENCE = w"
  using load_same [of "St64 OFFSET_SEQUENCE w" m] by (simp add: load64_def del: load_same store_run.simps load_run.simps)

lemma writer_store_cases:
  assumes inv: "writer_inv n s" and ops: "sq_wops s = st # sts"
  defines "t \<equiv> s\<lparr>sq_mem := store_run st (sq_mem s), sq_wops := sts\<rparr>"
  shows "writer_inv n t" and "torn t \<and> settled_frames t = settled_frames s \<or> torn s \<and> quiet n t \<and>
    settled_frames t = sq_frames s"
proof -
  have frames: "sq_frames t = sq_frames s" by (simp add: t_def)
  have same: "mem_holds (fold store_run (sq_wops t) (sq_mem t)) n (sq_frames t)"
    using inv ops by (simp add: writer_inv_def t_def)
  have cases: "torn t \<and> settled_frames t = settled_frames s \<or> torn s \<and> quiet n t \<and>
    settled_frames t = sq_frames s"
  proof (cases "quiet n s")
    case True
    then obtain fs p where f: "sq_frames s = fs @ [p]"
      "sq_wops s = publish_stores (of_nat (2 * length fs)) (fst p) (fst (snd p)) (snd (snd p))"
      using ops by (auto simp: quiet_def)
    then have st: "st = St64 OFFSET_SEQUENCE (of_nat (2 * length fs) + 1)"
      "sts = payload_stores (fst p) (fst (snd p)) (snd (snd p)) @ [St64 OFFSET_SEQUENCE (of_nat (2 * length fs) + 2)]"
      using ops by (simp_all add: publish_stores_def)
    have "publication_ok n p" using inv f by (simp add: writer_inv_def)
    then have above: "\<forall>x \<in> set (payload_stores (fst p) (fst (snd p)) (snd (snd p))). 16 \<le> store_addr x"
      using payload_stores_above by (auto simp: publication_ok_def)
    have "sq_mem t = store_run (St64 OFFSET_SEQUENCE (of_nat (2 * length fs) + 1)) (sq_mem s)"
      by (simp add: t_def st(1) del: store_run.simps)
    then have seq: "seq_of t = of_nat (2 * length fs + 1)" by (simp only: store_sequence) simp
    have wops: "sq_wops t = payload_stores (fst p) (fst (snd p)) (snd (snd p)) @
        [St64 OFFSET_SEQUENCE (of_nat (2 * length (sq_frames t)))]"
      by (simp add: t_def st f)
    have "sq_frames t = fs @ [p]" using f frames by simp
    then have "torn t" using wops above seq by (rule tornI)
    moreover have "settled_frames t = settled_frames s"
      using ops st by (simp add: settled_frames_def t_def)
    ultimately show ?thesis by blast
  next
    case False
    then have "torn s" using inv by (simp add: writer_inv_def)
    then obtain rest fs p where f: "sq_frames s = fs @ [p]"
      "sq_wops s = rest @ [St64 OFFSET_SEQUENCE (of_nat (2 * length (sq_frames s)))]"
      "\<forall>x \<in> set rest. 16 \<le> store_addr x" "seq_of s = of_nat (2 * length fs + 1)"
      unfolding torn_def by blast
    show ?thesis
    proof (cases rest)
      case Nil
      then have "sts = []" using ops f by simp
      then have "quiet n t" "settled_frames t = sq_frames s"
        using same by (simp_all add: quiet_def settled_frames_def t_def)
      with \<open>torn s\<close> show ?thesis by blast
    next
      case (Cons r rest')
      then have r: "st = r" "sts = rest' @ [St64 OFFSET_SEQUENCE (of_nat (2 * length (sq_frames s)))]"
        using ops f by simp_all
      have "16 \<le> store_addr st" using f(3) Cons r by simp
      then have seq: "seq_of t = of_nat (2 * length fs + 1)"
        using f(4) store_above_keeps_sequence by (simp add: t_def del: store_run.simps)
      have wops: "sq_wops t = rest' @ [St64 OFFSET_SEQUENCE (of_nat (2 * length (sq_frames t)))]"
        by (simp add: t_def r)
      have above: "\<forall>x \<in> set rest'. 16 \<le> store_addr x" using f(3) Cons by simp
      have "sq_frames t = fs @ [p]" using f frames by simp
      then have "torn t" using wops above seq by (rule tornI)
      moreover have "settled_frames t = settled_frames s"
        using ops r by (simp add: settled_frames_def t_def)
      ultimately show ?thesis by blast
    qed
  qed
  then show "torn t \<and> settled_frames t = settled_frames s \<or> torn s \<and> quiet n t \<and>
    settled_frames t = sq_frames s" .
  from cases same inv show "writer_inv n t"
    unfolding writer_inv_def frames by blast
qed

text \<open>A change of the sequence retires what the reader has copied.\<close>

lemma reader_retired:
  assumes "writer_inv n t" "reader_inv n s r" "sq_reads t = sq_reads s"
    and "length (settled_frames s) \<le> length (settled_frames t)"
    and "torn t \<or> length (settled_frames s) < length (settled_frames t) \<and> quiet n t"
  shows "reader_inv n t r"
proof (cases r)
  case (RCopy k before ls vs)
  with assms(2) obtain j where j: "1 \<le> j" "j \<le> length (settled_frames s)" "before = of_nat (2 * j)"
    "reads_upto s j" by auto
  have bound: "length (settled_frames t) < 2 ^ 63"
    using assms(1) settled_le [of t] by (simp add: writer_inv_def)
  have "seq_of t \<noteq> before"
    using assms(5)
  proof
    assume "torn t"
    then have "seq_of t = of_nat (2 * length (settled_frames t) + 1)" using torn_settled by blast
    moreover have "2 * length (settled_frames t) + 1 \<noteq> 2 * j" by presburger
    ultimately show ?thesis using seq_eq_iff [of "2 * length (settled_frames t) + 1" "2 * j"]
        bound j assms(4) by simp
  next
    assume q: "length (settled_frames s) < length (settled_frames t) \<and> quiet n t"
    then have "seq_of t = of_nat (2 * length (settled_frames t))" using quiet_sequence by blast
    then show ?thesis using seq_eq_iff [of "2 * length (settled_frames t)" "2 * j"] bound j q by simp
  qed
  with j assms(3,4) RCopy show ?thesis by (auto simp: reads_upto_def)
qed simp_all

section \<open>Every step keeps the invariant\<close>

lemma reads_upto_mono: "reads_upto s j \<Longrightarrow> j \<le> k \<Longrightarrow> sq_reads t = sq_reads s \<Longrightarrow> reads_upto t k"
  by (fastforce simp: reads_upto_def)

lemma reads_inv_writer:
  assumes "reads_inv s" "sq_reads t = sq_reads s" "sq_frames t = sq_frames s @ ps"
    "length (settled_frames s) \<le> length (settled_frames t)"
  shows "reads_inv t"
proof -
  have "reads_upto t (length (settled_frames t))"
    using assms reads_upto_mono unfolding reads_inv_def by blast
  moreover have "take j (sq_frames t) = take j (sq_frames s)" if "j \<le> length (sq_frames s)" for j
    using that assms(3) by simp
  ultimately show ?thesis using assms unfolding reads_inv_def by fastforce
qed

lemma step_writer_begin:
  assumes inv: "seqlock_inv n s" and idle: "sq_wops s = []"
    and p: "publication_ok n (cs, midi, ns)" "length (sq_frames s) + 1 < 2 ^ 63"
  shows "seqlock_inv n (s\<lparr>sq_wops := publish_stores (seq_of s) cs midi ns,
      sq_frames := sq_frames s @ [(cs, midi, ns)]\<rparr>)" (is "seqlock_inv n ?t")
proof -
  have w: "writer_inv n s" and r: "reader_inv n s (sq_reader s)" and rd: "reads_inv s"
    using inv by (simp_all add: seqlock_inv_def)
  note new = writer_begin_inv [OF w idle p]
  have "reader_inv n ?t rr" if "reader_inv n s rr" for rr
    using that new(2) by (cases rr) (auto simp: reads_upto_def)
  moreover have "reads_inv ?t" by (rule reads_inv_writer [OF rd]) (simp_all add: new(2))
  ultimately show ?thesis using new(1) r by (simp add: seqlock_inv_def)
qed

lemma step_writer_store:
  assumes inv: "seqlock_inv n s" and ops: "sq_wops s = st # sts"
  shows "seqlock_inv n (s\<lparr>sq_mem := store_run st (sq_mem s), sq_wops := sts\<rparr>)" (is "seqlock_inv n ?t")
proof -
  have w: "writer_inv n s" and r: "reader_inv n s (sq_reader s)" and rd: "reads_inv s"
    using inv by (simp_all add: seqlock_inv_def)
  note cases = writer_store_cases [OF w ops]
  have grow: "length (settled_frames s) \<le> length (settled_frames ?t)"
    using cases(2) settled_le [of s] by auto
  have "torn s \<Longrightarrow> length (settled_frames s) < length (sq_frames s)"
    using ops by (auto simp: torn_def settled_frames_def)
  then have "torn ?t \<or> length (settled_frames s) < length (settled_frames ?t) \<and> quiet n ?t"
    using cases(2) by auto
  from reader_retired [OF cases(1) r _ grow this] have "reader_inv n ?t (sq_reader s)" by simp
  moreover have "reads_inv ?t" by (rule reads_inv_writer [OF rd _ _ grow, of "[]"]) simp_all
  ultimately show ?thesis using cases(1) by (simp add: seqlock_inv_def)
qed

lemma seqlock_frame_conditions [simp]:
  "settled_frames (s\<lparr>sq_reader := r\<rparr>) = settled_frames s"
  "settled_frames (s\<lparr>sq_reader := r, sq_reads := rs\<rparr>) = settled_frames s"
  "writer_inv n (s\<lparr>sq_reader := r\<rparr>) = writer_inv n s"
  "writer_inv n (s\<lparr>sq_reader := r, sq_reads := rs\<rparr>) = writer_inv n s"
  by (simp_all add: settled_frames_def writer_inv_def quiet_def torn_def)

lemma reads_inv_reader [simp]: "reads_inv (s\<lparr>sq_reader := r\<rparr>) = reads_inv s"
  by (simp add: reads_inv_def reads_upto_def)

lemma reads_inv_None:
  "reads_inv s \<Longrightarrow> reads_inv (s\<lparr>sq_reader := r, sq_reads := None # sq_reads s\<rparr>)"
  by (simp add: reads_inv_def reads_upto_def map_filter_simps)

lemma even_sequence_quiet: "writer_inv n s \<Longrightarrow> even (seq_of s) \<Longrightarrow> quiet n s"
  using torn_settled by (fastforce simp: writer_inv_def)

lemma step_reader_begin:
  assumes inv: "seqlock_inv n s" and before: "seq_of s = before" "before \<noteq> 0" "even before"
  shows "seqlock_inv n (s\<lparr>sq_reader := RCopy k before (payload_loads n) []\<rparr>)"
proof -
  let ?j = "length (settled_frames s)"
  have "quiet n s" using inv before by (intro even_sequence_quiet) (simp_all add: seqlock_inv_def)
  then have b: "before = of_nat (2 * ?j)" using quiet_sequence before(1) by simp
  with before(2) have "1 \<le> ?j" by (cases "settled_frames s") auto
  moreover have "reads_upto s ?j" using inv by (simp add: seqlock_inv_def reads_inv_def)
  ultimately show ?thesis using inv b
    by (auto simp: seqlock_inv_def reads_upto_def intro!: exI [of _ ?j])
qed

lemma step_reader_load:
  assumes inv: "seqlock_inv n s" and rd: "sq_reader s = RCopy k before (l # ls) vs"
  shows "seqlock_inv n (s\<lparr>sq_reader := RCopy k before ls (vs @ [load_run (sq_mem s) l])\<rparr>)"
proof -
  from inv rd obtain j where j: "1 \<le> j" "j \<le> length (settled_frames s)" "before = of_nat (2 * j)"
    "reads_upto s j" and got: "seq_of s = before \<longrightarrow>
      (\<exists>ls'. ls' @ l # ls = payload_loads n \<and> vs = map (load_run (sq_mem s)) ls')"
    by (auto simp: seqlock_inv_def)
  have "\<exists>ls''. ls'' @ ls = payload_loads n \<and> vs @ [load_run (sq_mem s) l] = map (load_run (sq_mem s)) ls''"
    if eq: "seq_of s = before"
  proof -
    from got eq obtain ls' where "ls' @ l # ls = payload_loads n" "vs = map (load_run (sq_mem s)) ls'"
      by blast
    then show ?thesis by (intro exI [of _ "ls' @ [l]"]) simp
  qed
  with j inv show ?thesis by (auto simp: seqlock_inv_def reads_upto_def intro!: exI [of _ j])
qed

lemma step_reader_end:
  assumes inv: "seqlock_inv n s" and rd: "sq_reader s = RCopy k before [] vs" and eq: "seq_of s = before"
  shows "seqlock_inv n (s\<lparr>sq_reader := RIdle, sq_reads := Some (decode_frame before vs) # sq_reads s\<rparr>)"
proof -
  have w: "writer_inv n s" and reads: "reads_inv s" using inv by (simp_all add: seqlock_inv_def)
  from inv rd eq obtain j where j: "1 \<le> j" "j \<le> length (settled_frames s)" "before = of_nat (2 * j)"
    "reads_upto s j" and vs: "vs = map (load_run (sq_mem s)) (payload_loads n)"
    by (auto simp: seqlock_inv_def)
  have bound: "length (sq_frames s) < 2 ^ 63" using w by (simp add: writer_inv_def)
  have q: "quiet n s" using eq j by (intro even_sequence_quiet [OF w]) simp
  then have "of_nat (2 * j) = (of_nat (2 * length (settled_frames s)) :: u64)"
    using quiet_sequence eq j(3) by metis
  then have "j = length (settled_frames s)"
    using seq_eq_iff [of "2 * j" "2 * length (settled_frames s)"] bound j(2) settled_le [of s] by simp
  then have ne: "settled_frames s \<noteq> []" and jl: "length (settled_frames s) = j" using j(1) by auto
  obtain cs midi ns where l: "last (settled_frames s) = (cs, midi, ns)" by (cases "last (settled_frames s)")
  have "list_all level_ok cs" "vs = map stored (payload_stores cs midi ns)"
    using q ne l vs by (simp_all add: quiet_def mem_holds_def)
  then have dec: "Some (decode_frame before vs) = frame_after (settled_frames s)"
    using ne l j(3) jl by (simp add: frame_after_def decode_stored)
  moreover have "settled_frames s = take j (sq_frames s)"
    using settled_take [OF j(2)] jl by simp
  ultimately have "Some (decode_frame before vs) = frame_after (take j (sq_frames s))" by simp
  moreover have "j \<le> length (sq_frames s)" using j(2) settled_le [of s] by simp
  moreover have seq: "fr_sequence (decode_frame before vs) = before" by (simp add: decode_frame_def)
  moreover have u: "unat before = 2 * j" unfolding j(3) using j(2) settled_le [of s] bound by (intro seq_nat) simp
  moreover have "fr_sequence f \<le> before" if "f \<in> set (List.map_filter (\<lambda>r. r) (sq_reads s))" for f
  proof -
    have "Some f \<in> set (sq_reads s)" using that by (auto simp: List.map_filter_def)
    then have "unat (fr_sequence f) \<le> 2 * j" using j(4) by (simp add: reads_upto_def)
    then show ?thesis by (simp add: word_le_nat_alt u)
  qed
  ultimately have facts: "Some (decode_frame before vs) = frame_after (take j (sq_frames s))"
    "j \<le> length (sq_frames s)" "fr_sequence (decode_frame before vs) = before" "unat before = 2 * j"
    "\<And>f. f \<in> set (List.map_filter (\<lambda>r. r) (sq_reads s)) \<Longrightarrow> fr_sequence f \<le> before" by blast+
  define F where "F = decode_frame before vs"
  let ?t = "s\<lparr>sq_reader := RIdle, sq_reads := Some F # sq_reads s\<rparr>"
  have "reads_upto ?t (length (settled_frames ?t))"
    using reads facts(3,4) j(2) by (auto simp: reads_inv_def reads_upto_def F_def)
  moreover have "\<forall>f. Some f \<in> set (sq_reads ?t) \<longrightarrow>
      (\<exists>j. 1 \<le> j \<and> j \<le> length (sq_frames ?t) \<and> Some f = frame_after (take j (sq_frames ?t)))"
    using reads facts(1,2) j(1) unfolding reads_inv_def F_def [symmetric] by auto
  moreover have "sorted_wrt (\<lambda>f g. fr_sequence g \<le> fr_sequence f) (List.map_filter (\<lambda>r. r) (sq_reads ?t))"
    using reads facts(3,5) by (simp add: reads_inv_def map_filter_simps F_def)
  ultimately have "reads_inv ?t" unfolding reads_inv_def by blast
  then show ?thesis using w unfolding F_def by (simp add: seqlock_inv_def)
qed

interpretation seqlock: transition_system "seqlock_init n" "seqlock_step n" "seqlock_inv n" for n
proof
  show "seqlock_inv n s" if "seqlock_init n s" for s
    using that by (simp add: seqlock_init_def seqlock_inv_def writer_inv_def quiet_def settled_frames_def
        reads_inv_def reads_upto_def map_filter_simps)
  show "seqlock_inv n t" if inv: "seqlock_inv n s" and step: "seqlock_step n s t" for s t
    using step
  proof cases
    case (reader_begin k before)
    consider "before = 0" | "before \<noteq> 0" "odd before" | "before \<noteq> 0" "even before" by blast
    then show ?thesis
    proof cases
      case 3
      with reader_begin step_reader_begin [OF inv reader_begin(3) 3] show ?thesis by simp
    qed (use reader_begin inv in \<open>simp_all add: seqlock_inv_def reads_inv_None\<close>)
  next
    case (reader_end k before vs)
    with inv step_reader_end [OF inv, of k before vs] show ?thesis by (auto simp: seqlock_inv_def)
  qed (use inv in \<open>simp_all add: step_writer_begin step_writer_store step_reader_load,
        simp_all add: seqlock_inv_def reads_inv_None\<close>)
qed

text \<open>Runs of one thread on its own: the writer to the end of a publication, the reader's copy.\<close>

lemma writer_run:
  "sq_wops s = ops \<Longrightarrow>
   (seqlock_step n)\<^sup>*\<^sup>* s (s\<lparr>sq_mem := fold store_run ops (sq_mem s), sq_wops := []\<rparr>)"
proof (induction ops arbitrary: s)
  case (Cons st sts)
  let ?t = "s\<lparr>sq_mem := store_run st (sq_mem s), sq_wops := sts\<rparr>"
  have "seqlock_step n s ?t" using Cons.prems by (rule writer_store)
  moreover have "(seqlock_step n)\<^sup>*\<^sup>* ?t (?t\<lparr>sq_mem := fold store_run sts (sq_mem ?t), sq_wops := []\<rparr>)"
    by (rule Cons.IH) simp
  ultimately show ?case by (simp add: converse_rtranclp_into_rtranclp)
next
  case Nil
  then have "s\<lparr>sq_mem := fold store_run [] (sq_mem s), sq_wops := []\<rparr> = s" by (cases s) simp
  then show ?case by simp
qed

lemma reader_run:
  "sq_reader s = RCopy k before ls vs \<Longrightarrow>
   (seqlock_step n)\<^sup>*\<^sup>* s (s\<lparr>sq_reader := RCopy k before [] (vs @ map (load_run (sq_mem s)) ls)\<rparr>)"
proof (induction ls arbitrary: s vs)
  case (Cons l ls)
  let ?t = "s\<lparr>sq_reader := RCopy k before ls (vs @ [load_run (sq_mem s) l])\<rparr>"
  have "seqlock_step n s ?t" using Cons.prems by (rule reader_load)
  moreover have "(seqlock_step n)\<^sup>*\<^sup>* ?t (?t\<lparr>sq_reader := RCopy k before []
      ((vs @ [load_run (sq_mem s) l]) @ map (load_run (sq_mem ?t)) ls)\<rparr>)"
    by (rule Cons.IH) simp
  ultimately show ?case by (simp add: converse_rtranclp_into_rtranclp)
next
  case Nil
  then have "s\<lparr>sq_reader := RCopy k before [] (vs @ map (load_run (sq_mem s)) [])\<rparr> = s" by (cases s) simp
  then show ?case by simp
qed

text \<open>A read that no publication overlaps returns a frame, whatever is going to happen next.\<close>

lemma undisturbed_read:
  assumes inv: "seqlock_inv n s" and idle: "sq_wops s = []" "sq_reader s = RIdle"
    and some: "sq_frames s \<noteq> []"
  shows "\<exists>f. (seqlock_step n)\<^sup>*\<^sup>* s (s\<lparr>sq_reads := Some f # sq_reads s\<rparr>) \<and> Some f = frame_after (sq_frames s)"
proof -
  let ?b = "seq_of s"
  have w: "writer_inv n s" using inv by (simp add: seqlock_inv_def)
  have holds: "mem_holds (sq_mem s) n (sq_frames s)" by (rule writer_idle_holds [OF w idle(1)])
  then have b: "?b = of_nat (2 * length (sq_frames s))" by (simp add: mem_holds_def)
  have "length (sq_frames s) < 2 ^ 63" using w by (simp add: writer_inv_def)
  then have "?b \<noteq> 0" "even ?b" using double_of_nat [of "length (sq_frames s)"] some unfolding b by auto
  define s1 where "s1 = s\<lparr>sq_reader := RBegin READ_ATTEMPTS\<rparr>"
  define s2 where "s2 = s1\<lparr>sq_reader := RCopy 2 ?b (payload_loads n) []\<rparr>"
  define vs where "vs = map (load_run (sq_mem s)) (payload_loads n)"
  define s3 where "s3 = s2\<lparr>sq_reader := RCopy 2 ?b [] vs\<rparr>"
  have "seqlock_step n s s1" unfolding s1_def using idle(2) by (rule reader_call)
  moreover have "seqlock_step n s1 s2"
    using reader_begin [of s1 2 ?b n] \<open>?b \<noteq> 0\<close> \<open>even ?b\<close>
    by (simp add: s1_def s2_def READ_ATTEMPTS_def numeral_3_eq_3 numeral_2_eq_2)
  moreover have "(seqlock_step n)\<^sup>*\<^sup>* s2 s3"
    using reader_run [of s2 2 ?b "payload_loads n" "[]" n] by (simp add: s1_def s2_def s3_def vs_def)
  moreover have "seqlock_step n s3 (s3\<lparr>sq_reader := RIdle, sq_reads := Some (decode_frame ?b vs) # sq_reads s3\<rparr>)"
    using reader_end [of s3 2 ?b vs n] by (simp add: s1_def s2_def s3_def)
  moreover have "s3\<lparr>sq_reader := RIdle, sq_reads := Some (decode_frame ?b vs) # sq_reads s3\<rparr> =
      s\<lparr>sq_reads := Some (decode_frame ?b vs) # sq_reads s\<rparr>"
    using idle(2) by (cases s) (simp add: s1_def s2_def s3_def)
  ultimately have "(seqlock_step n)\<^sup>*\<^sup>* s (s\<lparr>sq_reads := Some (decode_frame ?b vs) # sq_reads s\<rparr>)"
    by (metis (no_types, lifting) converse_rtranclp_into_rtranclp rtranclp.rtrancl_into_rtrancl)
  moreover have "Some (decode_frame ?b vs) = frame_after (sq_frames s)"
    using holds some b
    by (cases "last (sq_frames s)") (auto simp: mem_holds_def frame_after_def vs_def decode_stored)
  ultimately show ?thesis by blast
qed

text \<open>
  Claim C1. No torn frame. Whatever the interleaving of the writer's stores and a reader's loads,
  every frame a reader returns is, in all its fields, exactly one of the frames that were published,
  under that frame's sequence number, and a later read never returns an older frame.
\<close>

theorem seqlock_reads_published_frames:
  assumes "reach (seqlock_init n) (seqlock_step n) s"
  shows "(\<forall>f. Some f \<in> set (sq_reads s) \<longrightarrow>
      (\<exists>j. 1 \<le> j \<and> j \<le> length (sq_frames s) \<and> Some f = frame_after (take j (sq_frames s)))) \<and>
    sorted_wrt (\<lambda>f g. fr_sequence g \<le> fr_sequence f) (List.map_filter (\<lambda>r. r) (sq_reads s))"
  using seqlock.reachable_inv [OF assms] by (simp add: seqlock_inv_def reads_inv_def)

text \<open>A publication runs to its end, then a read.\<close>

definition seqlock_demo_init :: seqlock where
  "seqlock_demo_init = \<lparr>sq_mem = (\<lambda>_. 0), sq_wops = [], sq_reader = RIdle, sq_frames = [], sq_reads = []\<rparr>"

theorem seqlock_reads_published_frames_witness:
  "\<exists>s f. reach (seqlock_init 1) (seqlock_step 1) s \<and> sq_reads s = [Some f] \<and>
     Some f = frame_after (take 1 (sq_frames s)) \<and> sq_frames s = [demo_publication]"
proof -
  obtain cs midi ns where p: "demo_publication = (cs, midi, ns)" by (cases demo_publication)
  have ok: "publication_ok 1 (cs, midi, ns)" "channels_finite cs"
    using demo_publications(1,3) unfolding publication_finite_def p by simp_all
  have s0: "reach (seqlock_init 1) (seqlock_step 1) seqlock_demo_init"
    by (rule reach_init) (simp add: seqlock_init_def seqlock_demo_init_def mem_holds_def load64_def)
  define s1 where "s1 = seqlock_demo_init\<lparr>sq_wops := publish_stores (seq_of seqlock_demo_init) cs midi ns,
      sq_frames := [demo_publication]\<rparr>"
  have "seqlock_step 1 seqlock_demo_init s1"
    using writer_begin [of seqlock_demo_init 1 cs midi ns] ok
    by (simp add: s1_def p seqlock_demo_init_def)
  then have "reach (seqlock_init 1) (seqlock_step 1) s1" by (rule reach_step [OF s0])
  from reach_steps [OF writer_run [OF refl] this] obtain s2 where
    s2: "reach (seqlock_init 1) (seqlock_step 1) s2" "sq_wops s2 = []" "sq_reader s2 = RIdle"
      "sq_frames s2 = [demo_publication]" "sq_reads s2 = []"
    by (force simp: s1_def seqlock_demo_init_def)
  from undisturbed_read [OF seqlock.reachable_inv [OF s2(1)] s2(2,3)] s2(4) obtain f where
    f: "(seqlock_step 1)\<^sup>*\<^sup>* s2 (s2\<lparr>sq_reads := Some f # sq_reads s2\<rparr>)" by auto
  note r = reach_steps [OF f s2(1)]
  from seqlock_reads_published_frames [OF r] s2(4,5) obtain j where "1 \<le> j" "j \<le> 1"
    "Some f = frame_after (take j [demo_publication])" by auto
  then have "Some f = frame_after (take 1 (sq_frames (s2\<lparr>sq_reads := Some f # sq_reads s2\<rparr>)))"
    using s2(4) by (simp add: le_antisym)
  with r s2 show ?thesis by (intro exI [of _ "s2\<lparr>sq_reads := Some f # sq_reads s2\<rparr>"] exI [of _ f]) simp
qed

end
