(* ===== verification/Frame_Writer.thy ===== *)
theory Frame_Writer
  imports Frames Midi
begin

text \<open>
  The frame writer, \<^verbatim>\<open>src/src/managers/frame_writer.rs\<close>: each analysis snapshot goes into the frame
  region together with the MIDI state. The three MIDI atomics are loaded one after the other, each from
  the shared state of its own moment; the machine at the end of the theory interleaves the loads with
  the accesses of the MIDI thread.
\<close>

datatype frame_load = LoadSteps | LoadCount | LoadLatest

fun frame_load_run :: "frame_load \<Rightarrow> app_state \<Rightarrow> frame_midi \<Rightarrow> frame_midi" where
  "frame_load_run LoadSteps a f = f\<lparr>fm_steps := as_midi_steps a\<rparr>"
| "frame_load_run LoadCount a f = f\<lparr>fm_transport_count := as_midi_transport_count a\<rparr>"
| "frame_load_run LoadLatest a f = f\<lparr>fm_transport_last := ucast (as_midi_transport_latest a)\<rparr>"

text \<open>The loads in the order of the code, and the fields from the states of the three moments.\<close>

definition read_frame_midi_loads :: "frame_load list" where
  "read_frame_midi_loads = [LoadSteps, LoadCount, LoadLatest]"

definition frame_midi_blank :: frame_midi where
  "frame_midi_blank = \<lparr>fm_steps = 0, fm_transport_count = 0, fm_transport_last = 0\<rparr>"

definition read_frame_midi :: "app_state \<Rightarrow> app_state \<Rightarrow> app_state \<Rightarrow> frame_midi" where
  "read_frame_midi first second third =
     fold (\<lambda>(load, a). frame_load_run load a) (zip read_frame_midi_loads [first, second, third])
       frame_midi_blank"

text \<open>
  A wake-up of the writer: the snapshot in the watch channel, the shared state at the three loads, and
  the time. The end of the analyser and the stop of the run end the loop.
\<close>

datatype writer_event =
    Snapshot raw_payload app_state app_state app_state u64
  | AnalyserClosed
  | WriterStop

record frame_writer =
  fw_region :: frame_region
  fw_rejection_logged :: bool
  fw_warnings :: nat

definition frame_writer_publish ::
  "raw_payload \<Rightarrow> frame_midi \<Rightarrow> u64 \<Rightarrow> frame_writer \<Rightarrow> frame_writer option" where
  "frame_writer_publish raw midi now w =
     (case region_publish (fw_region w) (rp_channels raw) midi now of
        None \<Rightarrow> None
      | Some (r, published) \<Rightarrow>
          let w' = w\<lparr>fw_region := r\<rparr> in
          Some (if \<not> published \<and> \<not> fw_rejection_logged w'
                then w'\<lparr>fw_warnings := fw_warnings w' + 1, fw_rejection_logged := True\<rparr> else w'))"

fun frame_writer_run :: "writer_event list \<Rightarrow> frame_writer \<Rightarrow> frame_writer option" where
  "frame_writer_run [] w = Some w"
| "frame_writer_run (AnalyserClosed # es) w = Some w"
| "frame_writer_run (WriterStop # es) w = Some w"
| "frame_writer_run (Snapshot raw a1 a2 a3 now # es) w =
     (if rp_channels raw = [] then frame_writer_run es w
      else Option.bind (frame_writer_publish raw (read_frame_midi a1 a2 a3) now w)
        (frame_writer_run es))"

section \<open>What ends up in the region\<close>

fun writer_publications :: "writer_event list \<Rightarrow> publication list" where
  "writer_publications [] = []"
| "writer_publications (AnalyserClosed # es) = []"
| "writer_publications (WriterStop # es) = []"
| "writer_publications (Snapshot raw a1 a2 a3 now # es) =
     (if rp_channels raw = [] then writer_publications es
      else (rp_channels raw, read_frame_midi a1 a2 a3, now) # writer_publications es)"

lemma frame_writer_run_publishes:
  assumes "header_good n sr mc (fw_region w)" "mem_holds (rg_mem (fw_region w)) n ps"
    "\<forall>p \<in> set (writer_publications es). publication_ok n p"
    "fw_warnings w = (if fw_rejection_logged w then 1 else 0)"
  shows "\<exists>w'. frame_writer_run es w = Some w' \<and> header_good n sr mc (fw_region w') \<and>
    mem_holds (rg_mem (fw_region w')) n (ps @ filter publication_finite (writer_publications es)) \<and>
    fw_warnings w' = (if fw_rejection_logged w \<or> (\<exists>p \<in> set (writer_publications es). \<not> publication_finite p)
      then 1 else 0)"
  using assms
proof (induction es arbitrary: w ps rule: writer_publications.induct)
  case (4 raw a1 a2 a3 now es)
  show ?case
  proof (cases "rp_channels raw = []")
    case True
    with 4 show ?thesis by simp
  next
    case False
    let ?midi = "read_frame_midi a1 a2 a3"
    have ok: "publication_ok n (rp_channels raw, ?midi, now)"
      and rest: "\<forall>p \<in> set (writer_publications es). publication_ok n p"
      using "4.prems"(3) False by simp_all
    note IH = "4.IH"(2) [OF False]
    show ?thesis
    proof (cases "channels_finite (rp_channels raw)")
      case True
      from region_publish_ok [OF "4.prems"(1,2) ok True] obtain r where
        r: "region_publish (fw_region w) (rp_channels raw) ?midi now = Some (r, True)"
          "header_good n sr mc r" "mem_holds (rg_mem r) n (ps @ [(rp_channels raw, ?midi, now)])" by blast
      have "frame_writer_publish raw ?midi now w = Some (w\<lparr>fw_region := r\<rparr>)"
        by (simp add: frame_writer_publish_def r(1))
      moreover have "publication_finite (rp_channels raw, ?midi, now)"
        using True by (simp add: publication_finite_def)
      ultimately show ?thesis
        using False IH [of "w\<lparr>fw_region := r\<rparr>" "ps @ [(rp_channels raw, ?midi, now)]"] r(2,3) rest "4.prems"(4)
        by simp
    next
      case bad: False
      have "length (rp_channels raw) = rg_channel_count (fw_region w)"
        using ok "4.prems"(1) by (simp add: publication_ok_def header_good_def)
      then have "region_publish (fw_region w) (rp_channels raw) ?midi now = Some (fw_region w, False)"
        using bad by (simp add: region_publish_def)
      moreover define w1 where "w1 = (if fw_rejection_logged w then w
        else w\<lparr>fw_warnings := fw_warnings w + 1, fw_rejection_logged := True\<rparr>)"
      have "w\<lparr>fw_region := fw_region w\<rparr> = w" by simp
      ultimately have w1: "frame_writer_publish raw ?midi now w = Some w1" "fw_region w1 = fw_region w"
        "fw_rejection_logged w1" "fw_warnings w1 = 1"
        using "4.prems"(4) by (auto simp: frame_writer_publish_def w1_def)
      have "\<not> publication_finite (rp_channels raw, ?midi, now)"
        using bad by (simp add: publication_finite_def)
      with False IH [of w1 ps] w1 rest "4.prems"(1,2) show ?thesis by simp
    qed
  qed
qed simp_all

text \<open>
  Claim C10. From the analyser to the reader: over any run of the frame writer on a fresh region, with
  snapshots of the region's channel count, a reader of the region gets exactly the last snapshot that
  was all finite, with its MIDI fields and time, and the rejection of others is logged once.
\<close>

theorem frame_writer_reaches_reader:
  assumes "frame_region_new page ok n sr mc = Inr r0" "0 < page" "length es < 2 ^ 63"
    "\<forall>p \<in> set (writer_publications es). publication_ok n p"
  shows "\<exists>w. frame_writer_run es \<lparr>fw_region = r0, fw_rejection_logged = False, fw_warnings = 0\<rparr> = Some w \<and>
    region_read (fw_region w) = frame_after (filter publication_finite (writer_publications es)) \<and>
    fw_warnings w = (if list_all publication_finite (writer_publications es) then 0 else 1)"
proof -
  note new = frame_region_new_good [OF assms(1,2)]
  let ?w = "\<lparr>fw_region = r0, fw_rejection_logged = False, fw_warnings = 0\<rparr>"
  have hold0: "mem_holds (rg_mem (fw_region ?w)) n []" using new(2) by (simp add: mem_holds_def)
  have h0: "header_good n sr mc (fw_region ?w)" using new(1) by simp
  from frame_writer_run_publishes [OF h0 hold0 assms(4)] obtain w where
    w: "frame_writer_run es ?w = Some w" "header_good n sr mc (fw_region w)"
      "mem_holds (rg_mem (fw_region w)) n (filter publication_finite (writer_publications es))"
      "fw_warnings w = (if \<exists>p \<in> set (writer_publications es). \<not> publication_finite p then 1 else 0)"
    by auto
  have "length (writer_publications es) \<le> length es"
    by (induction es rule: writer_publications.induct) auto
  then have "length (filter publication_finite (writer_publications es)) < 2 ^ 63"
    using length_filter_le [of publication_finite "writer_publications es"] assms(3) by linarith
  from region_read_holds [OF w(2,3) this] w(1,4) show ?thesis by (auto simp: list_all_iff)
qed

definition demo_snapshot :: writer_event where
  "demo_snapshot = Snapshot \<lparr>rp_channels = fst demo_publication\<rparr>
     app_state_default app_state_default app_state_default 99"

theorem frame_writer_reaches_reader_witness:
  "\<exists>r0 w. frame_region_new 16384 True 1 48000 True = Inr r0 \<and>
     frame_writer_run [demo_snapshot, WriterStop]
       \<lparr>fw_region = r0, fw_rejection_logged = False, fw_warnings = 0\<rparr> = Some w \<and>
     map_option fr_channels (region_read (fw_region w)) = Some (fst demo_publication) \<and> fw_warnings w = 0"
proof -
  obtain r0 where r0: "frame_region_new 16384 True 1 48000 True = Inr r0"
    by (simp add: frame_region_new_def)
  have pubs: "writer_publications [demo_snapshot, WriterStop] =
      [(fst demo_publication, read_frame_midi app_state_default app_state_default app_state_default, 99)]"
    by (simp add: demo_snapshot_def demo_publication_def)
  have "publication_ok 1 p = publication_ok 1 demo_publication"
    "publication_finite p = publication_finite demo_publication"
    if "p = (fst demo_publication, read_frame_midi app_state_default app_state_default app_state_default, 99)" for p
    using that by (simp_all add: publication_ok_def publication_finite_def)
  with frame_writer_reaches_reader [OF r0, of "[demo_snapshot, WriterStop]"] r0 demo_publications
  show ?thesis unfolding pubs by (auto simp: frame_after_def)
qed

section \<open>The loads against the MIDI thread\<close>

text \<open>
  The MIDI thread runs the accesses of one byte after the other, and the writer's loads, in the order
  of a given list, fall anywhere in between. The last fields are history: the Start bytes taken, the
  resets of the step count executed, the Start that wrote the latest transport, and the last two as
  they were at the loads of the steps and of the latest transport.
\<close>

record frame_race =
  fr_app :: app_state
  fr_ops :: "midi_op list"
  fr_ticks :: u8
  fr_loads :: "frame_load list"
  fr_fields :: frame_midi
  fr_starts :: nat
  fr_resets :: nat
  fr_latest_start :: nat
  fr_steps_from :: nat
  fr_latest_from :: nat

definition frame_race_init :: "frame_load list \<Rightarrow> frame_race" where
  "frame_race_init loads = \<lparr>fr_app = app_state_default, fr_ops = [], fr_ticks = 0, fr_loads = loads,
     fr_fields = frame_midi_blank, fr_starts = 0, fr_resets = 0, fr_latest_start = 0, fr_steps_from = 0,
     fr_latest_from = 0\<rparr>"

fun race_ghost :: "midi_op \<Rightarrow> frame_race \<Rightarrow> frame_race" where
  "race_ghost (StoreSteps n) s = s\<lparr>fr_resets := fr_resets s + 1\<rparr>"
| "race_ghost (StoreLatest c) s = s\<lparr>fr_latest_start := fr_starts s\<rparr>"
| "race_ghost op s = s"

fun load_ghost :: "frame_load \<Rightarrow> frame_race \<Rightarrow> frame_race" where
  "load_ghost LoadSteps s = s\<lparr>fr_steps_from := fr_resets s\<rparr>"
| "load_ghost LoadLatest s = s\<lparr>fr_latest_from := fr_latest_start s\<rparr>"
| "load_ghost LoadCount s = s"

inductive frame_race_step :: "frame_race \<Rightarrow> frame_race \<Rightarrow> bool" where
  race_byte: "fr_ops s = [] \<Longrightarrow> record_byte_ops b (fr_ticks s) = (ops, t) \<Longrightarrow>
    frame_race_step s (s\<lparr>fr_ops := ops, fr_ticks := t,
      fr_starts := (if b = MIDI_STATUS_START then fr_starts s + 1 else fr_starts s)\<rparr>)"
| race_access: "fr_ops s = op # ops \<Longrightarrow>
    frame_race_step s (race_ghost op (s\<lparr>fr_app := midi_op_run op (fr_app s), fr_ops := ops\<rparr>))"
| race_load: "fr_loads s = load # loads \<Longrightarrow>
    frame_race_step s (load_ghost load
      (s\<lparr>fr_fields := frame_load_run load (fr_app s) (fr_fields s), fr_loads := loads\<rparr>))"

text \<open>The invariant of the MIDI thread's side.\<close>

definition race_ops_safe :: "frame_race \<Rightarrow> bool" where
  "race_ops_safe s \<longleftrightarrow> fr_latest_start s \<le> fr_resets s \<and>
     (fr_ops s = StoreSteps 0 # record_transport_ops MIDI_TRANSPORT_START \<and> fr_resets s + 1 = fr_starts s \<or>
      (\<forall>n. StoreSteps n \<notin> set (fr_ops s)) \<and> fr_resets s = fr_starts s \<and>
        (StoreLatest MIDI_TRANSPORT_START \<in> set (fr_ops s) \<longrightarrow> 1 \<le> fr_starts s)) \<and>
     (as_midi_transport_latest (fr_app s) = MIDI_TRANSPORT_START \<longrightarrow> 1 \<le> fr_latest_start s)"

lemma record_byte_ops_latest:
  assumes "record_byte_ops b t = (ops, t')" "StoreLatest MIDI_TRANSPORT_START \<in> set ops"
  shows "b = MIDI_STATUS_START"
  using assms
  by (auto simp: record_byte_ops_def record_transport_ops_def midi_transport Let_def split: if_splits)

lemma race_ops_safe_step:
  assumes "race_ops_safe s" "frame_race_step s t"
  shows "race_ops_safe t \<and> fr_resets s \<le> fr_resets t"
  using assms(2)
proof cases
  case (race_byte b ops k)
  with assms(1) have "fr_resets s = fr_starts s" by (simp add: race_ops_safe_def)
  with record_byte_ops_shape(2) [OF race_byte(3)] record_byte_ops_latest [OF race_byte(3)] assms(1)
  show ?thesis unfolding race_byte(1) race_ops_safe_def by auto
next
  case (race_access op ops)
  show ?thesis
  proof (cases op)
    case (StoreSteps n)
    with assms(1) race_access(2) have "n = 0" "ops = record_transport_ops MIDI_TRANSPORT_START"
      "fr_resets s + 1 = fr_starts s" by (auto simp: race_ops_safe_def)
    with assms(1) StoreSteps show ?thesis
      by (auto simp: race_access(1) race_ops_safe_def record_transport_ops_def)
  next
    case (StoreLatest c)
    with assms(1) race_access(2) show ?thesis
      by (auto simp: race_access(1) race_ops_safe_def)
  qed (use assms(1) race_access in \<open>auto simp: race_ops_safe_def\<close>)
next
  case (race_load load loads)
  with assms(1) show ?thesis by (cases load) (simp_all add: race_ops_safe_def)
qed

text \<open>The invariant of loads that read the latest transport before the steps.\<close>

definition latest_first :: "frame_load list" where
  "latest_first = [LoadLatest, LoadCount, LoadSteps]"

definition latest_first_inv :: "frame_race \<Rightarrow> bool" where
  "latest_first_inv s \<longleftrightarrow> race_ops_safe s \<and>
     fr_loads s \<in> {latest_first, [LoadCount, LoadSteps], [LoadSteps], []} \<and>
     (fr_loads s \<noteq> latest_first \<and> fm_transport_last (fr_fields s) = 1 \<longrightarrow>
        1 \<le> fr_latest_from s \<and> fr_latest_from s \<le> fr_resets s) \<and>
     (fr_loads s = [] \<and> fm_transport_last (fr_fields s) = 1 \<longrightarrow> fr_latest_from s \<le> fr_steps_from s)"

lemma unat_ucast_u8: "unat (ucast a :: u32) = unat a" for a :: u8
  using unsigned_less [of a, where ?'a = nat] by (simp add: unsigned_ucast_eq take_bit_nat_eq_self)

lemma latest_first_step:
  assumes "latest_first_inv s" "frame_race_step s t"
  shows "latest_first_inv t"
proof -
  note safe = race_ops_safe_step [OF _ assms(2)]
  have s: "race_ops_safe s" using assms(1) by (simp add: latest_first_inv_def)
  have t: "race_ops_safe t" "fr_resets s \<le> fr_resets t" using safe [OF s] by simp_all
  from assms(2) show ?thesis
  proof cases
    case race_byte
    with assms(1) t show ?thesis by (auto simp: latest_first_inv_def)
  next
    case (race_access op ops)
    have same: "fr_loads t = fr_loads s" "fr_fields t = fr_fields s" "fr_latest_from t = fr_latest_from s"
      "fr_steps_from t = fr_steps_from s"
      by (cases op; simp add: race_access(1))+
    show ?thesis using assms(1) t by (auto simp: latest_first_inv_def same)
  next
    case (race_load load loads)
    have latest: "ucast (as_midi_transport_latest (fr_app s)) = (1 :: u32) \<Longrightarrow>
        1 \<le> fr_latest_start s \<and> fr_latest_start s \<le> fr_resets s"
    proof -
      assume "ucast (as_midi_transport_latest (fr_app s)) = (1 :: u32)"
      then have "unat (as_midi_transport_latest (fr_app s)) = unat (1 :: u32)"
        by (metis unat_ucast_u8)
      then have "as_midi_transport_latest (fr_app s) = MIDI_TRANSPORT_START"
        by (simp add: word_unat_eq_iff midi_transport)
      with s show "1 \<le> fr_latest_start s \<and> fr_latest_start s \<le> fr_resets s"
        by (simp add: race_ops_safe_def)
    qed
    from assms(1) t latest show ?thesis
      by (auto simp: latest_first_inv_def latest_first_def race_load)
  qed
qed

interpretation safe_order: transition_system "\<lambda>s. s = frame_race_init latest_first" frame_race_step
  latest_first_inv
proof
  show "latest_first_inv s" if "s = frame_race_init latest_first" for s
    unfolding that
    by (simp add: frame_race_init_def latest_first_inv_def race_ops_safe_def app_state_default_def midi_transport)
qed (rule latest_first_step)

text \<open>Runs: a byte with its accesses, without a load in between.\<close>

lemma race_accesses:
  "fr_ops s = ops @ rest \<Longrightarrow> \<exists>t. frame_race_step\<^sup>*\<^sup>* s t \<and> fr_app t = fold midi_op_run ops (fr_app s) \<and>
     fr_ops t = rest \<and> fr_ticks t = fr_ticks s \<and> fr_loads t = fr_loads s \<and> fr_fields t = fr_fields s \<and>
     fr_starts t = fr_starts s \<and> fr_steps_from t = fr_steps_from s"
proof (induction ops arbitrary: s)
  case (Cons op ops)
  define u where "u = race_ghost op (s\<lparr>fr_app := midi_op_run op (fr_app s), fr_ops := ops @ rest\<rparr>)"
  have u: "fr_app u = midi_op_run op (fr_app s)" "fr_ops u = ops @ rest" "fr_ticks u = fr_ticks s"
    "fr_loads u = fr_loads s" "fr_fields u = fr_fields s" "fr_starts u = fr_starts s"
    "fr_steps_from u = fr_steps_from s"
    by (cases op; simp add: u_def)+
  have "frame_race_step s u" unfolding u_def by (rule race_access) (use Cons.prems in simp)
  with Cons.IH [OF u(2)] show ?case
    by (auto simp: u intro: converse_rtranclp_into_rtranclp)
qed auto

lemma race_bytes:
  "fr_ops s = [] \<Longrightarrow> \<exists>t. frame_race_step\<^sup>*\<^sup>* s t \<and> (fr_app t, fr_ticks t) = record_bytes bs (fr_app s, fr_ticks s) \<and>
     fr_ops t = [] \<and> fr_loads t = fr_loads s \<and> fr_fields t = fr_fields s \<and>
     fr_starts t = fr_starts s + count_list bs MIDI_STATUS_START \<and> fr_steps_from t = fr_steps_from s"
proof (induction bs arbitrary: s)
  case Nil
  then show ?case by (intro exI [of _ s]) (simp add: record_bytes_def)
next
  case (Cons b bs)
  obtain ops k where ops: "record_byte_ops b (fr_ticks s) = (ops, k)" by (cases "record_byte_ops b (fr_ticks s)")
  define u where "u = s\<lparr>fr_ops := ops, fr_ticks := k,
    fr_starts := (if b = MIDI_STATUS_START then fr_starts s + 1 else fr_starts s)\<rparr>"
  have 1: "frame_race_step s u" unfolding u_def by (rule race_byte) (use Cons.prems ops in simp_all)
  have "fr_ops u = ops @ []" by (simp add: u_def)
  from race_accesses [OF this] obtain v where
    2: "frame_race_step\<^sup>*\<^sup>* u v" "fr_app v = fold midi_op_run ops (fr_app s)" "fr_ops v = []" "fr_ticks v = k"
      "fr_loads v = fr_loads s" "fr_fields v = fr_fields s" "fr_starts v = fr_starts u"
      "fr_steps_from v = fr_steps_from s" by (auto simp: u_def)
  from Cons.IH [OF 2(3)] obtain t where
    3: "frame_race_step\<^sup>*\<^sup>* v t" "(fr_app t, fr_ticks t) = record_bytes bs (fr_app v, fr_ticks v)" "fr_ops t = []"
      "fr_loads t = fr_loads s" "fr_fields t = fr_fields s" "fr_steps_from t = fr_steps_from s"
      "fr_starts t = fr_starts u + count_list bs MIDI_STATUS_START" by (auto simp: 2)
  have "frame_race_step\<^sup>*\<^sup>* s t" using 1 2(1) 3(1) by simp
  with 3 show ?case
    by (intro exI [of _ t]) (simp add: record_bytes_def record_byte_def ops 2 u_def)
qed

lemma clock_ticks:
  "as_midi_steps (fst (record_bytes (replicate m MIDI_STATUS_TIMING_CLOCK) (app_state_default, 0))) = of_nat (m div 6)"
  "as_midi_transport_count (fst (record_bytes (replicate m MIDI_STATUS_TIMING_CLOCK) (app_state_default, 0))) = 0"
proof -
  let ?bs = "replicate m MIDI_STATUS_TIMING_CLOCK"
  have "ticks_since k ?bs = k + m" for k
    by (induction m arbitrary: k) (simp_all add: midi_status)
  moreover have "transport_events ?bs = []"
    by (induction m) (simp_all add: transport_events_def transport_code_def map_filter_simps midi_status)
  moreover have "midi_tracks 0 (app_state_default, 0)" by (simp add: midi_tracks_def app_state_default_def)
  ultimately show "as_midi_steps (fst (record_bytes ?bs (app_state_default, 0))) = of_nat (m div 6)"
    "as_midi_transport_count (fst (record_bytes ?bs (app_state_default, 0))) = 0"
    using record_bytes_tracks [of 0 "(app_state_default, 0)" ?bs]
      record_bytes_transport [of ?bs "(app_state_default, 0)"]
    by (simp_all add: midi_tracks_def) (simp add: app_state_default_def)
qed

lemma race_load_step:
  assumes "fr_loads s = load # loads"
  shows "\<exists>t. frame_race_step s t \<and> fr_app t = fr_app s \<and> fr_ops t = fr_ops s \<and> fr_ticks t = fr_ticks s \<and>
    fr_loads t = loads \<and> fr_fields t = frame_load_run load (fr_app s) (fr_fields s) \<and>
    fr_steps_from t = (if load = LoadSteps then fr_resets s else fr_steps_from s) \<and>
    (load = LoadLatest \<longrightarrow> fr_latest_from t = fr_latest_start s)"
proof -
  let ?t = "load_ghost load (s\<lparr>fr_fields := frame_load_run load (fr_app s) (fr_fields s), fr_loads := loads\<rparr>)"
  have "frame_race_step s ?t" by (rule race_load [OF assms])
  moreover have "fr_app ?t = fr_app s \<and> fr_ops ?t = fr_ops s \<and> fr_ticks ?t = fr_ticks s \<and>
    fr_loads ?t = loads \<and> fr_fields ?t = frame_load_run load (fr_app s) (fr_fields s) \<and>
    fr_steps_from ?t = (if load = LoadSteps then fr_resets s else fr_steps_from s) \<and>
    (load = LoadLatest \<longrightarrow> fr_latest_from ?t = fr_latest_start s)"
    by (cases load) simp_all
  ultimately show ?thesis by blast
qed

lemma race_start:
  assumes "fr_ops s = []"
  shows "\<exists>t. frame_race_step\<^sup>*\<^sup>* s t \<and> as_midi_steps (fr_app t) = 0 \<and> fr_ops t = [] \<and>
    as_midi_transport_count (fr_app t) = as_midi_transport_count (fr_app s) + 1 \<and>
    as_midi_transport_latest (fr_app t) = MIDI_TRANSPORT_START \<and>
    fr_loads t = fr_loads s \<and> fr_fields t = fr_fields s \<and> fr_steps_from t = fr_steps_from s"
proof -
  from race_bytes [OF assms, of "[MIDI_STATUS_START]"] obtain t where
    "frame_race_step\<^sup>*\<^sup>* s t" "(fr_app t, fr_ticks t) = record_byte MIDI_STATUS_START (fr_app s, fr_ticks s)"
    "fr_ops t = []" "fr_loads t = fr_loads s" "fr_fields t = fr_fields s" "fr_steps_from t = fr_steps_from s"
    by (auto simp: record_bytes_def)
  then show ?thesis
    by (intro exI [of _ t]) (simp add: record_byte_def record_byte_ops_def)
qed

lemma race_safe_reached:
  assumes "frame_race_step\<^sup>*\<^sup>* (frame_race_init loads) s"
  shows "race_ops_safe s"
  using assms
proof induction
  case base
  show ?case by (simp add: frame_race_init_def race_ops_safe_def app_state_default_def midi_transport)
qed (use race_ops_safe_step in blast)

text \<open>
  Claim C14. The order of the frame writer's loads. With the steps loaded before the transport fields,
  as the code does, a Start can fall in between, after any number of clock ticks: the frame then
  reports the Start, by its count and its kind, with the step count from before that Start's reset,
  which was done by the time the transport was loaded. The order is the cause: with the latest transport loaded before the
  steps, wherever the loads fall between the accesses of the MIDI thread, a frame that names a
  Start never has a step count from before that Start's reset. (The mapper loads in such an order:
  \<open>snapshot_start_is_fresh\<close>.)
\<close>

theorem frame_midi_stale_start:
  "(\<exists>s. reach (\<lambda>s. s = frame_race_init read_frame_midi_loads) frame_race_step s \<and> fr_loads s = [] \<and>
      fr_fields s = \<lparr>fm_steps = of_nat (ticks div 6), fm_transport_count = 1, fm_transport_last = 1\<rparr> \<and>
      fr_steps_from s = 0 \<and> 1 \<le> fr_latest_from s \<and> as_midi_steps (fr_app s) = 0) \<and>
   (reach (\<lambda>s. s = frame_race_init latest_first) frame_race_step t \<and> fr_loads t = [] \<and>
      fm_transport_last (fr_fields t) = 1 \<longrightarrow> 1 \<le> fr_latest_from t \<and> fr_latest_from t \<le> fr_steps_from t)"
proof
  let ?init = "frame_race_init read_frame_midi_loads"
  have init: "fr_ops ?init = []" "fr_app ?init = app_state_default" "fr_ticks ?init = 0"
    "fr_loads ?init = [LoadSteps, LoadCount, LoadLatest]"
    by (simp_all add: frame_race_init_def read_frame_midi_loads_def)
  let ?bs = "replicate ticks MIDI_STATUS_TIMING_CLOCK"
  from race_bytes [OF init(1), of ?bs] obtain s1 where
    0: "frame_race_step\<^sup>*\<^sup>* ?init s1" "(fr_app s1, fr_ticks s1) = record_bytes ?bs (app_state_default, 0)"
      "fr_ops s1 = []" "fr_loads s1 = fr_loads ?init" "fr_starts s1 = fr_starts ?init + count_list ?bs MIDI_STATUS_START"
    unfolding init(2,3) by blast
  have "count_list ?bs MIDI_STATUS_START = 0" by (auto simp: count_list_0_iff midi_status)
  then have "fr_starts s1 = 0" using 0(5) by (simp add: frame_race_init_def)
  moreover have "fr_app s1 = fst (record_bytes ?bs (app_state_default, 0))" using arg_cong [OF 0(2), of fst] by simp
  ultimately have 1: "frame_race_step\<^sup>*\<^sup>* ?init s1" "fr_ops s1 = []" "fr_loads s1 = [LoadSteps, LoadCount, LoadLatest]"
      "as_midi_steps (fr_app s1) = of_nat (ticks div 6)" "as_midi_transport_count (fr_app s1) = 0" "fr_resets s1 = 0"
    using 0(1,3,4) init(4) clock_ticks [of ticks] race_safe_reached [OF 0(1)] by (simp_all add: race_ops_safe_def)
  from race_load_step [OF 1(3)] obtain s2 where
    2: "frame_race_step s1 s2" "fr_app s2 = fr_app s1" "fr_ops s2 = []" "fr_loads s2 = [LoadCount, LoadLatest]"
      "fm_steps (fr_fields s2) = of_nat (ticks div 6)" "fr_steps_from s2 = 0" by (auto simp: 1)
  from race_start [OF 2(3)] obtain s3 where
    3: "frame_race_step\<^sup>*\<^sup>* s2 s3" "as_midi_steps (fr_app s3) = 0" "as_midi_transport_count (fr_app s3) = 1"
      "as_midi_transport_latest (fr_app s3) = MIDI_TRANSPORT_START" "fr_loads s3 = [LoadCount, LoadLatest]"
      "fr_fields s3 = fr_fields s2" "fr_steps_from s3 = 0" by (auto simp: 1 2)
  from race_load_step [OF 3(5)] obtain s4 where
    4: "frame_race_step s3 s4" "fr_app s4 = fr_app s3" "fr_loads s4 = [LoadLatest]"
      "fr_fields s4 = (fr_fields s2)\<lparr>fm_transport_count := 1\<rparr>" "fr_steps_from s4 = 0" by (auto simp: 3)
  have to4: "frame_race_step\<^sup>*\<^sup>* ?init s4"
    using 1(1) 2(1) 3(1) 4(1) by (meson rtranclp.rtrancl_into_rtrancl rtranclp_trans)
  then have "1 \<le> fr_latest_start s4" using race_safe_reached [OF to4] 3(4) 4(2) by (simp add: race_ops_safe_def)
  with race_load_step [OF 4(3)] obtain s5 where
    5: "frame_race_step s4 s5" "fr_app s5 = fr_app s3" "fr_loads s5 = []" "fr_steps_from s5 = 0" "1 \<le> fr_latest_from s5"
      "fr_fields s5 = (fr_fields s2)\<lparr>fm_transport_count := 1, fm_transport_last := 1\<rparr>"
    by (auto simp: 3 4 midi_transport)
  from to4 5(1) have "frame_race_step\<^sup>*\<^sup>* ?init s5" by (rule rtranclp.rtrancl_into_rtrancl)
  then have "reach (\<lambda>s. s = ?init) frame_race_step s5" by (rule reach_steps) (rule reach_init, rule refl)
  moreover have "fr_fields s5 = \<lparr>fm_steps = of_nat (ticks div 6), fm_transport_count = 1, fm_transport_last = 1\<rparr>"
    using 2(5) by (simp add: 5)
  ultimately show "\<exists>s. reach (\<lambda>s. s = ?init) frame_race_step s \<and> fr_loads s = [] \<and>
      fr_fields s = \<lparr>fm_steps = of_nat (ticks div 6), fm_transport_count = 1, fm_transport_last = 1\<rparr> \<and>
      fr_steps_from s = 0 \<and> 1 \<le> fr_latest_from s \<and> as_midi_steps (fr_app s) = 0"
    using 5(2-5) 3(2) by auto
  show "reach (\<lambda>s. s = frame_race_init latest_first) frame_race_step t \<and> fr_loads t = [] \<and>
      fm_transport_last (fr_fields t) = 1 \<longrightarrow> 1 \<le> fr_latest_from t \<and> fr_latest_from t \<le> fr_steps_from t"
    using safe_order.reachable_inv [of t] by (auto simp: latest_first_inv_def latest_first_def)
qed

text \<open>A Start, and then the loads in the safe order.\<close>

theorem frame_midi_stale_start_witness:
  "\<exists>t :: frame_race. fr_loads t = [] \<and> fr_fields t = \<lparr>fm_steps = 0, fm_transport_count = 1, fm_transport_last = 1\<rparr> \<and>
     1 \<le> fr_latest_from t \<and> fr_latest_from t \<le> fr_steps_from t"
proof -
  let ?init = "frame_race_init latest_first"
  have init: "fr_ops ?init = []" "fr_app ?init = app_state_default" "fr_fields ?init = frame_midi_blank"
    "fr_loads ?init = [LoadLatest, LoadCount, LoadSteps]"
    by (simp_all add: frame_race_init_def latest_first_def)
  from race_start [OF init(1)] obtain s1 where
    1: "frame_race_step\<^sup>*\<^sup>* ?init s1" "as_midi_steps (fr_app s1) = 0" "as_midi_transport_count (fr_app s1) = 1"
      "as_midi_transport_latest (fr_app s1) = MIDI_TRANSPORT_START"
      "fr_loads s1 = [LoadLatest, LoadCount, LoadSteps]" "fr_fields s1 = frame_midi_blank"
    by (auto simp: init app_state_default_def)
  from race_load_step [OF 1(5)] obtain s2 where
    2: "frame_race_step s1 s2" "fr_app s2 = fr_app s1" "fr_loads s2 = [LoadCount, LoadSteps]"
      "fr_fields s2 = frame_midi_blank\<lparr>fm_transport_last := 1\<rparr>" by (auto simp: 1 midi_transport)
  from race_load_step [OF 2(3)] obtain s3 where
    3: "frame_race_step s2 s3" "fr_app s3 = fr_app s1" "fr_loads s3 = [LoadSteps]"
      "fr_fields s3 = frame_midi_blank\<lparr>fm_transport_last := 1, fm_transport_count := 1\<rparr>" by (auto simp: 1 2)
  from race_load_step [OF 3(3)] obtain t where
    4: "frame_race_step s3 t" "fr_loads t = []"
      "fr_fields t = \<lparr>fm_steps = 0, fm_transport_count = 1, fm_transport_last = 1\<rparr>"
    by (auto simp: 1 3 frame_midi_blank_def)
  have "frame_race_step\<^sup>*\<^sup>* ?init t"
    using 1(1) 2(1) 3(1) 4(1) by (meson rtranclp.rtrancl_into_rtrancl)
  then have "reach (\<lambda>s. s = ?init) frame_race_step t" by (rule reach_steps) (rule reach_init, rule refl)
  then have "1 \<le> fr_latest_from t \<and> fr_latest_from t \<le> fr_steps_from t"
    using frame_midi_stale_start [of 0 t] 4(2,3) by simp
  with 4(2,3) show ?thesis by blast
qed

end
