(* ===== verification/Worker.thy ===== *)
theory Worker
  imports Prelude
begin

text \<open>
  The worker registry of \<^verbatim>\<open>src/src/worker.rs\<close>. A thread is what the join loop can see of it: when
  it ends, which may depend on the wake-ups it has been sent so far, and whether its closure panics.
  The clock is the number of nanoseconds since some epoch; every reading of it and every sleep may
  take longer than asked for, by an amount \<open>delay k\<close> for the k-th such call.
\<close>

section \<open>Definitions\<close>

definition SHUTDOWN_POLL_MS :: nat where
  "SHUTDOWN_POLL_MS = 10"

definition GENERATOR_SHUTDOWN_TIMEOUT_MS :: nat where
  "GENERATOR_SHUTDOWN_TIMEOUT_MS = 250"

definition ANALYSER_SHUTDOWN_TIMEOUT_MS :: nat where
  "ANALYSER_SHUTDOWN_TIMEOUT_MS = 1000"

definition MAPPER_SHUTDOWN_TIMEOUT_MS :: nat where
  "MAPPER_SHUTDOWN_TIMEOUT_MS = 1000"

definition MIDI_INPUT_SHUTDOWN_TIMEOUT_MS :: nat where
  "MIDI_INPUT_SHUTDOWN_TIMEOUT_MS = 250"

definition SERVER_SHUTDOWN_TIMEOUT_MS :: nat where
  "SERVER_SHUTDOWN_TIMEOUT_MS = 1500"

definition OSC_SENDER_SHUTDOWN_TIMEOUT_MS :: nat where
  "OSC_SENDER_SHUTDOWN_TIMEOUT_MS = 1500"

definition FRAME_WRITER_SHUTDOWN_TIMEOUT_MS :: nat where
  "FRAME_WRITER_SHUTDOWN_TIMEOUT_MS = 1000"

definition duration_from_millis :: "nat \<Rightarrow> nat" where
  "duration_from_millis ms = ms * 1000000"

lemmas worker_constants = SHUTDOWN_POLL_MS_def GENERATOR_SHUTDOWN_TIMEOUT_MS_def
  ANALYSER_SHUTDOWN_TIMEOUT_MS_def MAPPER_SHUTDOWN_TIMEOUT_MS_def MIDI_INPUT_SHUTDOWN_TIMEOUT_MS_def
  SERVER_SHUTDOWN_TIMEOUT_MS_def OSC_SENDER_SHUTDOWN_TIMEOUT_MS_def
  FRAME_WRITER_SHUTDOWN_TIMEOUT_MS_def duration_from_millis_def

datatype join_outcome = Joined | TimedOut | Panicked

record worker_spec =
  ws_name :: string
  ws_success_message :: string
  ws_timeout_ms :: nat

definition worker_timeout :: "worker_spec \<Rightarrow> nat" where
  "worker_timeout spec = duration_from_millis (ws_timeout_ms spec)"

datatype worker_kind =
  KGenerator | KAnalyser | KMapper | KMidiInput | KWebSocket | KOsc | KFrameWriter

fun worker_kind_spec :: "worker_kind \<Rightarrow> worker_spec" where
  "worker_kind_spec KGenerator =
     \<lparr>ws_name = ''generator'', ws_success_message = ''- Generator shutdown complete'',
      ws_timeout_ms = GENERATOR_SHUTDOWN_TIMEOUT_MS\<rparr>"
| "worker_kind_spec KAnalyser =
     \<lparr>ws_name = ''analyser'', ws_success_message = ''- Analyser shutdown complete'',
      ws_timeout_ms = ANALYSER_SHUTDOWN_TIMEOUT_MS\<rparr>"
| "worker_kind_spec KMapper =
     \<lparr>ws_name = ''mapper'', ws_success_message = ''- Mapper shutdown complete'',
      ws_timeout_ms = MAPPER_SHUTDOWN_TIMEOUT_MS\<rparr>"
| "worker_kind_spec KMidiInput =
     \<lparr>ws_name = ''midi-input'', ws_success_message = ''- MIDI input shutdown complete'',
      ws_timeout_ms = MIDI_INPUT_SHUTDOWN_TIMEOUT_MS\<rparr>"
| "worker_kind_spec KWebSocket =
     \<lparr>ws_name = ''websocket-server'', ws_success_message = ''- WebSocket server shutdown complete'',
      ws_timeout_ms = SERVER_SHUTDOWN_TIMEOUT_MS\<rparr>"
| "worker_kind_spec KOsc =
     \<lparr>ws_name = ''osc-sender'', ws_success_message = ''- OSC sender shutdown complete'',
      ws_timeout_ms = OSC_SENDER_SHUTDOWN_TIMEOUT_MS\<rparr>"
| "worker_kind_spec KFrameWriter =
     \<lparr>ws_name = ''frame-writer'', ws_success_message = ''- Frame writer shutdown complete'',
      ws_timeout_ms = FRAME_WRITER_SHUTDOWN_TIMEOUT_MS\<rparr>"

record worker_handle =
  wh_end :: "nat list \<Rightarrow> nat option"
  wh_panics :: bool

definition is_finished :: "worker_handle \<Rightarrow> nat list \<Rightarrow> nat \<Rightarrow> bool" where
  "is_finished h unparks t = (case wh_end h unparks of Some e \<Rightarrow> e \<le> t | None \<Rightarrow> False)"

type_synonym clock = "nat \<times> nat"

type_synonym workers = "(worker_spec \<times> worker_handle) list"

definition worker_register :: "workers \<Rightarrow> worker_kind \<Rightarrow> worker_handle \<Rightarrow> workers" where
  "worker_register registered kind h = registered @ [(worker_kind_spec kind, h)]"

text \<open>
  The loop of \<^verbatim>\<open>join_with_timeout\<close>: the check, the clock reading, the wake-up and the sleep. It
  ends because every sleep before the deadline has a positive length.
\<close>

function join_loop ::
  "(nat \<Rightarrow> nat) \<Rightarrow> nat \<Rightarrow> worker_handle \<Rightarrow> nat list \<Rightarrow> clock \<Rightarrow> join_outcome \<times> clock" where
  "join_loop delay deadline h unparks (t, k) =
     (if is_finished h unparks t then (if wh_panics h then Panicked else Joined, (t, k))
      else let now = t + delay k in
        if deadline \<le> now then (TimedOut, (now, k + 1))
        else let pause = min (deadline - now) (duration_from_millis SHUTDOWN_POLL_MS) in
          join_loop delay deadline h (unparks @ [now]) (now + pause + delay (k + 1), k + 2))"
  by pat_completeness auto
termination
  by (relation "measure (\<lambda>(delay, deadline, h, unparks, t, k). deadline - t)")
    (auto simp: worker_constants)

declare join_loop.simps [simp del]

definition join_with_timeout ::
  "(nat \<Rightarrow> nat) \<Rightarrow> worker_spec \<Rightarrow> worker_handle \<Rightarrow> clock \<Rightarrow> join_outcome \<times> clock" where
  "join_with_timeout delay spec h clk = (case clk of (t, k) \<Rightarrow>
     let now = t + delay k in join_loop delay (now + worker_timeout spec) h [] (now, k + 1))"

text \<open>\<open>join_and_log\<close> gives the success line of a clean join and nothing otherwise.\<close>

definition join_and_log ::
  "(nat \<Rightarrow> nat) \<Rightarrow> worker_spec \<Rightarrow> worker_handle \<Rightarrow> clock \<Rightarrow> string list \<times> join_outcome \<times> clock" where
  "join_and_log delay spec h clk = (case join_with_timeout delay spec h clk of (outcome, clk') \<Rightarrow>
     (if outcome = Joined then [ws_success_message spec] else [], outcome, clk'))"

text \<open>
  \<^verbatim>\<open>shutdown\<close> drains the registry. It returns the emptied registry, the success lines, the name
  and outcome of each join in the order of the joins, and the clock.
\<close>

fun join_all ::
  "(nat \<Rightarrow> nat) \<Rightarrow> workers \<Rightarrow> clock \<Rightarrow> string list \<times> (string \<times> join_outcome) list \<times> clock" where
  "join_all delay [] clk = ([], [], clk)"
| "join_all delay ((spec, h) # registered) clk =
     (case join_and_log delay spec h clk of (lines, outcome, clk') \<Rightarrow>
      case join_all delay registered clk' of (lines', outcomes, clk'') \<Rightarrow>
        (lines @ lines', (ws_name spec, outcome) # outcomes, clk''))"

definition workers_shutdown ::
  "(nat \<Rightarrow> nat) \<Rightarrow> workers \<Rightarrow> clock
    \<Rightarrow> workers \<times> string list \<times> (string \<times> join_outcome) list \<times> clock" where
  "workers_shutdown delay registered clk = ([], join_all delay registered clk)"

section \<open>The join loop\<close>

text \<open>
  The contract of one join: it returns by its deadline plus two overheads, a timeout means that the
  thread had not ended when the deadline was near, and an end in time is seen.
\<close>

definition ends_by :: "nat \<Rightarrow> worker_handle \<Rightarrow> bool" where
  "ends_by t h \<longleftrightarrow> (\<forall>unparks. is_finished h unparks t)"

lemma is_finished_mono: "is_finished h us t \<Longrightarrow> t \<le> t' \<Longrightarrow> is_finished h us t'"
  by (auto simp: is_finished_def split: option.splits)

text \<open>The proof rule of the loop: an invariant of the wake-ups sent, the time and the call count.\<close>

lemma join_loop_rule:
  fixes deadline :: nat
  assumes "I us t k"
    and "\<And>us t k now pause. I us t k \<Longrightarrow> \<not> is_finished h us t \<Longrightarrow> now = t + delay k \<Longrightarrow>
      now < deadline \<Longrightarrow> pause \<le> deadline - now \<Longrightarrow>
      I (us @ [now]) (now + pause + delay (k + 1)) (k + 2)"
    and "\<And>us t k. I us t k \<Longrightarrow> is_finished h us t \<Longrightarrow>
      Q (if wh_panics h then Panicked else Joined, t, k)"
    and "\<And>us t k. I us t k \<Longrightarrow> \<not> is_finished h us t \<Longrightarrow> deadline \<le> t + delay k \<Longrightarrow>
      Q (TimedOut, t + delay k, k + 1)"
  shows "Q (join_loop delay deadline h us (t, k))"
  using assms(1)
proof (induction "deadline - t" arbitrary: us t k rule: less_induct)
  case less
  let ?now = "t + delay k"
  let ?pause = "min (deadline - ?now) (duration_from_millis SHUTDOWN_POLL_MS)"
  show ?case
  proof (cases "is_finished h us t \<or> deadline \<le> ?now")
    case True
    with less.prems assms(3,4) show ?thesis by (subst join_loop.simps) (auto simp: Let_def)
  next
    case False
    then have "I (us @ [?now]) (?now + ?pause + delay (k + 1)) (k + 2)"
      using less.prems by (intro assms(2)) auto
    moreover have "deadline - (?now + ?pause + delay (k + 1)) < deadline - t"
      using False by (auto simp: worker_constants)
    ultimately have "Q (join_loop delay deadline h (us @ [?now])
        (?now + ?pause + delay (k + 1), k + 2))"
      by (intro less.hyps)
    with False show ?thesis by (subst join_loop.simps) (simp add: Let_def)
  qed
qed

lemma join_loop_time:
  assumes j: "\<forall>k. delay k \<le> j" and "t \<le> deadline + j"
  shows "fst (snd (join_loop delay deadline h us (t, k))) \<le> deadline + 2 * j"
proof (rule join_loop_rule [where I = "\<lambda>us t k. t \<le> deadline + j"])
  fix t now pause :: nat and k :: nat
  assume "now < deadline" "pause \<le> deadline - now"
  then show "now + pause + delay (k + 1) \<le> deadline + j"
    using j [rule_format, of "k + 1"] by linarith
next
  fix us t k
  assume "t \<le> deadline + j"
  then show "fst (snd (TimedOut, t + delay k, k + 1)) \<le> deadline + 2 * j"
    using j [rule_format, of k] by simp
qed (use assms in auto)

lemma join_loop_in_time:
  assumes j: "\<forall>k. delay k \<le> j" and e: "ends_by e h" "e + j \<le> deadline"
  shows "fst (join_loop delay deadline h us (t, k)) = (if wh_panics h then Panicked else Joined)"
proof (rule join_loop_rule [where I = "\<lambda>us t k. True"])
  fix us t k
  assume t: "\<not> is_finished h us t" and "deadline \<le> t + delay k"
  then have "e \<le> t" using e(2) j [rule_format, of k] by linarith
  with t e(1) is_finished_mono show "fst (TimedOut, t + delay k, k + 1) =
      (if wh_panics h then Panicked else Joined)"
    unfolding ends_by_def by blast
qed auto

lemma join_loop_never:
  assumes "\<forall>us t. \<not> is_finished h us t"
  shows "fst (join_loop delay deadline h us (t, k)) = TimedOut"
  by (rule join_loop_rule [where I = "\<lambda>us t k. True"]) (use assms in auto)

text \<open>
  A thread that is parked and ends within \<open>r\<close> of the first wake-up it gets after the run flag was
  cleared, as the MIDI input thread does.
\<close>

definition wakes_within :: "nat \<Rightarrow> worker_handle \<Rightarrow> bool" where
  "wakes_within r h \<longleftrightarrow>
     wh_end h [] = None \<and> (\<forall>u us. \<exists>e \<le> u + r. wh_end h (u # us) = Some e)"

lemma wakes_within_finished:
  assumes "wakes_within r h" "us \<noteq> []" "hd us + r \<le> t"
  shows "is_finished h us t"
proof -
  obtain u us' where us: "us = u # us'" using assms(2) by (cases us) auto
  with assms(1) obtain e where "e \<le> u + r" "wh_end h us = Some e" by (auto simp: wakes_within_def)
  with us assms(3) show ?thesis by (simp add: is_finished_def)
qed

lemma join_with_timeout_woken:
  assumes j: "\<forall>k. delay k \<le> j" and w: "wakes_within r h" and r: "r + 2 * j < worker_timeout spec"
  shows "fst (join_with_timeout delay spec h (t, k)) = (if wh_panics h then Panicked else Joined)"
proof -
  let ?start = "t + delay k"
  let ?deadline = "?start + worker_timeout spec"
  have "fst (join_loop delay ?deadline h [] (?start, k + 1)) =
      (if wh_panics h then Panicked else Joined)"
  proof (rule join_loop_rule [where I =
        "\<lambda>us t k. us = [] \<and> t = ?start \<or> us \<noteq> [] \<and> hd us \<le> ?start + j"])
    fix us now k' and t' :: nat
    assume "us = [] \<and> t' = ?start \<or> us \<noteq> [] \<and> hd us \<le> ?start + j" "now = t' + delay k'"
    then show "us @ [now] = [] \<and> now + pause + delay (k' + 1) = ?start \<or>
        us @ [now] \<noteq> [] \<and> hd (us @ [now]) \<le> ?start + j" for pause
      using j by (cases us) auto
  next
    fix us t' k'
    assume I: "us = [] \<and> t' = ?start \<or> us \<noteq> [] \<and> hd us \<le> ?start + j"
      and late: "?deadline \<le> t' + delay k'" and not: "\<not> is_finished h us t'"
    have d: "delay k' \<le> j" using j by simp
    from I show "fst (TimedOut, t' + delay k', k' + 1) = (if wh_panics h then Panicked else Joined)"
    proof
      assume "us = [] \<and> t' = ?start"
      with late d r show ?thesis by linarith
    next
      assume us: "us \<noteq> [] \<and> hd us \<le> ?start + j"
      then have "hd us + r \<le> t'" using late d r by linarith
      with wakes_within_finished [OF w] us not show ?thesis by blast
    qed
  qed auto
  then show ?thesis by (simp add: join_with_timeout_def Let_def)
qed

section \<open>The shutdown\<close>

lemma join_with_timeout_time:
  assumes "\<forall>k. delay k \<le> j"
  shows "fst (snd (join_with_timeout delay spec h (t, k))) \<le> t + worker_timeout spec + 3 * j"
proof -
  have d: "delay k \<le> j" using assms by simp
  have "fst (snd (join_loop delay (t + delay k + worker_timeout spec) h [] (t + delay k, k + 1)))
      \<le> t + delay k + worker_timeout spec + 2 * j"
    by (rule join_loop_time [OF assms]) simp
  with d show ?thesis unfolding join_with_timeout_def Let_def by simp
qed

lemma join_with_timeout_advances: "t \<le> fst (snd (join_with_timeout delay spec h (t, k)))"
proof -
  have "t \<le> fst (snd (join_loop delay deadline h us (t', k')))" if "t \<le> t'" for deadline us t' k'
    by (rule join_loop_rule [where I = "\<lambda>us t' k. t \<le> t'"]) (use that in auto)
  then show ?thesis by (simp add: join_with_timeout_def Let_def)
qed

text \<open>
  What the shutdown promises of a worker: it is joined when its thread ends, or wakes up, within
  its grace period less the overheads, counted from the start of the shutdown, and it is detached
  when its thread never ends.
\<close>

definition join_good :: "nat \<Rightarrow> nat \<Rightarrow> worker_spec \<times> worker_handle \<Rightarrow> string \<times> join_outcome \<Rightarrow> bool" where
  "join_good j t w x \<longleftrightarrow> fst x = ws_name (fst w) \<and>
     ((\<exists>e. ends_by e (snd w) \<and> e + j \<le> t + worker_timeout (fst w)) \<or>
      (\<exists>r. wakes_within r (snd w) \<and> r + 2 * j < worker_timeout (fst w)) \<longrightarrow>
        snd x = (if wh_panics (snd w) then Panicked else Joined)) \<and>
     ((\<forall>us t. \<not> is_finished (snd w) us t) \<longrightarrow> snd x = TimedOut)"

lemma join_with_timeout_good:
  assumes "\<forall>k. delay k \<le> j" "t0 \<le> t"
  shows "join_good j t0 (spec, h) (ws_name spec, fst (join_with_timeout delay spec h (t, k)))"
proof -
  have "fst (join_with_timeout delay spec h (t, k)) = (if wh_panics h then Panicked else Joined)"
    if "ends_by e h" "e + j \<le> t0 + worker_timeout spec" for e
  proof -
    have "e + j \<le> t + delay k + worker_timeout spec" using that assms(2) by linarith
    from join_loop_in_time [OF assms(1) that(1) this] show ?thesis
      by (simp add: join_with_timeout_def Let_def)
  qed
  moreover have "fst (join_with_timeout delay spec h (t, k)) = TimedOut"
    if "\<forall>us t. \<not> is_finished h us t"
    using join_loop_never [OF that] by (simp add: join_with_timeout_def Let_def)
  ultimately show ?thesis
    using join_with_timeout_woken [OF assms(1)] by (auto simp: join_good_def)
qed

lemma join_all_bounded:
  assumes "\<forall>k. delay k \<le> j" "t0 \<le> t"
  shows "list_all2 (join_good j t0) ws (fst (snd (join_all delay ws (t, k)))) \<and>
    fst (snd (snd (join_all delay ws (t, k)))) \<le>
      t + sum_list (map (\<lambda>w. worker_timeout (fst w)) ws) + 3 * j * length ws"
  using assms(2)
proof (induction ws arbitrary: t k)
  case (Cons w ws)
  obtain spec h where w: "w = (spec, h)" by (cases w)
  obtain outcome t' k' where jt: "join_with_timeout delay spec h (t, k) = (outcome, t', k')"
    by (cases "join_with_timeout delay spec h (t, k)")
  have t': "t \<le> t'" "t' \<le> t + worker_timeout spec + 3 * j"
    using join_with_timeout_advances [of t delay spec h k]
      join_with_timeout_time [OF assms(1), of spec h t k] jt by simp_all
  have good: "join_good j t0 w (ws_name spec, outcome)"
    using join_with_timeout_good [OF assms(1) Cons.prems, of spec h k] jt w by simp
  from Cons.IH [of t' k'] t'(1) Cons.prems
  have IH: "list_all2 (join_good j t0) ws (fst (snd (join_all delay ws (t', k'))))"
    "fst (snd (snd (join_all delay ws (t', k')))) \<le>
       t' + sum_list (map (\<lambda>w. worker_timeout (fst w)) ws) + 3 * j * length ws" by simp_all
  obtain lines outcomes t'' k'' where rest: "join_all delay ws (t', k') = (lines, outcomes, t'', k'')"
    by (cases "join_all delay ws (t', k')")
  from IH good t'(2) show ?case
    by (simp add: w jt rest join_and_log_def algebra_simps)
qed simp

lemma join_all_names:
  "map fst (fst (snd (join_all delay ws clk))) = map (\<lambda>w. ws_name (fst w)) ws"
  by (induction delay ws clk rule: join_all.induct) (auto simp: join_and_log_def split: prod.splits)

text \<open>
  Claim C36. The shutdown is bounded and loses no worker: it joins the workers in the order they were
  registered, whatever their threads do; a worker whose thread ends within its grace period, or
  that was parked and leaves when it is woken, is joined or reported as panicked; a thread that
  never ends is detached; the whole takes no longer than the sum of the grace periods, up to three
  scheduling delays for each worker; and the registry is empty afterwards.
\<close>

theorem workers_shutdown_bounded:
  assumes "\<forall>k. delay k \<le> j" "workers_shutdown delay ws (t, k) = (ws', lines, outcomes, t', k')"
  shows "list_all2 (join_good j t) ws outcomes \<and>
    t' \<le> t + sum_list (map (\<lambda>w. worker_timeout (fst w)) ws) + 3 * j * length ws \<and> ws' = []"
  using join_all_bounded [OF assms(1), of t t ws k] assms(2) by (auto simp: workers_shutdown_def)

text \<open>
  An analyser that ends after 300 ms, a parked MIDI holder that leaves 1 ms after it is woken, and a
  generator that hangs.
\<close>

definition demo_workers :: workers where
  "demo_workers =
     worker_register (worker_register (worker_register []
       KAnalyser \<lparr>wh_end = (\<lambda>us. Some 300000000), wh_panics = False\<rparr>)
       KMidiInput \<lparr>wh_end = (\<lambda>us. case us of [] \<Rightarrow> None | u # us \<Rightarrow> Some (u + 1000000)), wh_panics = False\<rparr>)
       KGenerator \<lparr>wh_end = (\<lambda>us. None), wh_panics = False\<rparr>"

theorem workers_shutdown_bounded_witness:
  "list_all2 (join_good 100 0) demo_workers
     (fst (snd (snd (workers_shutdown (\<lambda>k. 100) demo_workers (0, 0))))) \<and>
   fst (snd (snd (snd (workers_shutdown (\<lambda>k. 100) demo_workers (0, 0))))) \<le> 1500000900 \<and>
   fst (workers_shutdown (\<lambda>k. 100) demo_workers (0, 0)) = []"
proof -
  obtain ws' lines outcomes t' k' where
    eq: "workers_shutdown (\<lambda>k. 100) demo_workers (0, 0) = (ws', lines, outcomes, t', k')"
    by (cases "workers_shutdown (\<lambda>k. 100) demo_workers (0, 0)")
  have "sum_list (map (\<lambda>w. worker_timeout (fst w)) demo_workers) = 1500000000" "length demo_workers = 3"
    by (simp_all add: demo_workers_def worker_register_def worker_timeout_def worker_constants)
  with workers_shutdown_bounded [OF _ eq, of 100] show ?thesis by (simp add: eq)
qed

end
