(* ===== verification/Headless.thy ===== *)
theory Headless
  imports Audio Midi
begin

text \<open>
  The supervision contract of \<^verbatim>\<open>src/src/headless.rs\<close>: the facts of the ready event, the events and
  their JSON, the stable error codes, the decision that ends a run, and the stdin watcher. The text
  that serde writes for a value is a parameter; the values it gets are modelled.
\<close>

section \<open>Reports and events\<close>

definition EVENT_SCHEMA_VERSION :: nat where
  "EVENT_SCHEMA_VERSION = 1"

definition PANIC_EVENT_CODE :: string where
  "PANIC_EVENT_CODE = ''Panic''"

definition UNKNOWN_EVENT_CODE :: string where
  "UNKNOWN_EVENT_CODE = ''Unknown''"

record ready_audio =
  ra_device :: "rstring option"
  ra_sample_rate :: u32
  ra_channels :: "u16 list"

record ready_outputs =
  ro_websocket :: "socket_addr option"
  ro_osc :: "socket_addr option"

record ready_report =
  rr_audio :: ready_audio
  rr_midi_device :: "rstring option"
  rr_outputs :: ready_outputs

datatype shutdown_reason = Signal | StdinClosed

datatype headless_stop = Requested shutdown_reason | Engine

datatype event =
    Ready ready_report
  | Error string rstring
  | Shutdown shutdown_reason

text \<open>
  A JSON value as the serializer sees it: an object keeps the order of its entries. \<open>show_addr\<close> is
  the display form of a socket address.
\<close>

datatype json =
    JNull
  | JNum nat
  | JStr rstring
  | JArr "json list"
  | JObj "(string \<times> json) list"

definition json_opt :: "('a \<Rightarrow> json) \<Rightarrow> 'a option \<Rightarrow> json" where
  "json_opt f x = (case x of None \<Rightarrow> JNull | Some y \<Rightarrow> f y)"

definition ready_audio_json :: "ready_audio \<Rightarrow> json" where
  "ready_audio_json a = JObj
     [(''device'', json_opt JStr (ra_device a)),
      (''sample_rate'', JNum (unat (ra_sample_rate a))),
      (''channels'', JArr (map (\<lambda>c. JNum (unat c)) (ra_channels a)))]"

definition ready_outputs_json :: "(socket_addr \<Rightarrow> rstring) \<Rightarrow> ready_outputs \<Rightarrow> json" where
  "ready_outputs_json show_addr r = JObj
     [(''websocket'', json_opt (\<lambda>a. JStr (show_addr a)) (ro_websocket r)),
      (''osc'', json_opt (\<lambda>a. JStr (show_addr a)) (ro_osc r))]"

fun shutdown_reason_json :: "shutdown_reason \<Rightarrow> json" where
  "shutdown_reason_json Signal = JStr (lit ''signal'')"
| "shutdown_reason_json StdinClosed = JStr (lit ''stdin_closed'')"

fun event_json :: "(socket_addr \<Rightarrow> rstring) \<Rightarrow> event \<Rightarrow> json" where
  "event_json show_addr (Ready report) = JObj
     [(''v'', JNum EVENT_SCHEMA_VERSION), (''event'', JStr (lit ''ready'')),
      (''audio'', ready_audio_json (rr_audio report)),
      (''midi_device'', json_opt JStr (rr_midi_device report)),
      (''outputs'', ready_outputs_json show_addr (rr_outputs report))]"
| "event_json show_addr (Error code message) = JObj
     [(''v'', JNum EVENT_SCHEMA_VERSION), (''event'', JStr (lit ''error'')),
      (''code'', JStr (lit code)), (''message'', JStr message)]"
| "event_json show_addr (Shutdown reason) = JObj
     [(''v'', JNum EVENT_SCHEMA_VERSION), (''event'', JStr (lit ''shutdown'')),
      (''reason'', shutdown_reason_json reason)]"

section \<open>Errors and their codes\<close>

text \<open>
  An \<^verbatim>\<open>anyhow::Error\<close> is a root error below the contexts added on the way up; \<open>downcast_ref\<close> finds
  the root through them. \<open>HostError\<close> of a device query stands for an untyped error of the host.
\<close>

datatype io_error_kind = Interrupted | BrokenPipe | OtherKind nat

datatype root_error =
    RConfig app_config_error
  | RDevice device_error
  | RMidi midi_device_error
  | RIo io_error_kind
  | RJson "io_error_kind option"
  | RMessage rstring

record any_error =
  ae_contexts :: "rstring list"
  ae_root :: root_error

definition any_of :: "root_error \<Rightarrow> any_error" where
  "any_of r = \<lparr>ae_contexts = [], ae_root = r\<rparr>"

definition with_context_text :: "rstring \<Rightarrow> any_error + 'a \<Rightarrow> any_error + 'a" where
  "with_context_text c r = map_sum (\<lambda>e. e\<lparr>ae_contexts := c # ae_contexts e\<rparr>) id r"

definition with_context :: "string \<Rightarrow> any_error + 'a \<Rightarrow> any_error + 'a" where
  "with_context c r = with_context_text (lit c) r"

lemma with_context_ok [simp]: "with_context c (Inr x) = Inr x"
  by (simp add: with_context_def with_context_text_def)

lemma with_context_Inr [simp]: "with_context c r = Inr x \<longleftrightarrow> r = Inr x"
  by (cases r) (auto simp: with_context_def with_context_text_def)

definition from_error :: "('e \<Rightarrow> root_error) \<Rightarrow> 'e + 'a \<Rightarrow> any_error + 'a" where
  "from_error f r = map_sum (\<lambda>e. any_of (f e)) id r"

lemma from_error_Inr [simp]: "from_error f r = Inr x \<longleftrightarrow> r = Inr x"
  by (cases r) (auto simp: from_error_def)

definition any_message :: "string \<Rightarrow> any_error" where
  "any_message s = any_of (RMessage (lit s))"

fun app_config_error_code :: "app_config_error \<Rightarrow> string" where
  "app_config_error_code MissingDevice = ''MissingDevice''"
| "app_config_error_code NoOutputConfigured = ''NoOutputConfigured''"
| "app_config_error_code (NonLoopbackBindAddress a) = ''NonLoopbackBindAddress''"
| "app_config_error_code (InvalidAttackTime v) = ''InvalidAttackTime''"
| "app_config_error_code (InvalidReleaseTime v) = ''InvalidReleaseTime''"
| "app_config_error_code (InvalidFreqLow v) = ''InvalidFreqLow''"
| "app_config_error_code (InvalidFreqHigh v) = ''InvalidFreqHigh''"
| "app_config_error_code (InvalidFreqRange l h) = ''InvalidFreqRange''"
| "app_config_error_code (InvalidFilterQ v) = ''InvalidFilterQ''"
| "app_config_error_code (InvalidVocoderBandCoefficients b f s) = ''InvalidVocoderBandCoefficients''"
| "app_config_error_code (InvalidMidiTempo v) = ''InvalidMidiTempo''"
| "app_config_error_code (InvalidTestFrequency v) = ''InvalidTestFrequency''"
| "app_config_error_code (InvalidTestSweepRate v) = ''InvalidTestSweepRate''"
| "app_config_error_code InvalidMaxClients = ''InvalidMaxClients''"
| "app_config_error_code EmptyChannelSelection = ''EmptyChannelSelection''"
| "app_config_error_code InvalidMidiDeviceName = ''InvalidMidiDeviceName''"
| "app_config_error_code (DuplicateOutputTransport t) = ''DuplicateOutputTransport''"
| "app_config_error_code (ChannelIndexOutOfRange i c) = ''ChannelIndexOutOfRange''"
| "app_config_error_code (ConfigFileParseError m) = ''ConfigFileParseError''"
| "app_config_error_code (ConfigFileNotFound p) = ''ConfigFileNotFound''"
| "app_config_error_code (InvalidFreqAboveNyquist s f n) = ''InvalidFreqAboveNyquist''"
| "app_config_error_code (InvalidFreqAboveSafetyCeiling s f m) = ''InvalidFreqAboveSafetyCeiling''"

fun device_error_code :: "device_error \<Rightarrow> string option" where
  "device_error_code EmptyQuery = Some ''EmptyQuery''"
| "device_error_code (NoMatch q) = Some ''NoMatch''"
| "device_error_code (UnsupportedFormat f) = Some ''UnsupportedFormat''"
| "device_error_code (HardwareStreamError m) = Some ''HardwareStreamError''"
| "device_error_code (HostError m) = None"

fun midi_device_error_code :: "midi_device_error \<Rightarrow> string" where
  "midi_device_error_code (MidiUnavailable e) = ''MidiUnavailable''"
| "midi_device_error_code (MidiNoMatch q) = ''MidiNoMatch''"
| "midi_device_error_code (MidiConnectFailed n e) = ''MidiConnectFailed''"

text \<open>The three downcasts, in their order, and the fallback.\<close>

definition error_code :: "any_error \<Rightarrow> string" where
  "error_code e = unwrap_or
     (opt_or (case ae_root e of RConfig c \<Rightarrow> Some (app_config_error_code c) | _ \<Rightarrow> None)
     (opt_or (case ae_root e of RDevice d \<Rightarrow> device_error_code d | _ \<Rightarrow> None)
        (case ae_root e of RMidi m \<Rightarrow> Some (midi_device_error_code m) | _ \<Rightarrow> None)))
     UNKNOWN_EVENT_CODE"

text \<open>\<open>show_error\<close> is the alternate display form of an error, its chain joined by colons.\<close>

definition event_from_anyhow :: "(any_error \<Rightarrow> rstring) \<Rightarrow> any_error \<Rightarrow> event" where
  "event_from_anyhow show_error e = Error (error_code e) (show_error e)"

definition is_broken_pipe :: "any_error \<Rightarrow> bool" where
  "is_broken_pipe e \<longleftrightarrow>
     opt_or (case ae_root e of RIo k \<Rightarrow> Some k | _ \<Rightarrow> None)
       (case ae_root e of RJson k \<Rightarrow> k | _ \<Rightarrow> None) = Some BrokenPipe"

text \<open>
  \<^verbatim>\<open>write_event\<close> on a writer: the JSON text, the newline and the flush, each of which may fail; the
  first failure is the result and nothing more is written.
\<close>

record 'w writer_ops =
  wo_to_writer :: "'w \<Rightarrow> json \<Rightarrow> 'w \<times> (any_error + unit)"
  wo_write_all :: "'w \<Rightarrow> u8 list \<Rightarrow> 'w \<times> (any_error + unit)"
  wo_flush :: "'w \<Rightarrow> 'w \<times> (any_error + unit)"

definition write_event ::
  "'w writer_ops \<Rightarrow> (socket_addr \<Rightarrow> rstring) \<Rightarrow> 'w \<Rightarrow> event \<Rightarrow> 'w \<times> (any_error + unit)" where
  "write_event W show_addr w event =
     (case wo_to_writer W w (event_json show_addr event) of
        (w, Inl e) \<Rightarrow> (w, Inl e)
      | (w, Inr u) \<Rightarrow> (case wo_write_all W w [10] of
            (w, Inl e) \<Rightarrow> (w, Inl e)
          | (w, Inr u) \<Rightarrow> wo_flush W w))"

text \<open>The event the panic hook writes before it defers to the previous hook.\<close>

definition panic_event :: "rstring \<Rightarrow> event" where
  "panic_event message = Error PANIC_EVENT_CODE message"

section \<open>Why a run stops\<close>

definition headless_stop :: "bool \<Rightarrow> bool \<Rightarrow> bool \<Rightarrow> headless_stop option" where
  "headless_stop signal_received stdin_closed keep_running =
     (if signal_received then Some (Requested Signal)
      else if stdin_closed then Some (Requested StdinClosed)
      else if keep_running then None
      else Some Engine)"

text \<open>
  The watcher on the results of its reads: whether it has set the flag, the number of warnings, and
  the reads it has not made. With no more results the thread is blocked in a read.
\<close>

datatype read_result = ReadOk nat | ReadErr io_error_kind

fun watch_stdin :: "read_result list \<Rightarrow> bool \<times> nat \<times> read_result list" where
  "watch_stdin [] = (False, 0, [])"
| "watch_stdin (ReadOk n # rs) = (if n = 0 then (True, 0, rs) else watch_stdin rs)"
| "watch_stdin (ReadErr kind # rs) =
     (if kind = Interrupted then watch_stdin rs else (True, 1, rs))"

section \<open>The order of precedence\<close>

text \<open>
  The reasons to stop in the order of their precedence, as an instance of the library's linear
  orders: the decision is the least reason that is present.
\<close>

fun stop_rank :: "headless_stop \<Rightarrow> nat" where
  "stop_rank (Requested Signal) = 0"
| "stop_rank (Requested StdinClosed) = 1"
| "stop_rank Engine = 2"

lemma stop_rank_inject: "stop_rank a = stop_rank b \<longleftrightarrow> a = b"
  by (cases a rule: stop_rank.cases; cases b rule: stop_rank.cases) auto

instantiation headless_stop :: linorder
begin

definition less_eq_headless_stop :: "headless_stop \<Rightarrow> headless_stop \<Rightarrow> bool" where
  "less_eq_headless_stop a b \<longleftrightarrow> stop_rank a \<le> stop_rank b"

definition less_headless_stop :: "headless_stop \<Rightarrow> headless_stop \<Rightarrow> bool" where
  "less_headless_stop a b \<longleftrightarrow> stop_rank a < stop_rank b"

instance
  by standard (auto simp: less_eq_headless_stop_def less_headless_stop_def stop_rank_inject)

end

definition stop_reasons :: "bool \<Rightarrow> bool \<Rightarrow> bool \<Rightarrow> headless_stop set" where
  "stop_reasons sig closed keep =
     (if sig then {Requested Signal} else {}) \<union> (if closed then {Requested StdinClosed} else {}) \<union>
     (if keep then {} else {Engine})"

text \<open>
  A headless run stops exactly when some reason is present, and then for the reason of
  the highest precedence: a signal before a closed stdin, both before the engine's own stop.
\<close>

lemma headless_stop_least:
  "headless_stop sig closed keep =
     (if stop_reasons sig closed keep = {} then None else Some (Min (stop_reasons sig closed keep)))"
  by (cases sig; cases closed; cases keep)
    (simp_all add: headless_stop_def stop_reasons_def min_def less_eq_headless_stop_def)

section \<open>The watcher and the codes\<close>

definition ends_watch :: "read_result \<Rightarrow> bool" where
  "ends_watch r \<longleftrightarrow> r = ReadOk 0 \<or> (\<exists>k. r = ReadErr k \<and> k \<noteq> Interrupted)"

lemma ends_watch_simps [simp]:
  "ends_watch (ReadOk n) \<longleftrightarrow> n = 0" "ends_watch (ReadErr k) \<longleftrightarrow> k \<noteq> Interrupted"
  by (auto simp: ends_watch_def)

lemma watch_stdin_spec:
  "watch_stdin rs = (case dropWhile (\<lambda>r. \<not> ends_watch r) rs of
     [] \<Rightarrow> (False, 0, []) | r # rest \<Rightarrow> (True, if r = ReadOk 0 then 0 else 1, rest))"
  by (induction rs rule: watch_stdin.induct) auto

lemma error_code_context [simp]:
  "error_code (e\<lparr>ae_contexts := cs\<rparr>) = error_code e"
  by (simp add: error_code_def)

text \<open>One error of each variant, in the order of the declarations.\<close>

definition config_variants :: "app_config_error list" where
  "config_variants =
     [MissingDevice, NoOutputConfigured, NonLoopbackBindAddress \<lparr>sa_ip = IpV6 0, sa_port = 0\<rparr>,
      InvalidAttackTime 0, InvalidReleaseTime 0, InvalidFreqLow 0, InvalidFreqHigh 0,
      InvalidFreqRange 0 0, InvalidFilterQ 0, InvalidVocoderBandCoefficients 0 0 0,
      InvalidMidiTempo 0, InvalidTestFrequency 0, InvalidTestSweepRate 0, InvalidMaxClients,
      EmptyChannelSelection, InvalidMidiDeviceName, DuplicateOutputTransport [],
      ChannelIndexOutOfRange 0 0, ConfigFileParseError [], ConfigFileNotFound [],
      InvalidFreqAboveNyquist 0 0 0, InvalidFreqAboveSafetyCeiling 0 0 0]"

definition typed_roots :: "root_error list" where
  "typed_roots = map RConfig config_variants @
     map RDevice [EmptyQuery, NoMatch [], UnsupportedFormat [], HardwareStreamError []] @
     map RMidi [MidiUnavailable [], MidiNoMatch [], MidiConnectFailed [] []]"

lemma config_code_variant: "app_config_error_code e \<in> set (map app_config_error_code config_variants)"
  by (cases e) (simp_all add: config_variants_def)

text \<open>
  The code of an error event identifies the variant: the codes of the twenty-nine typed
  variants are pairwise distinct and none of them is the code for an untyped error or for a panic;
  contexts added on the way up do not change the code.
\<close>

lemma event_codes_identify:
  "distinct (UNKNOWN_EVENT_CODE # PANIC_EVENT_CODE # map (\<lambda>r. error_code (any_of r)) typed_roots) \<and>
   error_code \<lparr>ae_contexts = cs, ae_root = r\<rparr> = error_code (any_of r) \<and>
   error_code (any_of r) \<in> set (UNKNOWN_EVENT_CODE # map (\<lambda>r. error_code (any_of r)) typed_roots)"
proof (intro conjI)
  show "distinct (UNKNOWN_EVENT_CODE # PANIC_EVENT_CODE # map (\<lambda>r. error_code (any_of r)) typed_roots)"
    by (simp add: error_code_def any_of_def typed_roots_def config_variants_def
        UNKNOWN_EVENT_CODE_def PANIC_EVENT_CODE_def)
  show "error_code \<lparr>ae_contexts = cs, ae_root = r\<rparr> = error_code (any_of r)"
    by (simp add: error_code_def any_of_def)
  show "error_code (any_of r) \<in> set (UNKNOWN_EVENT_CODE # map (\<lambda>r. error_code (any_of r)) typed_roots)"
  proof (cases r)
    case (RConfig e)
    then show ?thesis using config_code_variant [of e]
      by (auto simp: error_code_def any_of_def typed_roots_def)
  next
    case (RDevice d)
    then show ?thesis by (cases d) (simp_all add: error_code_def any_of_def typed_roots_def)
  next
    case (RMidi m)
    then show ?thesis by (cases m) (simp_all add: error_code_def any_of_def typed_roots_def)
  qed (simp_all add: error_code_def any_of_def)
qed

end
