(* ===== verification/Generator.thy ===== *)
theory Generator
  imports Audio
begin

text \<open>
  The calibration signal, \<^verbatim>\<open>src/src/managers/generator.rs\<close>: the oscillator and the loop that pushes
  its frames into the analyser's ring. The library's sine and power functions are parameters; the
  other float operations are exact.
\<close>

section \<open>Definitions\<close>

definition AMPLITUDE :: f32 where
  "AMPLITUDE = f32_lit 25 100"

definition GENERATOR_CHUNK_MS :: u32 where
  "GENERATOR_CHUNK_MS = 10"

definition PI_F32 :: f32 where
  "PI_F32 = f32_lit 314159265358979323846264338327950288 (10 ^ 35)"

definition TAU_F64 :: f64 where
  "TAU_F64 = f64_lit 628318530717958647692528676655900577 (10 ^ 35)"

record libm_gen =
  lg_sin :: "f32 \<Rightarrow> f32"
  lg_powf :: "f32 \<Rightarrow> f32 \<Rightarrow> f32"

text \<open>\<^verbatim>\<open>f64::rem_euclid\<close> of the standard library.\<close>

definition f64_rem_euclid :: "f64 \<Rightarrow> f64 \<Rightarrow> f64" where
  "f64_rem_euclid a b = (let r = f64_rem a b in
     if f64_lt r 0 then f64_add r (f64_pack (fl_abs (f64_unpack b))) else r)"

text \<open>The frequency of the next sample, and the low-frequency oscillator after it.\<close>

fun current_frequency :: "libm_gen \<Rightarrow> u32 \<Rightarrow> test_signal \<Rightarrow> f32 \<Rightarrow> f32 \<times> f32" where
  "current_frequency m sample_rate (Sweep lfo_rate) lfo_phase =
     (let sr = f32_of_nat (unat sample_rate);
          sweep_ceiling = f32_mul CALIBRATION_FREQUENCY_CEILING_RATIO sr;
          lfo_val = f32_add (f32_mul (lg_sin m (f32_mul (f32_mul lfo_phase (f32_lit 2 1)) PI_F32))
            (f32_lit 5 10)) (f32_lit 5 10);
          lfo_phase' = f32_rem (f32_add lfo_phase (f32_div lfo_rate sr)) (f32_lit 1 1)
      in (f32_mul (f32_lit 20 1) (lg_powf m (f32_div sweep_ceiling (f32_lit 20 1)) lfo_val), lfo_phase'))"
| "current_frequency m sample_rate (FixedTone hz) lfo_phase = (hz, lfo_phase)"

text \<open>One pass through the loop of \<^verbatim>\<open>fill_buffer\<close>: the sample and the next phases.\<close>

definition oscillator_step ::
  "libm_gen \<Rightarrow> u32 \<Rightarrow> test_signal \<Rightarrow> f32 \<times> f32 \<Rightarrow> f32 \<times> f32 \<times> f32" where
  "oscillator_step m sample_rate signal st = (case st of (phase, lfo_phase) \<Rightarrow>
     case current_frequency m sample_rate signal lfo_phase of (current_freq, lfo_phase') \<Rightarrow>
       let phase_inc = f64_div (f64_mul TAU_F64 (f64_of_f32 current_freq)) (f64_lit (unat sample_rate) 1);
           sample = f32_mul (lg_sin m phase) AMPLITUDE;
           phase' = f32_of_f64 (f64_rem_euclid (f64_add (f64_of_f32 phase) phase_inc) TAU_F64)
       in (sample, phase', lfo_phase'))"

text \<open>The inner loop over the channels; None is an index out of range.\<close>

fun write_channels :: "nat list \<Rightarrow> nat \<Rightarrow> f32 \<Rightarrow> f32 list \<Rightarrow> f32 list option" where
  "write_channels [] i sample buffer = Some buffer"
| "write_channels (ch # chs) i sample buffer =
     (if i + ch < length buffer then write_channels chs i sample (buffer[i + ch := sample]) else None)"

function fill_loop ::
  "libm_gen \<Rightarrow> u32 \<Rightarrow> test_signal \<Rightarrow> nat \<Rightarrow> nat \<Rightarrow> f32 list \<Rightarrow> f32 \<times> f32
    \<Rightarrow> (f32 list \<times> f32 \<times> f32) option" where
  "fill_loop m sample_rate signal channels i buffer st =
     (if channels = 0 then None
      else if i < length buffer then
        (case oscillator_step m sample_rate signal st of (sample, st') \<Rightarrow>
          case write_channels [0..<channels] i sample buffer of
            None \<Rightarrow> None
          | Some buffer' \<Rightarrow> if length buffer' = length buffer
              then fill_loop m sample_rate signal channels (i + channels) buffer' st' else None)
      else Some (buffer, st))"
  by pat_completeness auto
termination
  by (relation "measure (\<lambda>(m, sample_rate, signal, channels, i, buffer, st). length buffer - i)") auto

declare fill_loop.simps [simp del]

definition fill_buffer ::
  "libm_gen \<Rightarrow> f32 list \<Rightarrow> f32 \<Rightarrow> f32 \<Rightarrow> test_signal \<Rightarrow> u32 \<Rightarrow> u16
    \<Rightarrow> (f32 list \<times> f32 \<times> f32) option" where
  "fill_buffer m buffer phase lfo_phase signal sample_rate channels =
     fill_loop m sample_rate signal (unat channels) 0 buffer (phase, lfo_phase)"

text \<open>
  The thread: \<open>generator_new\<close> is its state before the loop, started at the time \<open>now\<close>, and a turn
  fills the buffer, commits whole frames and gives the time it sleeps, None when the deadline has
  passed. Times are in nanoseconds.
\<close>

record 'p generator =
  ge_phase :: f32
  ge_lfo_phase :: f32
  ge_buffer :: "f32 list"
  ge_deadline :: nat
  ge_analyse_tx :: 'p

definition generator_chunk_duration :: nat where
  "generator_chunk_duration = unat GENERATOR_CHUNK_MS * 1000000"

definition generator_new :: "specs \<Rightarrow> 'p \<Rightarrow> nat \<Rightarrow> 'p generator option" where
  "generator_new s tx now = map_option (\<lambda>len.
     \<lparr>ge_phase = 0, ge_lfo_phase = 0, ge_buffer = replicate len 0,
      ge_deadline = now + generator_chunk_duration, ge_analyse_tx = tx\<rparr>)
     (frame_aligned_samples_for_ms s GENERATOR_CHUNK_MS)"

definition generator_turn ::
  "libm_gen \<Rightarrow> 'p producer_ops \<Rightarrow> test_signal \<Rightarrow> specs \<Rightarrow> nat \<Rightarrow> 'p generator
    \<Rightarrow> ('p generator \<times> nat option) option" where
  "generator_turn m P signal s now g =
     (case fill_buffer m (ge_buffer g) (ge_phase g) (ge_lfo_phase g) signal (sp_sample_rate s) (sp_channels s) of
        None \<Rightarrow> None
      | Some (buffer, phase, lfo_phase) \<Rightarrow>
          let channels = unat (sp_channels s) in
          (case pr_vacant_len P (ge_analyse_tx g) of (tx, vacant) \<Rightarrow>
             let writable = vacant div channels * channels; n = min (length buffer) writable in
             (case pr_push_slice P tx (take n buffer) of (tx', _) \<Rightarrow>
                Some (\<lparr>ge_phase = phase, ge_lfo_phase = lfo_phase, ge_buffer = buffer,
                   ge_deadline = ge_deadline g + generator_chunk_duration, ge_analyse_tx = tx'\<rparr>,
                  if now \<le> ge_deadline g then Some (ge_deadline g - now) else None))))"

fun generator_run ::
  "libm_gen \<Rightarrow> 'p producer_ops \<Rightarrow> test_signal \<Rightarrow> specs \<Rightarrow> nat list \<Rightarrow> 'p generator
    \<Rightarrow> 'p generator option" where
  "generator_run m P signal s [] g = Some g"
| "generator_run m P signal s (now # nows) g =
     Option.bind (generator_turn m P signal s now g) (\<lambda>(g', sleep). generator_run m P signal s nows g')"

section \<open>The signal\<close>

text \<open>The oscillator on its own: its first \<open>k\<close> samples and the phases after them.\<close>

fun oscillator_run ::
  "libm_gen \<Rightarrow> u32 \<Rightarrow> test_signal \<Rightarrow> nat \<Rightarrow> f32 \<times> f32 \<Rightarrow> f32 list \<times> f32 \<times> f32" where
  "oscillator_run m sr signal 0 st = ([], st)"
| "oscillator_run m sr signal (Suc k) st =
     (case oscillator_step m sr signal st of (x, st') \<Rightarrow>
      case oscillator_run m sr signal k st' of (xs, st'') \<Rightarrow> (x # xs, st''))"

lemma oscillator_run_length [simp]: "length (fst (oscillator_run m sr signal k st)) = k"
proof (induction k arbitrary: st)
  case (Suc k)
  obtain x st' where "oscillator_step m sr signal st = (x, st')"
    by (cases "oscillator_step m sr signal st")
  moreover obtain xs st'' where "oscillator_run m sr signal k st' = (xs, st'')"
    by (cases "oscillator_run m sr signal k st'")
  ultimately show ?case using Suc [of st'] by simp
qed simp

lemma oscillator_run_add:
  "oscillator_run m sr signal (j + k) st =
     (case oscillator_run m sr signal j st of (xs, st') \<Rightarrow>
      case oscillator_run m sr signal k st' of (ys, st'') \<Rightarrow> (xs @ ys, st''))"
  by (induction j arbitrary: st) (auto split: prod.split)

lemma write_channels_replace:
  "write_channels [j..<n] (length xs) sample (xs @ replicate j sample @ ys @ zs) =
     Some (xs @ replicate n sample @ zs)"
  if "j \<le> n" "length ys = n - j"
  using that
proof (induction "n - j" arbitrary: j ys)
  case 0
  then show ?case by simp
next
  case (Suc k)
  then obtain y ys' where ys: "ys = y # ys'" "length ys' = n - Suc j" by (cases ys) auto
  have upt: "[j..<n] = j # [Suc j..<n]" using Suc.hyps(2) by (simp add: upt_conv_Cons)
  have "write_channels [Suc j..<n] (length xs) sample (xs @ replicate (Suc j) sample @ ys' @ zs) =
      Some (xs @ replicate n sample @ zs)"
    using Suc.hyps(2) ys(2) by (intro Suc.hyps(1)) auto
  moreover have "(xs @ replicate j sample @ (y # ys') @ zs)[length xs + j := sample] =
      xs @ replicate (Suc j) sample @ ys' @ zs"
    by (simp add: list_update_append replicate_app_Cons_same)
  ultimately show ?case by (simp add: upt ys(1))
qed

lemma fill_loop_frames:
  assumes "0 < n" "length rest = k * n"
  shows "fill_loop m sr signal n (length xs) (xs @ rest) st =
    (case oscillator_run m sr signal k st of (ys, st') \<Rightarrow>
       Some (xs @ concat (map (replicate n) ys), st'))"
  using assms(2)
proof (induction k arbitrary: xs rest st)
  case 0
  then show ?case using assms(1) by (simp add: fill_loop.simps)
next
  case (Suc k)
  define frame rest' where "frame = take n rest" and "rest' = drop n rest"
  have rest: "rest = frame @ rest'" "length frame = n" "length rest' = k * n"
    using Suc.prems by (simp_all add: frame_def rest'_def)
  obtain x st' where x: "oscillator_step m sr signal st = (x, st')"
    by (cases "oscillator_step m sr signal st")
  from write_channels_replace [of 0 n frame xs x rest'] rest(2)
  have w: "write_channels [0..<n] (length xs) x (xs @ rest) = Some (xs @ replicate n x @ rest')"
    by (simp add: rest(1))
  have "fill_loop m sr signal n (length (xs @ replicate n x)) ((xs @ replicate n x) @ rest') st' =
      (case oscillator_run m sr signal k st' of (ys, st'') \<Rightarrow>
         Some ((xs @ replicate n x) @ concat (map (replicate n) ys), st''))"
    by (rule Suc.IH [OF rest(3)])
  moreover have "fill_loop m sr signal n (length xs) (xs @ rest) st =
      fill_loop m sr signal n (length (xs @ replicate n x)) ((xs @ replicate n x) @ rest') st'"
  proof -
    have "length (xs @ replicate n x @ rest') = length (xs @ rest)" "0 < length rest"
      using rest assms(1) by simp_all
    then show ?thesis
      using assms(1) by (subst fill_loop.simps) (simp add: x w)
  qed
  ultimately show ?case by (simp add: x split: prod.split)
qed

lemma fill_buffer_frames:
  assumes "0 < channels" "length buffer = k * unat channels"
  shows "fill_buffer m buffer phase lfo signal sr channels =
    (case oscillator_run m sr signal k (phase, lfo) of (ys, st') \<Rightarrow>
       Some (concat (map (replicate (unat channels)) ys), st'))"
  using fill_loop_frames [of "unat channels" buffer k m sr signal "[]" "(phase, lfo)"] assms
  by (simp add: fill_buffer_def word_less_nat_alt)

section \<open>What the analyser gets\<close>

text \<open>The signal cut into the blocks of the turns, each of \<open>k\<close> frames.\<close>

fun oscillator_blocks ::
  "libm_gen \<Rightarrow> u32 \<Rightarrow> test_signal \<Rightarrow> nat \<Rightarrow> nat \<Rightarrow> f32 \<times> f32 \<Rightarrow> f32 list list" where
  "oscillator_blocks m sr signal k 0 st = []"
| "oscillator_blocks m sr signal k (Suc n) st =
     (case oscillator_run m sr signal k st of (xs, st') \<Rightarrow>
        xs # oscillator_blocks m sr signal k n st')"

lemma oscillator_blocks_concat:
  "concat (oscillator_blocks m sr signal k n st) = fst (oscillator_run m sr signal (n * k) st)"
  by (induction n arbitrary: st) (auto simp: oscillator_run_add split: prod.split)

lemma oscillator_blocks_length [simp]: "length (oscillator_blocks m sr signal k n st) = n"
  by (induction n arbitrary: st) (auto split: prod.split)

lemma take_replicated:
  "take (j * n) (concat (map (replicate n) ys)) = concat (map (replicate n) (take j ys))"
proof (induction j arbitrary: ys)
  case (Suc j)
  then show ?case by (cases ys) (simp_all add: take_replicate)
qed simp

lemma concat_replicate_length [simp]: "length (concat (map (replicate n) ys)) = length ys * n"
  by (induction ys) simp_all

lemma generator_turn_frames:
  assumes laws: "producer_laws P hist room" and ch: "0 < sp_channels s"
    and buf: "length (ge_buffer g) = k * unat (sp_channels s)"
  shows "\<exists>g' sleep j. generator_turn m P signal s now g = Some (g', sleep) \<and> j \<le> k \<and>
    length (ge_buffer g') = k * unat (sp_channels s) \<and>
    (ge_phase g', ge_lfo_phase g') =
      snd (oscillator_run m (sp_sample_rate s) signal k (ge_phase g, ge_lfo_phase g)) \<and>
    ge_deadline g' = ge_deadline g + generator_chunk_duration \<and>
    hist (ge_analyse_tx g') = hist (ge_analyse_tx g) @
      concat (map (replicate (unat (sp_channels s))) (take j
        (fst (oscillator_run m (sp_sample_rate s) signal k (ge_phase g, ge_lfo_phase g)))))"
proof -
  let ?n = "unat (sp_channels s)"
  obtain ys phase lfo where run:
    "oscillator_run m (sp_sample_rate s) signal k (ge_phase g, ge_lfo_phase g) = (ys, phase, lfo)"
    by (cases "oscillator_run m (sp_sample_rate s) signal k (ge_phase g, ge_lfo_phase g)")
  from fill_buffer_frames [OF ch buf, of m "ge_phase g" "ge_lfo_phase g" signal "sp_sample_rate s"] run
  have fill: "fill_buffer m (ge_buffer g) (ge_phase g) (ge_lfo_phase g) signal (sp_sample_rate s)
      (sp_channels s) = Some (concat (map (replicate ?n) ys), phase, lfo)" by simp
  have ys: "length ys = k"
    using oscillator_run_length [of m "sp_sample_rate s" signal k "(ge_phase g, ge_lfo_phase g)"]
    by (simp add: run)
  obtain tx v where v: "pr_vacant_len P (ge_analyse_tx g) = (tx, v)"
    by (cases "pr_vacant_len P (ge_analyse_tx g)")
  note vac = producer_vacant [OF laws v]
  define j where "j = min k (v div ?n)"
  have jn: "min (k * ?n) (v div ?n * ?n) = j * ?n" by (simp add: j_def min_def)
  have j: "j \<le> k" "j * ?n \<le> v"
    by (simp_all add: j_def)
      (meson le_trans min.cobounded2 mult_le_mono1 div_times_less_eq_dividend)
  define data where "data = concat (map (replicate ?n) (take j ys))"
  have data: "take (j * ?n) (concat (map (replicate ?n) ys)) = data"
    by (simp add: take_replicated data_def)
  obtain tx' c where push: "pr_push_slice P tx data = (tx', c)" by (cases "pr_push_slice P tx data")
  have "length data = j * ?n" using j ys by (simp add: data_def)
  then have "length data \<le> room tx" using j(2) vac(2) by linarith
  from producer_push_slice [OF laws this] push vac(1)
  have "hist tx' = hist (ge_analyse_tx g) @ data" by simp
  moreover define g' where "g' = \<lparr>ge_phase = phase, ge_lfo_phase = lfo,
    ge_buffer = concat (map (replicate ?n) ys),
    ge_deadline = ge_deadline g + generator_chunk_duration, ge_analyse_tx = tx'\<rparr>"
  moreover have "generator_turn m P signal s now g =
      Some (g', if now \<le> ge_deadline g then Some (ge_deadline g - now) else None)"
    by (simp add: generator_turn_def fill v Let_def ys jn data push g'_def)
  ultimately show ?thesis
    using j(1) ys
    by (intro exI [of _ g'] exI [of _ "if now \<le> ge_deadline g then Some (ge_deadline g - now) else None"]
        exI [of _ j]) (simp add: run data_def)
qed

text \<open>
  Claim C38. The calibration signal on its way into the ring: the generator never panics; whatever
  room the analyser leaves, each turn commits whole frames, a prefix of its ten milliseconds; every
  channel of a frame carries the same sample; and the turns cut one uninterrupted run of the
  oscillator, with no jump of phase from one to the next. The deadlines stay on the ten millisecond
  grid.
\<close>

theorem generator_commits_signal:
  assumes "producer_laws P hist room" "0 < sp_channels s"
    "length (ge_buffer g) = k * unat (sp_channels s)"
  shows "\<exists>g' js. generator_run m P signal s nows g = Some g' \<and>
    length js = length nows \<and> list_all (\<lambda>j. j \<le> k) js \<and>
    hist (ge_analyse_tx g') = hist (ge_analyse_tx g) @ concat (map (replicate (unat (sp_channels s)))
      (concat (map2 take js (oscillator_blocks m (sp_sample_rate s) signal k (length nows)
        (ge_phase g, ge_lfo_phase g))))) \<and>
    concat (oscillator_blocks m (sp_sample_rate s) signal k (length nows) (ge_phase g, ge_lfo_phase g)) =
      fst (oscillator_run m (sp_sample_rate s) signal (length nows * k) (ge_phase g, ge_lfo_phase g)) \<and>
    ge_deadline g' = ge_deadline g + length nows * generator_chunk_duration"
proof -
  have "\<exists>g' js. generator_run m P signal s nows g = Some g' \<and>
    length js = length nows \<and> list_all (\<lambda>j. j \<le> k) js \<and>
    hist (ge_analyse_tx g') = hist (ge_analyse_tx g) @ concat (map (replicate (unat (sp_channels s)))
      (concat (map2 take js (oscillator_blocks m (sp_sample_rate s) signal k (length nows)
        (ge_phase g, ge_lfo_phase g))))) \<and>
    ge_deadline g' = ge_deadline g + length nows * generator_chunk_duration"
    using assms(3)
  proof (induction nows arbitrary: g)
    case Nil
    then show ?case by simp
  next
    case (Cons now nows)
    from generator_turn_frames [OF assms(1,2) Cons.prems, of m signal now] obtain g1 sleep j where
      turn: "generator_turn m P signal s now g = Some (g1, sleep)" "j \<le> k"
      "length (ge_buffer g1) = k * unat (sp_channels s)"
      "ge_deadline g1 = ge_deadline g + generator_chunk_duration" and
      st: "(ge_phase g1, ge_lfo_phase g1) =
        snd (oscillator_run m (sp_sample_rate s) signal k (ge_phase g, ge_lfo_phase g))" and
      hist: "hist (ge_analyse_tx g1) = hist (ge_analyse_tx g) @
        concat (map (replicate (unat (sp_channels s))) (take j
          (fst (oscillator_run m (sp_sample_rate s) signal k (ge_phase g, ge_lfo_phase g)))))"
      by blast
    from Cons.IH [OF turn(3)] obtain g' js where
      "generator_run m P signal s nows g1 = Some g'" "length js = length nows" "list_all (\<lambda>j. j \<le> k) js"
      "ge_deadline g' = ge_deadline g1 + length nows * generator_chunk_duration"
      "hist (ge_analyse_tx g') = hist (ge_analyse_tx g1) @ concat (map (replicate (unat (sp_channels s)))
        (concat (map2 take js (oscillator_blocks m (sp_sample_rate s) signal k (length nows)
          (ge_phase g1, ge_lfo_phase g1)))))"
      by blast
    with turn hist st show ?case
      by (intro exI [of _ g'] exI [of _ "j # js"])
        (auto split: prod.split)
  qed
  then show ?thesis by (simp add: oscillator_blocks_concat)
qed

text \<open>Two turns of a one-frame buffer into a ring that holds three samples.\<close>

definition demo_generator :: "(nat \<times> f32 list) generator" where
  "demo_generator = \<lparr>ge_phase = 0, ge_lfo_phase = 0, ge_buffer = [0, 0], ge_deadline = 10000000,
     ge_analyse_tx = (3, [])\<rparr>"

definition id_libm_gen :: libm_gen where
  "id_libm_gen = \<lparr>lg_sin = (\<lambda>x. x), lg_powf = (\<lambda>x y. x)\<rparr>"

theorem generator_commits_signal_witness:
  "\<exists>g' js. generator_run id_libm_gen ring_ops (FixedTone 0x43DC0000)
       \<lparr>sp_channels = 2, sp_sample_rate = 100\<rparr> [5, 10] demo_generator = Some g' \<and>
     length js = 2 \<and> list_all (\<lambda>j. j \<le> 1) js \<and>
     snd (ge_analyse_tx g') = concat (map (replicate 2) (concat (map2 take js
       (oscillator_blocks id_libm_gen 100 (FixedTone 0x43DC0000) 1 2 (0, 0))))) \<and>
     ge_deadline g' = 30000000"
proof -
  let ?s = "\<lparr>sp_channels = 2, sp_sample_rate = 100\<rparr>"
  have "0 < sp_channels ?s" by simp
  moreover have "length (ge_buffer demo_generator) = 1 * unat (sp_channels ?s)"
    by (simp add: demo_generator_def)
  ultimately obtain g' js where run:
    "generator_run id_libm_gen ring_ops (FixedTone 0x43DC0000) ?s [5, 10] demo_generator = Some g'"
    "length js = length [5 :: nat, 10]" "list_all (\<lambda>j. j \<le> 1) js"
    "snd (ge_analyse_tx g') = snd (ge_analyse_tx demo_generator) @ concat (map (replicate (unat (sp_channels ?s)))
       (concat (map2 take js (oscillator_blocks id_libm_gen (sp_sample_rate ?s) (FixedTone 0x43DC0000) 1
         (length [5 :: nat, 10]) (ge_phase demo_generator, ge_lfo_phase demo_generator)))))"
    "ge_deadline g' = ge_deadline demo_generator + length [5 :: nat, 10] * generator_chunk_duration"
    using generator_commits_signal [OF ring_laws, of ?s demo_generator 1 id_libm_gen
        "FixedTone 0x43DC0000" "[5, 10]"] by blast
  have two: "length [5 :: nat, 10] = 2" by simp
  from run [unfolded two] show ?thesis
    by (intro exI [of _ g'] exI [of _ js])
      (simp add: demo_generator_def generator_chunk_duration_def GENERATOR_CHUNK_MS_def
        del: oscillator_blocks.simps generator_run.simps)
qed

text \<open>The generator as a writer of whole frames.\<close>

inductive generator_step ::
  "libm_gen \<Rightarrow> 'p producer_ops \<Rightarrow> ('p \<Rightarrow> f32 list) \<Rightarrow> ('p \<Rightarrow> nat) \<Rightarrow> test_signal \<Rightarrow> specs
    \<Rightarrow> 'p generator \<Rightarrow> 'p generator \<Rightarrow> bool"
  for m P hist room signal s where
  "producer_laws P hist room \<Longrightarrow> 0 < sp_channels s \<Longrightarrow> length (ge_buffer g) = k * unat (sp_channels s) \<Longrightarrow>
   generator_turn m P signal s now g = Some (g', sleep) \<Longrightarrow>
   generator_step m P hist room signal s g g'"

inductive_cases generator_stepE: "generator_step m P hist room signal s g g'"

interpretation gen: whole_frame_writer "generator_step m P hist room signal s"
  "\<lambda>g. hist (ge_analyse_tx g)" "unat (sp_channels s)"
  for m and P :: "'p producer_ops" and hist room signal s
proof
  fix p q
  assume "generator_step m P hist room signal s p q"
  then obtain k now sleep where "producer_laws P hist room" "0 < sp_channels s"
    "length (ge_buffer p) = k * unat (sp_channels s)"
    "generator_turn m P signal s now p = Some (q, sleep)"
    by (rule generator_stepE)
  from generator_turn_frames [OF this(1,2,3), of m signal now] this(4) obtain ys where
    "hist (ge_analyse_tx q) = hist (ge_analyse_tx p) @ concat (map (replicate (unat (sp_channels s))) ys)"
    by auto
  then show "\<exists>frames. (\<forall>fr \<in> set frames. length fr = unat (sp_channels s)) \<and>
      hist (ge_analyse_tx q) = hist (ge_analyse_tx p) @ concat frames"
    by (intro exI [of _ "map (replicate (unat (sp_channels s))) ys"]) auto
qed

section \<open>The tone stays in range\<close>

text \<open>
  \<open>sin_law\<close> is what the code relies on of the library's sine: a finite argument gives a number of
  magnitude at most one. The phase stays at most \<open>0x40C90FDB\<close>, the float nearest to a full turn.
\<close>

definition sin_law :: "libm_gen \<Rightarrow> bool" where
  "sin_law m \<longleftrightarrow> (\<forall>x. f32_is_finite x \<longrightarrow> snd (f32_unpack (lg_sin m x)) \<le> 0x3F800000)"

definition phase_ok :: "f32 \<Rightarrow> bool" where
  "phase_ok x \<longleftrightarrow> snd (f32_unpack x) \<le> 0x40C90FDB"

definition amplitude_ok :: "f32 \<Rightarrow> bool" where
  "amplitude_ok x \<longleftrightarrow> snd (f32_unpack x) \<le> snd (f32_unpack AMPLITUDE)"

lemma amplitude_unpack: "f32_unpack AMPLITUDE = (False, 0x3E800000)"
  by (simp add: AMPLITUDE_def float_eval)

lemma rhe_cancel: "0 < c \<Longrightarrow> rhe (n * c) (d * c) = rhe n d"
  by (simp add: rhe_def Let_def mod_mult_mult2 mult.assoc [symmetric])

lemma tau_unpack: "f64_unpack TAU_F64 = (False, 0x401921FB54442D18)"
proof -
  define k d :: nat where "k = 628318530717958647692528676655900577" and "d = 10 ^ 35"
  define n where "n = k * 2 ^ 1074"
  have d: "0 < d" by (simp add: d_def)
  have "2 ^ 2 * d \<le> k" "k < 2 ^ 3 * d" by (simp_all add: k_def d_def)
  then have "2 ^ 2 * d * 2 ^ 1074 \<le> n" "n < 2 ^ 3 * d * 2 ^ 1074"
    unfolding n_def by (simp_all only: mult_le_mono1 mult_less_mono1 zero_less_power zero_less_numeral)
  then have "2 ^ 1076 * d \<le> n" "n < 2 ^ 1077 * d"
    using power_add [of "2 :: nat" 2 1074] power_add [of "2 :: nat" 3 1074]
    by (simp_all only: mult.assoc mult.commute [of d] numeral_plus_numeral add_num_simps)
  then have "2 ^ 1076 \<le> n div d" "n div d < 2 ^ Suc 1076"
    using d by (simp_all only: less_eq_div_iff_mult_less_eq div_less_iff_less_mult eval_nat_numeral)
  then have "bit_length (n div d) = Suc 1076" by (rule bit_length_eqI)
  then have e: "bit_length (n div d) - (frac_bits F64 + 1) = 1024" by simp
  have "rhe n (d * 2 ^ 1024) = rhe (k * 2 ^ 50 * 2 ^ 1024) (d * 2 ^ 1024)"
    unfolding n_def by (simp only: mult.assoc power_add [symmetric] numeral_plus_numeral add_num_simps)
  also have "\<dots> = rhe (k * 2 ^ 50) d" by (rule rhe_cancel) simp
  also have "\<dots> = 0x1921FB54442D18" by (simp add: k_def d_def rhe_def)
  finally have "round_mag F64 n d = 0x401921FB54442D18"
    unfolding round_mag_def e Let_def by simp
  moreover have "f64_unpack TAU_F64 = (False, round_mag F64 n d)"
    by (simp only: TAU_F64_def f64_lit_def fl_lit_def n_def k_def d_def F64_sel f64_unpack_pack
        F64_round_bound snd_conv)
  ultimately show ?thesis by simp
qed

lemma mag_vals:
  "mag_val F32 0x3F800000 = 2 ^ 149" "mag_val F32 0x3E800000 = 2 ^ 147"
  "mag_val F32 0x7F800000 = 2 ^ 277" "mag_val F32 0x41000000 = 2 ^ 152"
  "mag_val F64 0x47F0000000000000 = 2 ^ 1202" "mag_val F64 0x4820000000000000 = 2 ^ 1205"
  "mag_val F64 0x4830000000000000 = 2 ^ 1206" "mag_val F64 0x3FF0000000000000 = 2 ^ 1074"
  "mag_val F64 0x4020000000000000 = 2 ^ 1077"
  by (simp_all add: mag_val_def Let_def)

lemma sample_amplitude:
  assumes "snd (f32_unpack x) \<le> 0x3F800000"
  shows "amplitude_ok (f32_mul x AMPLITUDE)"
proof -
  define c where "c = snd (f32_unpack x)"
  have c: "c \<le> 0x3F800000" using assms by (simp add: c_def)
  have "mag_val F32 c \<le> 2 ^ 149" using mag_val_mono [OF c, of F32] unfolding mag_vals .
  then have "mag_val F32 c * 2 ^ 147 \<le> 2 ^ 149 * 2 ^ 147" by (rule mult_le_mono1)
  then have "mag_val F32 c * mag_val F32 0x3E800000 \<le> mag_val F32 0x3E800000 * 2 ^ 149"
    unfolding mag_vals by (simp only: mult.commute)
  then have r: "round_mag F32 (mag_val F32 c * mag_val F32 0x3E800000) (2 ^ 149) \<le> 0x3E800000"
    by (rule round_mag_upper [rotated 2]) simp_all
  have fin: "\<not> fl_is_nan F32 (f32_unpack x)" "\<not> fl_is_inf F32 (f32_unpack x)"
    "\<not> fl_is_nan F32 (False, 0x3E800000)" "\<not> fl_is_inf F32 (False, 0x3E800000)"
    using assms by (simp_all add: fl_is_nan_def fl_is_inf_def)
  have "fl_mul F32 (f32_unpack x) (False, 0x3E800000) =
      (fst (f32_unpack x) \<noteq> False, round_mag F32 (mag_val F32 c * mag_val F32 0x3E800000) (2 ^ 149))"
    unfolding fl_mul_def Let_def c_def using fin by (simp only: if_False fst_conv snd_conv simp_thms F32_sel)
  with r show ?thesis
    by (simp only: amplitude_ok_def f32_mul_def amplitude_unpack f32_unpack_pack F32_round_bound snd_conv)
qed

text \<open>The codes of one operation each, bounded by the codes of powers of two.\<close>

lemma widen_bound:
  assumes "snd (f32_unpack w) \<le> c" "c < 0x7F800000" "d < 0x7FF0000000000000"
    "mag_val F32 c * 2 ^ 925 \<le> mag_val F64 d"
  shows "snd (f64_unpack (f64_of_f32 w)) \<le> d"
proof -
  define x where "x = f32_unpack w"
  have "mag_val F32 (snd x) * 2 ^ 925 \<le> mag_val F32 c * 2 ^ 925"
    using mag_val_mono [OF assms(1), of F32] unfolding x_def by (rule mult_le_mono1)
  then have "mag_val F32 (snd x) * 2 ^ 925 \<le> mag_val F64 d * 1" using assms(4) by linarith
  moreover have "d \<le> inf_code F64" using assms(3) by simp
  ultimately have r: "round_mag F64 (mag_val F32 (snd x) * 2 ^ 925) 1 \<le> d"
    by (intro round_mag_upper zero_less_one)
  have fin: "\<not> fl_is_nan F32 x" "\<not> fl_is_inf F32 x"
    using assms(1,2) by (simp_all add: fl_is_nan_def fl_is_inf_def x_def)
  have "f64_unpack (f64_of_f32 w) = (fst x, round_mag F64 (mag_val F32 (snd x) * 2 ^ 925) 1)"
    using fin by (simp add: f64_of_f32_def fl_convert_def x_def [symmetric])
  with r show ?thesis by simp
qed

lemma F64_finite:
  assumes "snd x \<le> c" "c < 0x7FF0000000000000"
  shows "\<not> fl_is_nan F64 x" "\<not> fl_is_inf F64 x"
  using assms by (simp_all add: fl_is_nan_def fl_is_inf_def)

lemma mul_bound:
  assumes "snd x \<le> a" "snd y \<le> b" "a < 0x7FF0000000000000" "b < 0x7FF0000000000000"
    "c < 0x7FF0000000000000" "mag_val F64 a * mag_val F64 b \<le> mag_val F64 c * 2 ^ 1074"
  shows "snd (fl_mul F64 x y) \<le> c"
proof -
  have "mag_val F64 (snd x) * mag_val F64 (snd y) \<le> mag_val F64 a * mag_val F64 b"
    using assms(1,2) by (intro mult_le_mono mag_val_mono)
  then have "mag_val F64 (snd x) * mag_val F64 (snd y) \<le> mag_val F64 c * 2 ^ 1074"
    using assms(6) by (rule le_trans)
  moreover have "c \<le> inf_code F64" using assms(5) by simp
  ultimately have "round_mag F64 (mag_val F64 (snd x) * mag_val F64 (snd y)) (2 ^ 1074) \<le> c"
    by (intro round_mag_upper zero_less_power zero_less_numeral)
  moreover have "fl_mul F64 x y = (fst x \<noteq> fst y,
      round_mag F64 (mag_val F64 (snd x) * mag_val F64 (snd y)) (2 ^ 1074))"
    using F64_finite [OF assms(1,3)] F64_finite [OF assms(2,4)]
    by (simp only: fl_mul_def Let_def if_False simp_thms F64_sel)
  ultimately show ?thesis by simp
qed

lemma div_bound:
  assumes "snd x \<le> a" "b \<le> snd y" "a < 0x7FF0000000000000" "snd y < 0x7FF0000000000000" "0 < b"
    "c < 0x7FF0000000000000" "mag_val F64 a * 2 ^ 1074 \<le> mag_val F64 c * mag_val F64 b"
    "0 < mag_val F64 b"
  shows "snd (fl_div F64 x y) \<le> c"
proof -
  have "mag_val F64 (snd x) * 2 ^ 1074 \<le> mag_val F64 a * 2 ^ 1074"
    using assms(1) by (intro mult_le_mono1 mag_val_mono)
  also note assms(7)
  also have "mag_val F64 c * mag_val F64 b \<le> mag_val F64 c * mag_val F64 (snd y)"
    using assms(2) by (intro mult_le_mono2 mag_val_mono)
  finally have le: "mag_val F64 (snd x) * 2 ^ 1074 \<le> mag_val F64 c * mag_val F64 (snd y)" .
  have "0 < mag_val F64 (snd y)" using mag_val_mono [OF assms(2), of F64] assms(8) by linarith
  moreover have "c \<le> inf_code F64" using assms(6) by simp
  ultimately have "round_mag F64 (mag_val F64 (snd x) * 2 ^ 1074) (mag_val F64 (snd y)) \<le> c"
    using le by (intro round_mag_upper)
  moreover have "snd y \<noteq> 0" using assms(2,5) by simp
  then have "fl_div F64 x y = (fst x \<noteq> fst y,
      round_mag F64 (mag_val F64 (snd x) * 2 ^ 1074) (mag_val F64 (snd y)))"
    using F64_finite [OF assms(1,3)] F64_finite [OF order_refl assms(4)]
    by (simp only: fl_div_def Let_def if_False simp_thms F64_sel)
  ultimately show ?thesis by simp
qed

lemma add_bound:
  assumes "snd x \<le> a" "snd y \<le> b" "a < 0x7FF0000000000000" "b < 0x7FF0000000000000"
    "c < 0x7FF0000000000000" "mag_val F64 a + mag_val F64 b \<le> mag_val F64 c"
  shows "snd (fl_add F64 x y) \<le> c"
proof -
  have "nat \<bar>fl_int F64 x + fl_int F64 y\<bar> \<le> mag_val F64 (snd x) + mag_val F64 (snd y)"
    by (cases "fst x"; cases "fst y") (simp_all add: fl_int_def nat_le_iff abs_le_iff)
  also have "\<dots> \<le> mag_val F64 a + mag_val F64 b"
    using assms(1,2) by (intro add_le_mono mag_val_mono)
  finally have "nat \<bar>fl_int F64 x + fl_int F64 y\<bar> \<le> mag_val F64 c * 1" using assms(6) by linarith
  moreover have "c \<le> inf_code F64" using assms(5) by simp
  ultimately have "round_mag F64 (nat \<bar>fl_int F64 x + fl_int F64 y\<bar>) 1 \<le> c"
    by (intro round_mag_upper zero_less_one)
  moreover have "fl_add F64 x y = fl_round F64 (fst x \<and> fst y) (fl_int F64 x + fl_int F64 y) 1"
    using F64_finite [OF assms(1,3)] F64_finite [OF assms(2,4)]
    by (simp only: fl_add_def if_False simp_thms)
  ultimately show ?thesis by (simp add: fl_round_def)
qed

lemma rem_euclid_bound:
  assumes "snd (f64_unpack a) \<le> c" "c < 0x7FF0000000000000"
  shows "snd (f64_unpack (f64_rem_euclid a TAU_F64)) \<le> 0x401921FB54442D18"
proof -
  let ?t = "0x401921FB54442D18 :: nat"
  define x where "x = f64_unpack a"
  define r where "r = fl_rem F64 x (False, ?t)"
  have tval: "mag_val F64 ?t = 0x1921FB54442D18 * 2 ^ 1024" by (simp add: mag_val_def Let_def)
  have fin: "\<not> fl_is_nan F64 x" "\<not> fl_is_inf F64 x"
    using F64_finite [of x c] assms by (simp_all add: x_def)
  have tfin: "\<not> fl_is_nan F64 (False, ?t)" "\<not> fl_is_inf F64 (False, ?t)"
    by (simp_all add: fl_is_nan_def fl_is_inf_def)
  have r: "r = (fst x, round_mag F64 (mag_val F64 (snd x) mod mag_val F64 ?t) 1)"
    unfolding r_def fl_rem_def using fin tfin by simp
  have "mag_val F64 (snd x) mod mag_val F64 ?t \<le> mag_val F64 ?t * 1"
    unfolding tval by (metis mod_le_divisor mult_1_right mult_pos_pos zero_less_numeral zero_less_power)
  then have rb: "snd r \<le> ?t" unfolding r snd_conv by (intro round_mag_upper) simp_all
  then have unpack: "f64_unpack (f64_pack r) = r" by simp
  have rem: "f64_rem a TAU_F64 = f64_pack r"
    by (simp only: f64_rem_def tau_unpack r_def x_def)
  show ?thesis
  proof (cases "f64_lt (f64_pack r) 0")
    case False
    then show ?thesis using rb by (simp only: f64_rem_euclid_def rem Let_def if_False unpack)
  next
    case True
    have zero: "f64_unpack 0 = (False, 0)" by (simp add: f64_unpack_def)
    have neg: "fst r"
      using True unfolding f64_lt_def fl_lt_def unpack zero by (auto simp: fl_key_def split: if_splits)
    define v where "v = mag_val F64 (snd r)"
    have v: "v \<le> mag_val F64 ?t" using mag_val_mono [OF rb, of F64] by (simp only: v_def)
    have sum: "fl_int F64 r + fl_int F64 (False, ?t) = int (mag_val F64 ?t) - int v"
      using neg by (simp add: fl_int_def v_def)
    have "nat \<bar>int (mag_val F64 ?t) - int v\<bar> \<le> mag_val F64 ?t * 1" using v by linarith
    then have "round_mag F64 (nat \<bar>int (mag_val F64 ?t) - int v\<bar>) 1 \<le> ?t"
      by (intro round_mag_upper) simp_all
    moreover have "fl_add F64 r (False, ?t) = fl_round F64 False (int (mag_val F64 ?t) - int v) 1"
      using F64_finite [OF rb] tfin by (simp add: fl_add_def sum)
    ultimately have "snd (fl_add F64 r (False, ?t)) \<le> ?t" by (simp add: fl_round_def)
    moreover from this have "f64_unpack (f64_pack (fl_add F64 r (False, ?t))) = fl_add F64 r (False, ?t)"
      by simp
    moreover have "f64_rem_euclid a TAU_F64 = f64_pack (fl_add F64 r (False, ?t))"
      unfolding f64_rem_euclid_def rem Let_def using True tfin
      by (simp add: f64_add_def tau_unpack fl_abs_def unpack)
    ultimately show ?thesis by simp
  qed
qed

lemma narrow_phase:
  assumes "snd (f64_unpack w) \<le> 0x401921FB54442D18"
  shows "phase_ok (f32_of_f64 w)"
proof -
  define x where "x = f64_unpack w"
  have "mag_val F64 (snd x) \<le> mag_val F64 0x401921FB54442D18"
    using assms unfolding x_def by (rule mag_val_mono)
  also have "\<dots> \<le> mag_val F32 0x40C90FDB * 2 ^ 925" by (simp add: mag_val_def Let_def)
  finally have "round_mag F32 (mag_val F64 (snd x)) (2 ^ 925) \<le> 0x40C90FDB"
    by (intro round_mag_upper) simp_all
  moreover have "\<not> fl_is_nan F64 x" "\<not> fl_is_inf F64 x"
    using F64_finite [OF assms] by (simp_all add: x_def)
  then have "f32_unpack (f32_of_f64 w) = (fst x, round_mag F32 (mag_val F64 (snd x)) (2 ^ 925))"
    by (simp add: f32_of_f64_def fl_convert_def x_def [symmetric])
  ultimately show ?thesis by (simp add: phase_ok_def)
qed

lemma rate_code:
  fixes sr :: u32
  assumes "0 < sr"
  shows "0x3FF0000000000000 \<le> snd (f64_unpack (f64_lit (unat sr) 1))"
    "snd (f64_unpack (f64_lit (unat sr) 1)) < 0x7FF0000000000000"
proof -
  have u: "f64_unpack (f64_lit (unat sr) 1) = (False, round_mag F64 (unat sr * 2 ^ 1074) 1)"
    by (simp only: f64_lit_def fl_lit_def F64_sel f64_unpack_pack F64_round_bound snd_conv)
  have "1 \<le> unat sr" using assms by (simp add: word_less_nat_alt)
  then have "mag_val F64 0x3FF0000000000000 * 1 \<le> unat sr * 2 ^ 1074"
    unfolding mag_vals by (simp only: mult_1_right mult_le_mono1 [of 1, unfolded mult_1])
  then show "0x3FF0000000000000 \<le> snd (f64_unpack (f64_lit (unat sr) 1))"
    unfolding u snd_conv by (intro round_mag_lower) simp_all
  have "mag_val F64 0x41F0000000000000 = 2 ^ 32 * 2 ^ 1074" by (simp add: mag_val_def Let_def)
  moreover have "unat sr \<le> 2 ^ 32" using unsigned_less [of sr, where ?'a = nat] by simp
  then have "unat sr * 2 ^ 1074 \<le> 2 ^ 32 * 2 ^ 1074" by (rule mult_le_mono1)
  ultimately have "unat sr * 2 ^ 1074 \<le> mag_val F64 0x41F0000000000000 * 1" by linarith
  then have "round_mag F64 (unat sr * 2 ^ 1074) 1 \<le> 0x41F0000000000000"
    by (intro round_mag_upper) simp_all
  then show "snd (f64_unpack (f64_lit (unat sr) 1)) < 0x7FF0000000000000" unfolding u by simp
qed

lemma tone_step:
  assumes sin: "sin_law m" and hz: "f32_is_finite hz" and sr: "0 < sr" and ph: "phase_ok phase"
  shows "\<exists>x phase'. oscillator_step m sr (FixedTone hz) (phase, lfo) = (x, phase', lfo) \<and>
    amplitude_ok x \<and> phase_ok phase'"
proof -
  have tau:
    "mag_val F64 0x401921FB54442D18 * mag_val F64 0x47F0000000000000 \<le> mag_val F64 0x4820000000000000 * 2 ^ 1074"
    "mag_val F32 0x40C90FDB * 2 ^ 925 \<le> mag_val F64 0x4020000000000000"
    "mag_val F32 0x7F7FFFFF * 2 ^ 925 \<le> mag_val F64 0x47F0000000000000"
    "mag_val F64 0x4020000000000000 + mag_val F64 0x4820000000000000 \<le> mag_val F64 0x4830000000000000"
    by (simp_all add: mag_val_def Let_def)
  define p where "p = f64_of_f32 phase"
  define f where "f = f64_of_f32 hz"
  define prod where "prod = f64_mul TAU_F64 f"
  define inc where "inc = f64_div prod (f64_lit (unat sr) 1)"
  define total where "total = f64_add p inc"
  have p: "snd (f64_unpack p) \<le> 0x4020000000000000"
    unfolding p_def
    by (rule widen_bound [OF ph [unfolded phase_ok_def] _ _ tau(2)]) simp_all
  have "snd (f32_unpack hz) \<le> 0x7F7FFFFF"
    using hz by (simp add: f32_is_finite_def fl_is_finite_def)
  then have f: "snd (f64_unpack f) \<le> 0x47F0000000000000"
    unfolding f_def by (rule widen_bound [OF _ _ _ tau(3)]) simp_all
  have "snd (fl_mul F64 (f64_unpack TAU_F64) (f64_unpack f)) \<le> 0x4820000000000000"
    by (rule mul_bound [OF _ f _ _ _ tau(1)]) (simp_all add: tau_unpack)
  then have prod: "snd (f64_unpack prod) \<le> 0x4820000000000000"
    unfolding prod_def f64_mul_def by (subst f64_unpack_pack) simp_all
  have "snd (fl_div F64 (f64_unpack prod) (f64_unpack (f64_lit (unat sr) 1))) \<le> 0x4820000000000000"
    by (rule div_bound [OF prod rate_code(1) [OF sr] _ rate_code(2) [OF sr]])
      (simp_all add: mag_val_def Let_def)
  then have inc: "snd (f64_unpack inc) \<le> 0x4820000000000000"
    unfolding inc_def f64_div_def by (subst f64_unpack_pack) simp_all
  have "snd (fl_add F64 (f64_unpack p) (f64_unpack inc)) \<le> 0x4830000000000000"
    by (rule add_bound [OF p inc _ _ _ tau(4)]) simp_all
  then have total: "snd (f64_unpack total) \<le> 0x4830000000000000"
    unfolding total_def f64_add_def by (subst f64_unpack_pack) simp_all
  have "phase_ok (f32_of_f64 (f64_rem_euclid total TAU_F64))"
    by (rule narrow_phase [OF rem_euclid_bound [OF total]]) simp
  moreover have "f32_is_finite phase"
    using ph by (simp add: phase_ok_def f32_is_finite_def fl_is_finite_def)
  then have "amplitude_ok (f32_mul (lg_sin m phase) AMPLITUDE)"
    using sin by (intro sample_amplitude) (simp add: sin_law_def)
  moreover have "oscillator_step m sr (FixedTone hz) (phase, lfo) =
      (f32_mul (lg_sin m phase) AMPLITUDE, f32_of_f64 (f64_rem_euclid total TAU_F64), lfo)"
    by (simp add: oscillator_step_def Let_def total_def p_def inc_def prod_def f_def)
  ultimately show ?thesis by blast
qed

text \<open>
  The calibration tone stays in range: for any finite frequency and any sample rate, with a
  sine that keeps to magnitude one, every sample of any length of the tone has at most the
  amplitude 0.25, so none is infinite or NaN, and the phase never leaves one turn.
\<close>

lemma tone_in_range:
  assumes "sin_law m" "f32_is_finite hz" "0 < sr" "phase_ok phase"
  shows "list_all amplitude_ok (fst (oscillator_run m sr (FixedTone hz) k (phase, lfo))) \<and>
    phase_ok (fst (snd (oscillator_run m sr (FixedTone hz) k (phase, lfo))))"
  using assms(4)
proof (induction k arbitrary: phase)
  case (Suc k)
  from tone_step [OF assms(1-3) Suc.prems, of lfo] obtain x phase' where
    step: "oscillator_step m sr (FixedTone hz) (phase, lfo) = (x, phase', lfo)"
      "amplitude_ok x" "phase_ok phase'" by blast
  from Suc.IH [OF step(3)] step show ?case by (auto split: prod.split)
qed simp

definition clamped_sin :: libm_gen where
  "clamped_sin = \<lparr>lg_sin = (\<lambda>x. if snd (f32_unpack x) \<le> 0x3F800000 then x else 0), lg_powf = (\<lambda>x y. x)\<rparr>"

lemma tone_in_range_witness:
  "list_all amplitude_ok (fst (oscillator_run clamped_sin 44100 (FixedTone 0x43DC0000) 441 (0, 0))) \<and>
   phase_ok (fst (snd (oscillator_run clamped_sin 44100 (FixedTone 0x43DC0000) 441 (0, 0))))"
proof (rule tone_in_range)
  show "sin_law clamped_sin"
    by (auto simp: sin_law_def clamped_sin_def f32_unpack_def)
qed (simp_all add: phase_ok_def f32_is_finite_def fl_is_finite_def f32_unpack_def)

end
