(* ===== verification/Osc.thy ===== *)
theory Osc
  imports Headless
begin

text \<open>
  The OSC sender, \<^verbatim>\<open>src/src/managers/osc.rs\<close>. The wire encoding (rosc) and the socket are parameters:
  an encoder leaves bytes in the scratch buffer and may fail, and a send may fail. The packets and
  their in-place update, the order of the datagrams and the log latches are modelled.
\<close>

section \<open>Definitions\<close>

definition OSC_MESSAGE_SIZE_ESTIMATE_BYTES :: nat where
  "OSC_MESSAGE_SIZE_ESTIMATE_BYTES = 64"

definition OSC_SEND_BUFFER_FRAME_HEADROOM :: nat where
  "OSC_SEND_BUFFER_FRAME_HEADROOM = 4"

definition OSC_UDP_PAYLOAD_LIMIT_BYTES :: nat where
  "OSC_UDP_PAYLOAD_LIMIT_BYTES = 65507"

datatype osc_type = OscFloat f32 | OscInt "32 word"

datatype osc_packet =
    OscMessage rstring "osc_type list"
  | OscBundle "nat \<times> nat" "osc_packet list"

definition bin_addr :: "nat \<Rightarrow> nat \<Rightarrow> rstring" where
  "bin_addr ch bin = lit ''/ch/'' @ show_nat ch @ lit ''/bin/'' @ show_nat bin"

definition build_packets :: "nat \<Rightarrow> osc_packet list" where
  "build_packets channels =
     concat (map (\<lambda>ch. map (\<lambda>bin. OscMessage (bin_addr ch bin) [OscFloat 0]) [0..<BAND_COUNT])
       [0..<channels])"

definition build_bin_bundle :: "nat \<Rightarrow> osc_packet" where
  "build_bin_bundle channels = OscBundle (0, 1) (build_packets channels)"

record midi_osc_packets =
  mo_steps_packet :: osc_packet
  mo_start_packet :: osc_packet
  mo_stop_packet :: osc_packet
  mo_continue_packet :: osc_packet

definition bang :: "string \<Rightarrow> osc_packet" where
  "bang addr = OscMessage (lit addr) [OscInt 1]"

definition build_midi_packets :: midi_osc_packets where
  "build_midi_packets =
     \<lparr>mo_steps_packet = OscMessage (lit ''/phase4/midi/steps'') [OscInt 0],
      mo_start_packet = bang ''/phase4/midi/start'',
      mo_stop_packet = bang ''/phase4/midi/stop'',
      mo_continue_packet = bang ''/phase4/midi/continue''\<rparr>"

text \<open>
  An encoder gives the bytes it has appended and whether it succeeded. \<open>prepare_bin_bundle\<close> rejects
  a bundle that cannot be encoded or whose encoding does not fit into a datagram.
\<close>

type_synonym encoder = "osc_packet \<Rightarrow> u8 list \<times> bool"

definition bundle_too_large :: "nat \<Rightarrow> nat \<Rightarrow> any_error" where
  "bundle_too_large channels len = any_of (RMessage
     (lit ''OSC output for '' @ show_nat channels @ lit '' audio channels and '' @ show_nat BAND_COUNT @
      lit '' bands encodes to '' @ show_nat len @
      lit '' bytes, exceeding the supported UDP payload limit of '' @
      show_nat OSC_UDP_PAYLOAD_LIMIT_BYTES @
      lit '' bytes. Select fewer audio channels or use WebSocket output.''))"

definition prepare_bin_bundle :: "encoder \<Rightarrow> nat \<Rightarrow> any_error + osc_packet \<times> u8 list" where
  "prepare_bin_bundle encode channels =
     (let bin_bundle = build_bin_bundle channels in
      case encode bin_bundle of (scratch, ok) \<Rightarrow>
        and_then (with_context ''Failed to encode OSC bin bundle during startup''
            (if ok then Inr () else Inl (any_message ''encode'')))
          (\<lambda>_. if length scratch \<le> OSC_UDP_PAYLOAD_LIMIT_BYTES then Inr (bin_bundle, scratch)
            else Inl (bundle_too_large channels (length scratch))))"

text \<open>A UDP socket: its creation and configuration, and a send, which may fail.\<close>

record 's socket_ops =
  so_new :: "bool \<Rightarrow> any_error + 's"
  so_set_send_buffer_size :: "'s \<Rightarrow> nat \<Rightarrow> any_error + 's"
  so_bind :: "'s \<Rightarrow> socket_addr \<Rightarrow> any_error + 's"
  so_send_to :: "'s \<Rightarrow> u8 list \<Rightarrow> socket_addr \<Rightarrow> 's \<times> bool"

record 's osc_runtime =
  or_socket :: 's
  or_target :: socket_addr
  or_bin_bundle :: osc_packet
  or_midi_packets :: "midi_osc_packets option"
  or_scratch :: "u8 list"
  or_send_failure_logged :: bool
  or_encode_failure_logged :: bool
  or_warnings :: "rstring list"

fun is_ipv4 :: "ip_addr \<Rightarrow> bool" where
  "is_ipv4 (IpV4 a b c d) = True"
| "is_ipv4 (IpV6 w) = False"

definition unspecified_addr :: "bool \<Rightarrow> socket_addr" where
  "unspecified_addr v4 = \<lparr>sa_ip = (if v4 then IpV4 0 0 0 0 else IpV6 0), sa_port = 0\<rparr>"

definition osc_spawn ::
  "encoder \<Rightarrow> 's socket_ops \<Rightarrow> socket_addr \<Rightarrow> nat \<Rightarrow> bool \<Rightarrow> any_error + 's osc_runtime" where
  "osc_spawn encode S target channels midi_enabled =
     and_then (prepare_bin_bundle encode channels) (\<lambda>(bin_bundle, scratch).
     let messages_per_frame = channels * BAND_COUNT + (if midi_enabled then 2 else 0);
         send_buffer_size =
           messages_per_frame * OSC_MESSAGE_SIZE_ESTIMATE_BYTES * OSC_SEND_BUFFER_FRAME_HEADROOM;
         v4 = is_ipv4 (sa_ip target)
     in and_then (with_context ''Failed to create UDP socket for OSC output'' (so_new S v4)) (\<lambda>s.
        and_then (with_context ''Failed to set UDP send buffer size for OSC output''
          (so_set_send_buffer_size S s send_buffer_size)) (\<lambda>s.
        and_then (with_context ''Failed to bind UDP socket for OSC output''
          (so_bind S s (unspecified_addr v4))) (\<lambda>s.
        Inr \<lparr>or_socket = s, or_target = target, or_bin_bundle = bin_bundle,
          or_midi_packets = (if midi_enabled then Some build_midi_packets else None),
          or_scratch = scratch, or_send_failure_logged = False, or_encode_failure_logged = False,
          or_warnings = []\<rparr>))))"

text \<open>The update of the float arguments, bin by bin of the channels that have packets.\<close>

fun set_float :: "f32 \<Rightarrow> osc_packet \<Rightarrow> osc_packet" where
  "set_float v (OscMessage addr (OscFloat f # args)) = OscMessage addr (OscFloat v # args)"
| "set_float v p = p"

fun set_int :: "32 word \<Rightarrow> osc_packet \<Rightarrow> osc_packet" where
  "set_int n (OscMessage addr (OscInt i # args)) = OscMessage addr (OscInt n # args)"
| "set_int n p = p"

fun set_row :: "osc_packet list \<Rightarrow> f32 list \<Rightarrow> osc_packet list" where
  "set_row (p # ps) (v # vs) = set_float v p # set_row ps vs"
| "set_row ps vs = ps"

fun set_bins :: "osc_packet list \<Rightarrow> channel_level list \<Rightarrow> osc_packet list" where
  "set_bins content [] = content"
| "set_bins content (c # cs) =
     (if length content < BAND_COUNT then content
      else set_row (take BAND_COUNT content) (cl_bins c) @ set_bins (drop BAND_COUNT content) cs)"

fun describe_packet :: "osc_packet \<Rightarrow> rstring" where
  "describe_packet (OscMessage addr args) = addr"
| "describe_packet (OscBundle t content) =
     lit ''bundle of '' @ show_nat (length content) @ lit '' messages''"

text \<open>\<open>or_warnings\<close> collects what the warning lines of the thread name.\<close>

definition encode_and_send ::
  "encoder \<Rightarrow> 's socket_ops \<Rightarrow> osc_packet \<Rightarrow> 's osc_runtime \<Rightarrow> 's osc_runtime" where
  "encode_and_send encode S packet r =
     (case encode packet of (bytes, ok) \<Rightarrow>
      let r = r\<lparr>or_scratch := bytes\<rparr> in
      if ok then
        let r = r\<lparr>or_encode_failure_logged := False\<rparr> in
        (case so_send_to S (or_socket r) (or_scratch r) (or_target r) of (s, sent) \<Rightarrow>
           let r = r\<lparr>or_socket := s\<rparr> in
           if sent then r\<lparr>or_send_failure_logged := False\<rparr>
           else if \<not> or_send_failure_logged r
             then r\<lparr>or_warnings := or_warnings r @ [describe_packet packet],
               or_send_failure_logged := True\<rparr>
           else r)
      else if \<not> or_encode_failure_logged r
        then r\<lparr>or_warnings := or_warnings r @ [describe_packet packet],
          or_encode_failure_logged := True\<rparr>
      else r)"

fun transport_packet :: "midi_osc_packets \<Rightarrow> string option \<Rightarrow> osc_packet option" where
  "transport_packet m None = None"
| "transport_packet m (Some t) =
     (if t = ''start'' then Some (mo_start_packet m)
      else if t = ''stop'' then Some (mo_stop_packet m)
      else if t = ''continue'' then Some (mo_continue_packet m)
      else None)"

text \<open>One pass through the loop with a payload in the watch channel.\<close>

definition osc_bins :: "'s osc_runtime \<Rightarrow> display_payload \<Rightarrow> 's osc_runtime" where
  "osc_bins r payload = (case or_bin_bundle r of
       OscBundle t content \<Rightarrow> r\<lparr>or_bin_bundle := OscBundle t (set_bins content (dp_channels payload))\<rparr>
     | OscMessage a args \<Rightarrow> r)"

definition osc_midi ::
  "encoder \<Rightarrow> 's socket_ops \<Rightarrow> midi_snapshot \<Rightarrow> 's osc_runtime \<Rightarrow> 's osc_runtime" where
  "osc_midi encode S midi r =
     (let r = r\<lparr>or_midi_packets := map_option (\<lambda>m. m\<lparr>mo_steps_packet :=
            set_int (ms_steps midi) (mo_steps_packet m)\<rparr>) (or_midi_packets r)\<rparr> in
      case or_midi_packets r of
        None \<Rightarrow> r
      | Some m \<Rightarrow>
          let r = encode_and_send encode S (mo_steps_packet m) r in
          (case transport_packet m (ms_transport midi) of
             None \<Rightarrow> r
           | Some packet \<Rightarrow> encode_and_send encode S packet r))"

definition osc_frame ::
  "encoder \<Rightarrow> 's socket_ops \<Rightarrow> display_payload \<Rightarrow> 's osc_runtime \<Rightarrow> 's osc_runtime" where
  "osc_frame encode S payload r =
     (let r = osc_bins r payload;
          r = encode_and_send encode S (or_bin_bundle r) r
      in case dp_midi payload of None \<Rightarrow> r | Some midi \<Rightarrow> osc_midi encode S midi r)"

text \<open>
  The thread: at each event the run flag has been checked first. \<open>OscPayload\<close> is a change of the
  display channel, \<open>DisplayClosed\<close> the end of the mapper, \<open>OscStop\<close> a cleared run flag.
\<close>

datatype osc_event = OscPayload display_payload | DisplayClosed | OscStop

fun osc_run ::
  "encoder \<Rightarrow> 's socket_ops \<Rightarrow> osc_event list \<Rightarrow> 's osc_runtime \<Rightarrow> 's osc_runtime" where
  "osc_run encode S [] r = r"
| "osc_run encode S (OscPayload payload # es) r = osc_run encode S es (osc_frame encode S payload r)"
| "osc_run encode S (DisplayClosed # es) r = r"
| "osc_run encode S (OscStop # es) r = r"

section \<open>The packet table\<close>

lemma bin_addr_inject [simp]: "bin_addr a b = bin_addr c d \<longleftrightarrow> a = c \<and> b = d"
proof
  assume eq: "bin_addr a b = bin_addr c d"
  have cut: "xs = ys \<and> us = vs"
    if "xs @ 47 # us = ys @ 47 # vs" "47 \<notin> set xs" "47 \<notin> set ys" for xs ys us vs :: rstring
    using that
  proof (induction xs arbitrary: ys)
    case Nil
    then show ?case by (cases ys) auto
  next
    case (Cons x xs)
    then show ?case by (cases ys) auto
  qed
  have "47 \<notin> set (show_nat n)" for n using show_nat_digits [of 47 n] by auto
  with eq cut [of "show_nat a" "lit ''bin/'' @ show_nat b" "show_nat c" "lit ''bin/'' @ show_nat d"]
  show "a = c \<and> b = d" by (simp add: bin_addr_def lit_def)
qed simp

text \<open>The table with the values in place, row by row from channel \<open>ch\<close> on.\<close>

definition osc_row :: "nat \<Rightarrow> f32 list \<Rightarrow> osc_packet list" where
  "osc_row ch row =
     map (\<lambda>(bin, v). OscMessage (bin_addr ch bin) [OscFloat v]) (zip [0..<length row] row)"

fun osc_table :: "nat \<Rightarrow> f32 list list \<Rightarrow> osc_packet list" where
  "osc_table ch [] = []"
| "osc_table ch (row # rows) = osc_row ch row @ osc_table (Suc ch) rows"

lemma osc_row_length [simp]: "length (osc_row ch row) = length row"
  by (simp add: osc_row_def)

lemma zip_replicate_map: "zip xs (replicate (length xs) y) = map (\<lambda>x. (x, y)) xs"
  by (induction xs) simp_all

lemma build_packets_table: "build_packets n = osc_table 0 (replicate n (replicate BAND_COUNT 0))"
proof -
  have row: "osc_row ch (replicate BAND_COUNT 0) =
      map (\<lambda>bin. OscMessage (bin_addr ch bin) [OscFloat 0]) [0..<BAND_COUNT]" for ch
    using zip_replicate_map [of "[0..<BAND_COUNT]" "0 :: f32"] by (simp add: osc_row_def comp_def)
  have "osc_table k (replicate n (replicate BAND_COUNT 0)) =
      concat (map (\<lambda>ch. map (\<lambda>bin. OscMessage (bin_addr ch bin) [OscFloat 0]) [0..<BAND_COUNT]) [k..<k + n])"
    for k
    by (induction n arbitrary: k) (simp_all add: row upt_conv_Cons)
  from this [of 0] show ?thesis by (simp add: build_packets_def)
qed

lemma set_row_zip:
  "length ks = length row \<Longrightarrow> length row = length vs \<Longrightarrow>
   set_row (map (\<lambda>(bin, v). OscMessage (bin_addr ch bin) [OscFloat v]) (zip ks row)) vs =
   map (\<lambda>(bin, v). OscMessage (bin_addr ch bin) [OscFloat v]) (zip ks vs)"
  by (induction ks row vs rule: list_induct3) simp_all

lemma set_row_osc: "length row = length vs \<Longrightarrow> set_row (osc_row ch row) vs = osc_row ch vs"
  by (simp add: osc_row_def set_row_zip)

definition table_sized :: "nat \<Rightarrow> f32 list list \<Rightarrow> bool" where
  "table_sized n rows \<longleftrightarrow> length rows = n \<and> (\<forall>row \<in> set rows. length row = BAND_COUNT)"

lemma set_bins_table:
  assumes "length rows = length cs" "\<forall>row \<in> set rows. length row = BAND_COUNT" "\<forall>c \<in> set cs. level_ok c"
  shows "set_bins (osc_table ch rows) cs = osc_table ch (map cl_bins cs)"
  using assms
proof (induction rows cs arbitrary: ch rule: list_induct2)
  case (Cons row rows c cs)
  then show ?case by (simp add: set_row_osc level_ok_def)
qed simp

text \<open>
  The packet table: bin \<open>bin\<close> of channel \<open>ch\<close> is the packet at index
  \<open>ch * BAND_COUNT + bin\<close>, the table has no other packet, and no two bins share an address.
\<close>

lemma build_packets_index:
  assumes "ch < channels" "bin < BAND_COUNT"
  shows "ch * BAND_COUNT + bin < length (build_packets channels) \<and>
    length (build_packets channels) = channels * BAND_COUNT \<and>
    build_packets channels ! (ch * BAND_COUNT + bin) = OscMessage (bin_addr ch bin) [OscFloat 0] \<and>
    distinct (map describe_packet (build_packets channels))"
proof -
  have len: "length (build_packets n) = n * BAND_COUNT" for n
    by (induction n) (simp_all add: build_packets_def)
  have split: "build_packets (Suc n) = build_packets n @
      map (\<lambda>bin. OscMessage (bin_addr n bin) [OscFloat 0]) [0..<BAND_COUNT]" for n
    by (simp add: build_packets_def)
  have dist: "distinct (map describe_packet (build_packets n)) \<and>
      (\<forall>p \<in> set (build_packets n). \<exists>c < n. \<exists>b. describe_packet p = bin_addr c b)" for n
  proof (induction n)
    case 0
    then show ?case by (simp add: build_packets_def)
  next
    case (Suc n)
    then show ?case
      by (fastforce simp: split distinct_map inj_on_def comp_def less_Suc_eq)
  qed
  have nth: "build_packets channels ! (ch * BAND_COUNT + bin) = OscMessage (bin_addr ch bin) [OscFloat 0]"
    using assms(1)
  proof (induction channels)
    case (Suc n)
    show ?case
    proof (cases "ch = n")
      case True
      then show ?thesis using assms(2) by (simp add: split nth_append len)
    next
      case False
      then have "ch < n" using Suc.prems by simp
      then have "Suc ch * BAND_COUNT \<le> n * BAND_COUNT" by (intro mult_le_mono1) simp
      then have "ch * BAND_COUNT + bin < n * BAND_COUNT" using assms(2) by simp
      then show ?thesis using Suc.IH [OF \<open>ch < n\<close>] by (simp add: split nth_append len)
    qed
  qed simp
  have "Suc ch * BAND_COUNT \<le> channels * BAND_COUNT" using assms(1) by (intro mult_le_mono1) simp
  then show ?thesis using len nth dist assms(2) by simp
qed

section \<open>What goes out\<close>

text \<open>
  The contract of the sender: what a payload puts on the wire, a function of the payload alone. The
  socket's log holds every datagram handed to the system.
\<close>

definition socket_laws :: "'s socket_ops \<Rightarrow> ('s \<Rightarrow> (u8 list \<times> socket_addr) list) \<Rightarrow> bool" where
  "socket_laws S sent \<longleftrightarrow>
     (\<forall>s bytes addr. sent (fst (so_send_to S s bytes addr)) = sent s @ [(bytes, addr)])"

definition midi_messages :: "midi_snapshot \<Rightarrow> osc_packet list" where
  "midi_messages midi =
     OscMessage (lit ''/phase4/midi/steps'') [OscInt (ms_steps midi)] #
     (case ms_transport midi of
        None \<Rightarrow> []
      | Some t \<Rightarrow> if t \<in> {''start'', ''stop'', ''continue''} then [bang (''/phase4/midi/'' @ t)] else [])"

definition payload_packets :: "bool \<Rightarrow> display_payload \<Rightarrow> osc_packet list" where
  "payload_packets midi_enabled payload =
     OscBundle (0, 1) (osc_table 0 (map cl_bins (dp_channels payload))) #
     (case dp_midi payload of Some midi \<Rightarrow> if midi_enabled then midi_messages midi else [] | None \<Rightarrow> [])"

definition wire :: "encoder \<Rightarrow> socket_addr \<Rightarrow> osc_packet list \<Rightarrow> (u8 list \<times> socket_addr) list" where
  "wire encode target packets =
     map (\<lambda>p. (fst (encode p), target)) (filter (\<lambda>p. snd (encode p)) packets)"

fun osc_payloads :: "osc_event list \<Rightarrow> display_payload list" where
  "osc_payloads (OscPayload p # es) = p # osc_payloads es"
| "osc_payloads es = []"

definition osc_inv :: "nat \<Rightarrow> bool \<Rightarrow> socket_addr \<Rightarrow> 's osc_runtime \<Rightarrow> bool" where
  "osc_inv n midi_enabled target r \<longleftrightarrow> or_target r = target \<and>
     (\<exists>rows. or_bin_bundle r = OscBundle (0, 1) (osc_table 0 rows) \<and> table_sized n rows) \<and>
     (case or_midi_packets r of
        None \<Rightarrow> \<not> midi_enabled
      | Some m \<Rightarrow> midi_enabled \<and> (\<exists>k. m = build_midi_packets
          \<lparr>mo_steps_packet := OscMessage (lit ''/phase4/midi/steps'') [OscInt k]\<rparr>))"

lemma encode_and_send_keeps:
  "or_target (encode_and_send encode S packet r) = or_target r"
  "or_bin_bundle (encode_and_send encode S packet r) = or_bin_bundle r"
  "or_midi_packets (encode_and_send encode S packet r) = or_midi_packets r"
  by (simp_all add: encode_and_send_def Let_def split: prod.split)

lemma encode_and_send_wire:
  assumes "socket_laws S sent"
  shows "sent (or_socket (encode_and_send encode S packet r)) =
    sent (or_socket r) @ wire encode (or_target r) [packet]"
proof (cases "encode packet")
  case (Pair bytes ok)
  obtain s ok' where "so_send_to S (or_socket r) bytes (or_target r) = (s, ok')"
    by (cases "so_send_to S (or_socket r) bytes (or_target r)")
  moreover from this have "sent s = sent (or_socket r) @ [(bytes, or_target r)]"
    using assms by (auto simp: socket_laws_def dest: spec [where x = "or_socket r"]) (metis fst_conv)
  ultimately show ?thesis using Pair by (simp add: encode_and_send_def wire_def Let_def)
qed

lemma wire_append [simp]: "wire encode target (ps @ qs) = wire encode target ps @ wire encode target qs"
  by (simp add: wire_def)

lemma osc_bins_table:
  assumes "osc_inv n midi_enabled target r" "length (dp_channels p) = n" "\<forall>c \<in> set (dp_channels p). level_ok c"
  shows "osc_inv n midi_enabled target (osc_bins r p) \<and> or_socket (osc_bins r p) = or_socket r \<and>
    or_bin_bundle (osc_bins r p) = OscBundle (0, 1) (osc_table 0 (map cl_bins (dp_channels p)))"
proof -
  from assms(1) obtain rows where rows: "or_bin_bundle r = OscBundle (0, 1) (osc_table 0 rows)"
    "table_sized n rows" by (auto simp: osc_inv_def)
  then have "set_bins (osc_table 0 rows) (dp_channels p) = osc_table 0 (map cl_bins (dp_channels p))"
    using assms(2,3) by (intro set_bins_table) (auto simp: table_sized_def)
  moreover have "table_sized n (map cl_bins (dp_channels p))"
    using assms(2,3) by (auto simp: table_sized_def level_ok_def)
  ultimately show ?thesis using assms(1) rows by (auto simp: osc_inv_def osc_bins_def)
qed

lemma osc_inv_send [simp]:
  "osc_inv n midi_enabled target (encode_and_send encode S packet r) = osc_inv n midi_enabled target r"
  by (simp add: osc_inv_def encode_and_send_keeps)

lemma osc_midi_wire:
  assumes laws: "socket_laws S sent" and inv: "osc_inv n midi_enabled target r"
  shows "osc_inv n midi_enabled target (osc_midi encode S midi r) \<and>
    sent (or_socket (osc_midi encode S midi r)) =
      sent (or_socket r) @ wire encode target (if midi_enabled then midi_messages midi else [])"
proof (cases "or_midi_packets r")
  case None
  then show ?thesis using inv
    by (simp add: osc_midi_def Let_def osc_inv_def wire_def)
next
  case (Some m)
  with inv obtain k where m: "midi_enabled"
    "m = build_midi_packets\<lparr>mo_steps_packet := OscMessage (lit ''/phase4/midi/steps'') [OscInt k]\<rparr>"
    by (auto simp: osc_inv_def)
  define m' where "m' = build_midi_packets
    \<lparr>mo_steps_packet := OscMessage (lit ''/phase4/midi/steps'') [OscInt (ms_steps midi)]\<rparr>"
  define r1 where "r1 = r\<lparr>or_midi_packets := Some m'\<rparr>"
  define r2 where "r2 = encode_and_send encode S (mo_steps_packet m') r1"
  have m': "m\<lparr>mo_steps_packet := set_int (ms_steps midi) (mo_steps_packet m)\<rparr> = m'"
    by (simp add: m m'_def)
  have r1: "osc_inv n midi_enabled target r1" "or_socket r1 = or_socket r" "or_target r1 = target"
    using inv m(1) by (auto simp: osc_inv_def r1_def m'_def)
  then have r2: "osc_inv n midi_enabled target r2" "or_target r2 = target"
    "sent (or_socket r2) = sent (or_socket r) @
      wire encode target [OscMessage (lit ''/phase4/midi/steps'') [OscInt (ms_steps midi)]]"
    using encode_and_send_wire [OF laws, of encode "mo_steps_packet m'" r1]
    by (simp_all add: r2_def encode_and_send_keeps m'_def)
  have run: "osc_midi encode S midi r = (case transport_packet m' (ms_transport midi) of
      None \<Rightarrow> r2 | Some packet \<Rightarrow> encode_and_send encode S packet r2)"
    unfolding r2_def r1_def using Some by (simp add: osc_midi_def Let_def m')
  have packet: "midi_messages midi =
      OscMessage (lit ''/phase4/midi/steps'') [OscInt (ms_steps midi)] #
      (case transport_packet m' (ms_transport midi) of None \<Rightarrow> [] | Some p \<Rightarrow> [p])"
    by (cases "ms_transport midi") (simp_all add: midi_messages_def m'_def build_midi_packets_def)
  show ?thesis
  proof (cases "transport_packet m' (ms_transport midi)")
    case None
    with run packet r2 m(1) show ?thesis by simp
  next
    case (Some p)
    with run packet r2 m(1) encode_and_send_wire [OF laws, of encode p r2]
      wire_append [of encode target "[OscMessage (lit ''/phase4/midi/steps'') [OscInt (ms_steps midi)]]" "[p]"]
    show ?thesis by simp
  qed
qed

lemma osc_frame_wire:
  assumes laws: "socket_laws S sent" and inv: "osc_inv n midi_enabled target r"
    and p: "length (dp_channels p) = n" "\<forall>c \<in> set (dp_channels p). level_ok c"
  shows "osc_inv n midi_enabled target (osc_frame encode S p r) \<and>
    sent (or_socket (osc_frame encode S p r)) =
      sent (or_socket r) @ wire encode target (payload_packets midi_enabled p)"
proof -
  define r1 where "r1 = osc_bins r p"
  define r2 where "r2 = encode_and_send encode S (or_bin_bundle r1) r1"
  from osc_bins_table [OF inv p] have r1: "osc_inv n midi_enabled target r1" "or_socket r1 = or_socket r"
    "or_bin_bundle r1 = OscBundle (0, 1) (osc_table 0 (map cl_bins (dp_channels p)))" "or_target r1 = target"
    by (auto simp: r1_def osc_inv_def)
  then have r2: "osc_inv n midi_enabled target r2" "sent (or_socket r2) = sent (or_socket r) @
      wire encode target [OscBundle (0, 1) (osc_table 0 (map cl_bins (dp_channels p)))]"
    using encode_and_send_wire [OF laws, of encode "or_bin_bundle r1" r1] by (simp_all add: r2_def)
  have run: "osc_frame encode S p r = (case dp_midi p of None \<Rightarrow> r2 | Some midi \<Rightarrow> osc_midi encode S midi r2)"
    unfolding r2_def r1_def by (simp add: osc_frame_def Let_def)
  show ?thesis
  proof (cases "dp_midi p")
    case None
    with run r2 show ?thesis by (simp add: payload_packets_def)
  next
    case (Some midi)
    let ?b = "OscBundle (0, 1) (osc_table 0 (map cl_bins (dp_channels p)))"
    let ?ms = "if midi_enabled then midi_messages midi else []"
    have "payload_packets midi_enabled p = [?b] @ ?ms" using Some by (simp add: payload_packets_def)
    then have "wire encode target (payload_packets midi_enabled p) =
        wire encode target [?b] @ wire encode target ?ms" by (simp only: wire_append)
    with run Some r2 osc_midi_wire [OF laws r2(1), of encode midi] show ?thesis by simp
  qed
qed

lemma osc_run_wire:
  assumes laws: "socket_laws S sent" and "osc_inv n midi_enabled target r"
    "list_all (\<lambda>p. length (dp_channels p) = n \<and> list_all level_ok (dp_channels p)) (osc_payloads es)"
  shows "sent (or_socket (osc_run encode S es r)) = sent (or_socket r) @
    wire encode target (concat (map (payload_packets midi_enabled) (osc_payloads es)))"
  using assms(2,3)
proof (induction es arbitrary: r)
  case Nil
  then show ?case by (simp add: wire_def)
next
  case (Cons e es)
  show ?case
  proof (cases e)
    case (OscPayload p)
    with Cons.prems have p: "length (dp_channels p) = n" "\<forall>c \<in> set (dp_channels p). level_ok c"
      by (simp_all add: list_all_iff)
    from osc_frame_wire [OF laws Cons.prems(1) p, of encode] Cons.IH [of "osc_frame encode S p r"]
      Cons.prems(2) OscPayload
    show ?thesis by simp
  qed (simp_all add: wire_def)
qed

lemma osc_spawn_inv:
  assumes "osc_spawn encode S target n midi_enabled = Inr r"
  shows "osc_inv n midi_enabled target r"
proof -
  have "table_sized n (replicate n (replicate BAND_COUNT 0))" by (simp add: table_sized_def)
  moreover have "\<exists>k. build_midi_packets = build_midi_packets
      \<lparr>mo_steps_packet := OscMessage (lit ''/phase4/midi/steps'') [OscInt k]\<rparr>"
    by (rule exI [of _ 0]) (simp add: build_midi_packets_def)
  ultimately show ?thesis using assms
    by (auto simp: osc_spawn_def prepare_bin_bundle_def and_then_Inr Let_def osc_inv_def
        build_bin_bundle_def build_packets_table split: if_splits prod.splits)
qed

text \<open>
  Claim C39. The datagrams of the sender: although its packets are pre-built and changed in place,
  what goes out for a run of payloads is, in order, for each payload one bundle with the payload's
  own bin values under their addresses, then, with MIDI configured and a snapshot present, the step
  count and the bang of the transport event it carries; a packet the encoder rejects is left out
  and nothing else is, whether or not sends fail.
\<close>

theorem osc_sends_payloads:
  assumes "socket_laws S sent" "osc_spawn encode S target n midi_enabled = Inr r"
    "list_all (\<lambda>p. length (dp_channels p) = n \<and> list_all level_ok (dp_channels p)) (osc_payloads es)"
  shows "sent (or_socket (osc_run encode S es r)) = sent (or_socket r) @
    wire encode target (concat (map (payload_packets midi_enabled) (osc_payloads es)))"
  by (rule osc_run_wire [OF assms(1) osc_spawn_inv [OF assms(2)] assms(3)])

text \<open>A socket that records what it is given, and an encoder that writes only MIDI integers.\<close>

definition log_socket :: "(u8 list \<times> socket_addr) list socket_ops" where
  "log_socket = \<lparr>so_new = (\<lambda>v4. Inr []), so_set_send_buffer_size = (\<lambda>s n. Inr s),
     so_bind = (\<lambda>s a. Inr s), so_send_to = (\<lambda>s bytes addr. (s @ [(bytes, addr)], False))\<rparr>"

fun demo_encode :: encoder where
  "demo_encode (OscMessage addr [OscInt n]) = ([ucast n], True)"
| "demo_encode (OscMessage addr args) = ([], False)"
| "demo_encode (OscBundle t content) = ([of_nat (length content)], True)"

definition demo_target :: socket_addr where
  "demo_target = \<lparr>sa_ip = IpV4 127 0 0 1, sa_port = 7000\<rparr>"

definition demo_payload :: display_payload where
  "demo_payload = \<lparr>dp_channels = [channel_level_default], dp_midi =
     Some \<lparr>ms_transport = Some ''start'', ms_steps = 7\<rparr>\<rparr>"

theorem osc_sends_payloads_witness:
  "\<exists>r. osc_spawn demo_encode log_socket demo_target 1 True = Inr r \<and>
     or_socket (osc_run demo_encode log_socket [OscPayload demo_payload, OscStop] r) =
       [([32], demo_target), ([7], demo_target), ([1], demo_target)]"
proof -
  have laws: "socket_laws log_socket (\<lambda>s. s)" by (simp add: socket_laws_def log_socket_def)
  have len: "length (build_packets 1) = 32" by (simp add: build_packets_def BAND_COUNT_def)
  obtain r where r: "osc_spawn demo_encode log_socket demo_target 1 True = Inr r" "or_socket r = []"
    by (simp add: osc_spawn_def prepare_bin_bundle_def build_bin_bundle_def log_socket_def
        and_then_def OSC_UDP_PAYLOAD_LIMIT_BYTES_def Let_def)
  have "wire demo_encode demo_target (payload_packets True demo_payload) =
      [([32], demo_target), ([7], demo_target), ([1], demo_target)]"
    by (simp add: wire_def payload_packets_def demo_payload_def midi_messages_def bang_def
        channel_level_default_def BAND_COUNT_def)
  with osc_sends_payloads [OF laws r(1), of "[OscPayload demo_payload, OscStop]"] r show ?thesis
    by (auto simp: demo_payload_def)
qed

end
