(* ===== verification/Server.thy ===== *)
theory Server
  imports Headless
begin

text \<open>
  The WebSocket server, \<^verbatim>\<open>src/src/managers/server.rs\<close>: the serialiser task, the accept loop with
  its client slots and the client tasks, on one thread that switches between them where they wait.
  The JSON encoder is a parameter, the WebSocket library is what it reports to a client task; a
  write or flush is a wait of its own, which ends with its outcome within its deadline.
\<close>

section \<open>Definitions\<close>

definition RETAINED_SERIALISED_RECEIVERS :: nat where
  "RETAINED_SERIALISED_RECEIVERS = 1"

definition EMPTY_DISPLAY_PAYLOAD_JSON :: rstring where
  "EMPTY_DISPLAY_PAYLOAD_JSON = lit (''{'' @ [CHR 0x22] @ ''channels'' @ [CHR 0x22] @ '':[]}'')"

definition INBOUND_APPLICATION_MESSAGE_CLOSE_REASON :: string where
  "INBOUND_APPLICATION_MESSAGE_CLOSE_REASON = ''Phase4 does not accept application messages''"

definition has_connected_clients :: "nat \<Rightarrow> bool" where
  "has_connected_clients receiver_count \<longleftrightarrow> RETAINED_SERIALISED_RECEIVERS < receiver_count"

text \<open>
  The handshake callback: \<open>origin\<close> is the \<^verbatim>\<open>Origin\<close> header, None when the client sends none; a
  header that is no text still counts. The result is the rejection's origin text, or acceptance.
\<close>

definition origin_policy :: "bool \<Rightarrow> rstring option option \<Rightarrow> rstring + unit" where
  "origin_policy reject_browser_origin origin =
     (if \<not> reject_browser_origin then Inr ()
      else case origin of
          None \<Rightarrow> Inr ()
        | Some text \<Rightarrow> Inl (unwrap_or text (lit ''<invalid origin header>'')))"

text \<open>
  \<open>serialise_display_payload\<close> with the latch: the new latch, the number of error lines, and the
  text. \<open>to_string\<close> is the JSON encoder.
\<close>

definition payload_finite :: "display_payload \<Rightarrow> bool" where
  "payload_finite p \<longleftrightarrow> list_all level_finite (dp_channels p)"

definition serialise_display_payload ::
  "(display_payload \<Rightarrow> rstring option) \<Rightarrow> display_payload \<Rightarrow> bool \<Rightarrow> bool \<times> nat \<times> rstring option" where
  "serialise_display_payload to_string payload already_logged =
     (if \<not> payload_finite payload then (True, if already_logged then 0 else 1, None)
      else case to_string payload of
          Some json \<Rightarrow> (False, 0, Some json)
        | None \<Rightarrow> (False, 1, None))"

text \<open>A payload is refused when it has a value that is not finite or does not encode.\<close>

definition refused :: "(display_payload \<Rightarrow> rstring option) \<Rightarrow> display_payload \<Rightarrow> bool" where
  "refused J p \<longleftrightarrow> \<not> (payload_finite p \<and> J p \<noteq> None)"

definition initial_serialised_snapshot ::
  "(display_payload \<Rightarrow> rstring option) \<Rightarrow> display_payload \<Rightarrow> bool \<Rightarrow> bool \<times> nat \<times> rstring" where
  "initial_serialised_snapshot to_string payload already_logged =
     (case serialise_display_payload to_string payload already_logged of
        (logged, errors, Some json) \<Rightarrow> (logged, errors, json)
      | (logged, errors, None) \<Rightarrow> (logged, errors + 1, EMPTY_DISPLAY_PAYLOAD_JSON))"

text \<open>
  A client task: its phase, the version of the snapshot it has seen and what it has begun to write. It
  waits for the handshake, in its loop, for a write or flush of the loop, or for the last one. In its
  loop it also waits for the shutdown notice, and the flag says whether it was given one:
  \<^verbatim>\<open>notify_waiters\<close> reaches the tasks that wait for it at that moment and no others, and every turn
  of the loop waits anew.
\<close>

datatype server_message = SText rstring | SClose "string option"

datatype client_phase = Handshaking | Waiting bool | Writing | Closing | Ended

record client =
  cl_addr :: socket_addr
  cl_phase :: client_phase
  cl_seen :: nat
  cl_sent :: "server_message list"
  cl_marks :: "nat list"
  cl_since :: nat
  cl_stale :: bool

datatype incoming = Ping | Pong | RawFrame | CloseMsg | TextMsg | BinaryMsg | ReadError | StreamEnd

text \<open>
  What wakes a client task; the flag is the outcome of the write or flush it waits for. The fields
  \<open>cl_marks\<close>, \<open>cl_since\<close> and \<open>cl_stale\<close> are not in the code: they record which published payload a
  text came from.
\<close>

datatype client_input =
    HandshakeRequest "rstring option option"
  | HandshakeFailed
  | Incoming incoming
  | SnapshotChanged
  | ServerShutdown
  | WriteDone bool

definition client_write :: "server_message \<Rightarrow> client \<Rightarrow> client" where
  "client_write msg c = c\<lparr>cl_sent := cl_sent c @ [msg]\<rparr>"

definition client_end :: "client \<Rightarrow> client" where
  "client_end c = c\<lparr>cl_phase := Ended\<rparr>"

text \<open>Sending the current snapshot, and the close frame that ends the task.\<close>

definition client_snapshot :: "rstring \<Rightarrow> nat \<Rightarrow> nat \<Rightarrow> client \<Rightarrow> client" where
  "client_snapshot json version mark c =
     (client_write (SText json) c)\<lparr>cl_seen := version, cl_marks := cl_marks c @ [mark], cl_phase := Writing\<rparr>"

definition client_close :: "string option \<Rightarrow> client \<Rightarrow> client" where
  "client_close reason c = (client_write (SClose reason) c)\<lparr>cl_phase := Closing\<rparr>"

fun client_incoming :: "incoming \<Rightarrow> client \<Rightarrow> client" where
  "client_incoming Ping c = c\<lparr>cl_phase := Writing\<rparr>"
| "client_incoming Pong c = c\<lparr>cl_phase := Waiting False\<rparr>"
| "client_incoming RawFrame c = c\<lparr>cl_phase := Waiting False\<rparr>"
| "client_incoming CloseMsg c = c\<lparr>cl_phase := Closing\<rparr>"
| "client_incoming TextMsg c = client_close (Some INBOUND_APPLICATION_MESSAGE_CLOSE_REASON) c"
| "client_incoming BinaryMsg c = client_close (Some INBOUND_APPLICATION_MESSAGE_CLOSE_REASON) c"
| "client_incoming ReadError c = client_end c"
| "client_incoming StreamEnd c = client_end c"

text \<open>
  \<open>handle_client\<close>, one wake-up at a time. \<open>open_tx\<close> says whether the serialiser still holds the
  snapshot channel. A write that is done takes the task back to its loop, unless it failed or was the
  last one.
\<close>

fun client_turn ::
  "bool \<Rightarrow> rstring \<Rightarrow> nat \<Rightarrow> nat \<Rightarrow> bool \<Rightarrow> client_input \<Rightarrow> client \<Rightarrow> client" where
  "client_turn no_browser_origin json version mark open_tx (HandshakeRequest origin) c =
     (case origin_policy no_browser_origin origin of
        Inl e \<Rightarrow> client_end c
      | Inr u \<Rightarrow> client_snapshot json version mark c)"
| "client_turn no_browser_origin json version mark open_tx HandshakeFailed c = client_end c"
| "client_turn no_browser_origin json version mark open_tx (Incoming m) c = client_incoming m c"
| "client_turn no_browser_origin json version mark open_tx SnapshotChanged c =
     (if cl_seen c = version \<and> \<not> open_tx then client_close None c
      else client_snapshot json version mark c)"
| "client_turn no_browser_origin json version mark open_tx ServerShutdown c = client_close None c"
| "client_turn no_browser_origin json version mark open_tx (WriteDone ok) c =
     (if cl_phase c = Writing \<and> ok then c\<lparr>cl_phase := Waiting False\<rparr> else client_end c)"

text \<open>\<^verbatim>\<open>notify_waiters\<close>, as one task sees it.\<close>

definition notify_client :: "client \<Rightarrow> client" where
  "notify_client c = (if cl_phase c = Waiting False then c\<lparr>cl_phase := Waiting True\<rparr> else c)"

definition active :: "client list \<Rightarrow> nat" where
  "active cs = length (filter (\<lambda>c. cl_phase c \<noteq> Ended) cs)"

text \<open>
  The server: the display channel with its current payload, the snapshot channel with its text and
  version, the free client slots, and the client the accept loop is admitting. \<open>sv_hist\<close> lists the
  published payloads and \<open>sv_mark\<close> counts up to the one the snapshot came from, zero for the fallback.
  \<open>sv_deadline\<close> says that the time the server gives its tasks after the end of the run is over, and
  \<open>sv_finished\<close> that it has returned.
\<close>

datatype accept_phase = Idle | Refreshing socket_addr nat | Refreshed socket_addr nat bool

record server =
  sv_hist :: "display_payload list"
  sv_unseen :: bool
  sv_mapper :: bool
  sv_serialiser :: bool
  sv_json :: rstring
  sv_version :: nat
  sv_mark :: nat
  sv_failure_logged :: bool
  sv_errors :: nat
  sv_free_slots :: nat
  sv_accepting :: accept_phase
  sv_clients :: "client list"
  sv_running :: bool
  sv_deadline :: bool
  sv_finished :: bool

definition server_start ::
  "(display_payload \<Rightarrow> rstring option) \<Rightarrow> nat \<Rightarrow> display_payload \<Rightarrow> bool \<Rightarrow> server" where
  "server_start to_string max_clients payload unseen =
     (case initial_serialised_snapshot to_string payload False of (logged, errors, json) \<Rightarrow>
        \<lparr>sv_hist = [payload], sv_unseen = unseen, sv_mapper = True, sv_serialiser = True,
         sv_json = json, sv_version = 0,
         sv_mark = (if refused to_string payload then 0 else 1),
         sv_failure_logged = logged, sv_errors = errors, sv_free_slots = max_clients,
         sv_accepting = Idle, sv_clients = [], sv_running = True, sv_deadline = False,
         sv_finished = False\<rparr>)"

definition receiver_count :: "server \<Rightarrow> nat" where
  "receiver_count s = 1 + active (sv_clients s)"

text \<open>A turn of the serialiser; \<open>refresh\<close> says that it answers a request of the accept loop.\<close>

definition serialiser_turn ::
  "(display_payload \<Rightarrow> rstring option) \<Rightarrow> bool \<Rightarrow> server \<Rightarrow> server" where
  "serialiser_turn to_string refresh s =
     (if \<not> refresh \<and> \<not> has_connected_clients (receiver_count s) then s\<lparr>sv_unseen := False\<rparr>
      else case serialise_display_payload to_string (last (sv_hist s)) (sv_failure_logged s) of
          (logged, errors, result) \<Rightarrow>
            let s = s\<lparr>sv_unseen := False, sv_failure_logged := logged, sv_errors := sv_errors s + errors\<rparr>
            in case result of
                None \<Rightarrow> s
              | Some json \<Rightarrow>
                  let s = s\<lparr>sv_mark := length (sv_hist s)\<rparr> in
                  if \<not> refresh \<or> sv_json s \<noteq> json
                  then s\<lparr>sv_json := json, sv_version := sv_version s + 1\<rparr> else s)"

text \<open>
  The accept loop: an accepted connection takes a slot or is dropped; the snapshot is refreshed; the
  client's task starts.
\<close>

definition accept_client :: "socket_addr \<Rightarrow> server \<Rightarrow> server" where
  "accept_client addr s =
     (if sv_free_slots s = 0 then s
      else s\<lparr>sv_free_slots := sv_free_slots s - 1, sv_accepting := Refreshing addr (length (sv_hist s))\<rparr>)"

definition refresh_snapshot ::
  "(display_payload \<Rightarrow> rstring option) \<Rightarrow> socket_addr \<Rightarrow> nat \<Rightarrow> server \<Rightarrow> server" where
  "refresh_snapshot to_string addr since s =
     (if sv_serialiser s then
        let s' = serialiser_turn to_string True s in
        s'\<lparr>sv_accepting := Refreshed addr since
          (refused to_string (last (sv_hist s)))\<rparr>
      else s\<lparr>sv_accepting := Refreshed addr since True\<rparr>)"

definition spawn_client :: "socket_addr \<Rightarrow> nat \<Rightarrow> bool \<Rightarrow> server \<Rightarrow> server" where
  "spawn_client addr since stale s =
     s\<lparr>sv_accepting := Idle, sv_clients := sv_clients s @
       [\<lparr>cl_addr = addr, cl_phase = Handshaking, cl_seen = 0, cl_sent = [], cl_marks = [],
         cl_since = since, cl_stale = stale\<rparr>]\<rparr>"

text \<open>A client task that ends gives its slot back.\<close>

definition client_step :: "bool \<Rightarrow> nat \<Rightarrow> client_input \<Rightarrow> server \<Rightarrow> server" where
  "client_step no_browser_origin i input s =
     (let c = client_turn no_browser_origin (sv_json s) (sv_version s) (sv_mark s) (sv_serialiser s)
            input (sv_clients s ! i);
          s = s\<lparr>sv_clients := (sv_clients s)[i := c]\<rparr>
      in if cl_phase c = Ended then s\<lparr>sv_free_slots := sv_free_slots s + 1\<rparr> else s)"

text \<open>
  Which wake-ups a client task can get in its phase. The notice is asked for first, so it hides the
  others.
\<close>

fun input_enabled :: "server \<Rightarrow> client \<Rightarrow> client_input \<Rightarrow> bool" where
  "input_enabled s c (HandshakeRequest origin) = (cl_phase c = Handshaking)"
| "input_enabled s c HandshakeFailed = (cl_phase c = Handshaking)"
| "input_enabled s c (Incoming m) = (cl_phase c = Waiting False)"
| "input_enabled s c SnapshotChanged =
     (cl_phase c = Waiting False \<and> (cl_seen c \<noteq> sv_version s \<or> \<not> sv_serialiser s))"
| "input_enabled s c ServerShutdown = (cl_phase c = Waiting True)"
| "input_enabled s c (WriteDone ok) = (cl_phase c = Writing \<or> cl_phase c = Closing)"

text \<open>
  The end of the server: the loop ends and gives the notice; the tasks are joined until all have ended,
  the serialiser included, or the time is over; those that are left are dropped where they are.
\<close>

definition server_stop :: "server \<Rightarrow> server" where
  "server_stop s = s\<lparr>sv_running := False, sv_clients := map notify_client (sv_clients s)\<rparr>"

definition server_finish :: "server \<Rightarrow> server" where
  "server_finish s = s\<lparr>sv_finished := True, sv_serialiser := False,
     sv_free_slots := sv_free_slots s + active (sv_clients s), sv_clients := map client_end (sv_clients s)\<rparr>"

definition tasks_joined :: "server \<Rightarrow> bool" where
  "tasks_joined s \<longleftrightarrow> active (sv_clients s) = 0 \<and> \<not> sv_serialiser s"

text \<open>
  The interleavings: the mapper publishes or goes away, a task runs to its next wait, the run ends, the
  time for its tasks passes.
\<close>

inductive server_step ::
  "(display_payload \<Rightarrow> rstring option) \<Rightarrow> bool \<Rightarrow> server \<Rightarrow> server \<Rightarrow> bool"
  for to_string no_browser_origin where
  publish: "sv_mapper s \<Longrightarrow> server_step to_string no_browser_origin s
     (s\<lparr>sv_hist := sv_hist s @ [p], sv_unseen := True\<rparr>)"
| mapper_gone: "server_step to_string no_browser_origin s (s\<lparr>sv_mapper := False\<rparr>)"
| display_changed: "sv_serialiser s \<Longrightarrow> sv_unseen s \<Longrightarrow>
     server_step to_string no_browser_origin s (serialiser_turn to_string False s)"
| display_closed: "sv_serialiser s \<Longrightarrow> \<not> sv_mapper s \<Longrightarrow> \<not> sv_unseen s \<Longrightarrow>
     server_step to_string no_browser_origin s (s\<lparr>sv_serialiser := False\<rparr>)"
| accept: "sv_running s \<Longrightarrow> sv_accepting s = Idle \<Longrightarrow>
     server_step to_string no_browser_origin s (accept_client addr s)"
| refresh: "sv_accepting s = Refreshing addr since \<Longrightarrow>
     server_step to_string no_browser_origin s (refresh_snapshot to_string addr since s)"
| spawn: "sv_accepting s = Refreshed addr since stale \<Longrightarrow>
     server_step to_string no_browser_origin s (spawn_client addr since stale s)"
| client: "i < length (sv_clients s) \<Longrightarrow> input_enabled s (sv_clients s ! i) input \<Longrightarrow>
     server_step to_string no_browser_origin s (client_step no_browser_origin i input s)"
| stop: "sv_running s \<Longrightarrow> sv_accepting s = Idle \<Longrightarrow>
     server_step to_string no_browser_origin s (server_stop s)"
| deadline: "\<not> sv_running s \<Longrightarrow>
     server_step to_string no_browser_origin s (s\<lparr>sv_deadline := True\<rparr>)"
| finish: "\<not> sv_running s \<Longrightarrow> \<not> sv_finished s \<Longrightarrow> sv_deadline s \<or> tasks_joined s \<Longrightarrow>
     server_step to_string no_browser_origin s (server_finish s)"

text \<open>
  The start of the server, before its thread: the listener is bound, made non-blocking and asked for
  the address it got. The operations of the listener are parameters.
\<close>

record 'l listener_ops =
  ln_bind :: "socket_addr \<Rightarrow> any_error + 'l"
  ln_set_nonblocking :: "'l \<Rightarrow> any_error + 'l"
  ln_local_addr :: "'l \<Rightarrow> any_error + socket_addr"

definition server_spawn ::
  "'l listener_ops \<Rightarrow> (socket_addr \<Rightarrow> rstring) \<Rightarrow> socket_addr \<Rightarrow> any_error + socket_addr" where
  "server_spawn L show_addr address =
     and_then (with_context_text (lit ''Failed to bind WebSocket server to '' @ show_addr address)
         (ln_bind L address)) (\<lambda>listener.
     and_then (with_context ''Failed to set listener to non-blocking'' (ln_set_nonblocking L listener))
         (\<lambda>listener.
       with_context ''Failed to read the bound WebSocket listener address'' (ln_local_addr L listener)))"

section \<open>The invariant\<close>

text \<open>The text \<open>t\<close> shows the published payload number \<open>k\<close>, or is the fallback for \<open>k = 0\<close>.\<close>

definition mark_text ::
  "(display_payload \<Rightarrow> rstring option) \<Rightarrow> display_payload list \<Rightarrow> nat \<Rightarrow> rstring \<Rightarrow> bool" where
  "mark_text J hist k t \<longleftrightarrow>
     (if k = 0 then t = EMPTY_DISPLAY_PAYLOAD_JSON
      else k \<le> length hist \<and> payload_finite (hist ! (k - 1)) \<and> J (hist ! (k - 1)) = Some t)"

fun message_text :: "server_message \<Rightarrow> rstring list" where
  "message_text (SText t) = [t]"
| "message_text (SClose r) = []"

definition client_texts :: "client \<Rightarrow> rstring list" where
  "client_texts c = concat (map message_text (cl_sent c))"

definition stale_reason ::
  "(display_payload \<Rightarrow> rstring option) \<Rightarrow> display_payload list \<Rightarrow> bool \<Rightarrow> nat \<Rightarrow> bool" where
  "stale_reason J hist serialiser since \<longleftrightarrow>
     (\<exists>p \<in> set (drop (since - 1) hist). refused J p) \<or> \<not> serialiser"

text \<open>
  The invariant of a client task: its texts show payloads in the order of their publication, the
  first of them not older than the one current at its admission unless a refresh was refused, and a
  close frame is the last thing it writes.
\<close>

definition client_ok ::
  "(display_payload \<Rightarrow> rstring option) \<Rightarrow> display_payload list \<Rightarrow> nat \<Rightarrow> bool \<Rightarrow> client \<Rightarrow> bool" where
  "client_ok J hist mark serialiser c \<longleftrightarrow>
     list_all2 (mark_text J hist) (cl_marks c) (client_texts c) \<and> sorted (cl_marks c) \<and>
     (\<forall>k \<in> set (cl_marks c). k \<le> mark) \<and>
     (if cl_stale c then stale_reason J hist serialiser (cl_since c)
      else cl_since c \<le> (if cl_marks c = [] then mark else hd (cl_marks c))) \<and>
     (cl_phase c = Handshaking \<longrightarrow> cl_sent c = []) \<and>
     (\<exists>ts. cl_sent c = map SText ts \<or>
       cl_phase c \<in> {Closing, Ended} \<and> (\<exists>r. cl_sent c = map SText ts @ [SClose r]))"

fun accept_ok ::
  "(display_payload \<Rightarrow> rstring option) \<Rightarrow> display_payload list \<Rightarrow> nat \<Rightarrow> bool \<Rightarrow> accept_phase \<Rightarrow> bool" where
  "accept_ok J hist mark serialiser Idle = True"
| "accept_ok J hist mark serialiser (Refreshing a since) = (1 \<le> since \<and> since \<le> length hist)"
| "accept_ok J hist mark serialiser (Refreshed a since stale) =
     (if stale then stale_reason J hist serialiser since else since \<le> mark)"

definition pending :: "accept_phase \<Rightarrow> nat" where
  "pending a = (if a = Idle then 0 else 1)"

definition server_inv :: "(display_payload \<Rightarrow> rstring option) \<Rightarrow> nat \<Rightarrow> server \<Rightarrow> bool" where
  "server_inv J n s \<longleftrightarrow> sv_hist s \<noteq> [] \<and> mark_text J (sv_hist s) (sv_mark s) (sv_json s) \<and>
     list_all (client_ok J (sv_hist s) (sv_mark s) (sv_serialiser s)) (sv_clients s) \<and>
     accept_ok J (sv_hist s) (sv_mark s) (sv_serialiser s) (sv_accepting s) \<and>
     sv_free_slots s + active (sv_clients s) + pending (sv_accepting s) = n"

lemma mark_text_append: "mark_text J hist k t \<Longrightarrow> mark_text J (hist @ ps) k t"
  by (auto simp: mark_text_def nth_append split: if_splits)

lemma mark_text_bound: "mark_text J hist k t \<Longrightarrow> k \<le> length hist"
  by (auto simp: mark_text_def split: if_splits)

lemma stale_reason_mono:
  "stale_reason J hist ser since \<Longrightarrow> ser' \<longrightarrow> ser \<Longrightarrow> stale_reason J (hist @ ps) ser' since"
  by (auto simp: stale_reason_def)

lemma client_ok_mono:
  assumes "client_ok J hist mark ser c" "mark \<le> mark'" "ser' \<longrightarrow> ser"
  shows "client_ok J (hist @ ps) mark' ser' c"
proof -
  have "list_all2 (mark_text J (hist @ ps)) (cl_marks c) (client_texts c)"
    using assms(1) unfolding client_ok_def by (auto intro: list_all2_mono mark_text_append)
  with assms show ?thesis unfolding client_ok_def
    by (auto intro: stale_reason_mono le_trans split: if_splits)
qed

lemma accept_ok_mono:
  "accept_ok J hist mark ser a \<Longrightarrow> mark \<le> mark' \<Longrightarrow> ser' \<longrightarrow> ser \<Longrightarrow> accept_ok J (hist @ ps) mark' ser' a"
  by (cases a) (auto intro: stale_reason_mono split: if_splits)

lemma server_inv_advance:
  assumes "server_inv J n s" "mark_text J (sv_hist s @ ps) (sv_mark s') (sv_json s')"
    "sv_hist s' = sv_hist s @ ps" "sv_mark s \<le> sv_mark s'" "sv_serialiser s' \<longrightarrow> sv_serialiser s"
    "sv_clients s' = sv_clients s" "sv_accepting s' = sv_accepting s"
    "sv_free_slots s' = sv_free_slots s"
  shows "server_inv J n s'"
  using assms unfolding server_inv_def
  by (auto simp: list_all_iff intro: client_ok_mono accept_ok_mono)

text \<open>A turn of the serialiser keeps the invariant and, on a good payload, shows the newest one.\<close>

lemma serialise_result:
  "serialise_display_payload J p logged = (l, e, r) \<Longrightarrow> r = (if refused J p then None else J p)"
  by (auto simp: serialise_display_payload_def refused_def split: if_splits option.splits)

lemma serialiser_turn_inv:
  assumes "server_inv J n s"
  shows "server_inv J n (serialiser_turn J refresh s) \<and>
    sv_hist (serialiser_turn J refresh s) = sv_hist s \<and>
    sv_serialiser (serialiser_turn J refresh s) = sv_serialiser s \<and>
    sv_accepting (serialiser_turn J refresh s) = sv_accepting s \<and>
    sv_mark s \<le> sv_mark (serialiser_turn J refresh s) \<and>
    (refresh \<and> \<not> refused J (last (sv_hist s)) \<longrightarrow>
       sv_mark (serialiser_turn J refresh s) = length (sv_hist s))"
proof -
  let ?s = "serialiser_turn J refresh s"
  have hist: "sv_hist s \<noteq> []" and mt: "mark_text J (sv_hist s) (sv_mark s) (sv_json s)"
    using assms by (simp_all add: server_inv_def)
  obtain l e r where ser: "serialise_display_payload J (last (sv_hist s)) (sv_failure_logged s) = (l, e, r)"
    by (cases "serialise_display_payload J (last (sv_hist s)) (sv_failure_logged s)")
  note r = serialise_result [OF ser]
  have new: "mark_text J (sv_hist s) (length (sv_hist s)) json" if "r = Some json" for json
    using that hist r
    by (auto simp: mark_text_def refused_def last_conv_nth split: if_splits)
  have keeps: "sv_hist ?s = sv_hist s" "sv_serialiser ?s = sv_serialiser s"
    "sv_accepting ?s = sv_accepting s" "sv_clients ?s = sv_clients s" "sv_free_slots ?s = sv_free_slots s"
    by (simp_all add: serialiser_turn_def ser Let_def split: option.split)
  have mark: "sv_mark s \<le> sv_mark ?s"
    using mark_text_bound [OF mt] by (simp add: serialiser_turn_def ser Let_def split: option.split)
  have mtext: "mark_text J (sv_hist s) (sv_mark ?s) (sv_json ?s)"
    using mt new by (auto simp: serialiser_turn_def ser Let_def split: option.split)
  have "server_inv J n ?s"
    using server_inv_advance [OF assms, of "[]" ?s] keeps mark mtext by simp
  moreover have "refresh \<and> \<not> refused J (last (sv_hist s)) \<longrightarrow> sv_mark ?s = length (sv_hist s)"
    using r by (auto simp: serialiser_turn_def ser Let_def refused_def split: option.split)
  ultimately show ?thesis using keeps mark by blast
qed

lemma client_okE:
  assumes "client_ok J hist mark ser c" "cl_phase c \<notin> {Closing, Ended}"
  obtains ts where "cl_sent c = map SText ts" "list_all2 (mark_text J hist) (cl_marks c) ts"
    "sorted (cl_marks c)" "\<forall>k \<in> set (cl_marks c). k \<le> mark"
    "if cl_stale c then stale_reason J hist ser (cl_since c)
     else cl_since c \<le> (if cl_marks c = [] then mark else hd (cl_marks c))"
    "cl_phase c = Handshaking \<longrightarrow> cl_sent c = []"
proof -
  from assms obtain ts where ts: "cl_sent c = map SText ts" by (auto simp: client_ok_def)
  then have "client_texts c = ts" by (simp add: client_texts_def comp_def)
  with assms(1) ts that show thesis unfolding client_ok_def by metis
qed

lemma client_end_ok: "client_ok J hist mark ser c \<Longrightarrow> client_ok J hist mark ser (client_end c)"
  unfolding client_ok_def client_end_def client_texts_def by auto

lemma client_phase_ok:
  assumes "client_ok J hist mark ser c" "p \<noteq> Handshaking" "cl_phase c \<in> {Closing, Ended} \<longrightarrow> p \<in> {Closing, Ended}"
  shows "client_ok J hist mark ser (c\<lparr>cl_phase := p\<rparr>)"
  using assms unfolding client_ok_def client_texts_def by auto

lemma client_close_ok:
  assumes "client_ok J hist mark ser c" "cl_phase c \<notin> {Closing, Ended}"
  shows "client_ok J hist mark ser (client_close r c)"
  using assms
  by (rule client_okE) (auto simp: client_ok_def client_close_def client_write_def client_texts_def comp_def)

lemma client_snapshot_ok:
  assumes "client_ok J hist mark ser c" "cl_phase c \<notin> {Closing, Ended}" "mark_text J hist mark json"
  shows "client_ok J hist mark ser (client_snapshot json version mark c)"
proof -
  from assms(1,2) obtain ts where c: "cl_sent c = map SText ts"
    "list_all2 (mark_text J hist) (cl_marks c) ts" "sorted (cl_marks c)" "\<forall>k \<in> set (cl_marks c). k \<le> mark"
    "if cl_stale c then stale_reason J hist ser (cl_since c)
     else cl_since c \<le> (if cl_marks c = [] then mark else hd (cl_marks c))"
    by (rule client_okE)
  define c' where "c' = client_snapshot json version mark c"
  note c'_def = c'_def client_snapshot_def client_write_def
  have sent: "cl_sent c' = map SText (ts @ [json])" by (simp add: c'_def c(1))
  then have ctexts: "client_texts c' = ts @ [json]" by (simp add: client_texts_def comp_def)
  have "\<exists>ts. cl_sent c' = map SText ts" using sent by blast
  moreover have "list_all2 (mark_text J hist) (cl_marks c') (client_texts c')"
    using c(2) assms(3) by (simp add: ctexts) (simp add: c'_def list_all2_appendI)
  moreover have "cl_phase c' = Writing" "sorted (cl_marks c')" "\<forall>k \<in> set (cl_marks c'). k \<le> mark"
    "if cl_stale c' then stale_reason J hist ser (cl_since c')
     else cl_since c' \<le> (if cl_marks c' = [] then mark else hd (cl_marks c'))"
    using c(3,4,5) by (auto simp: c'_def sorted_append split: if_splits)
  ultimately have "client_ok J hist mark ser c'" unfolding client_ok_def by simp
  then show ?thesis by (simp add: c'_def)
qed

lemma client_incoming_ok:
  "client_ok J hist mark ser c \<Longrightarrow> cl_phase c = Waiting False \<Longrightarrow>
   client_ok J hist mark ser (client_incoming m c)"
  by (cases m) (simp_all add: client_close_ok client_end_ok client_phase_ok)

lemma client_turn_ok:
  assumes "client_ok J hist mark ser c" "input_enabled s c input" "mark_text J hist mark json"
  shows "client_ok J hist mark ser (client_turn nb json version mark open_tx input c) \<and> cl_phase c \<noteq> Ended"
  using assms
  by (cases input) (auto simp: client_snapshot_ok client_end_ok client_incoming_ok client_close_ok client_phase_ok
      split: sum.split)

lemma notify_client_ok:
  "client_ok J hist mark ser c \<Longrightarrow> client_ok J hist mark ser (notify_client c)"
  by (simp add: notify_client_def client_phase_ok)

lemma active_update:
  assumes "i < length cs" "cl_phase (cs ! i) \<noteq> Ended"
  shows "active (cs[i := c]) + (if cl_phase c = Ended then 1 else 0) = active cs"
proof -
  have cs: "cs = take i cs @ cs ! i # drop (Suc i) cs" using assms(1) by (rule id_take_nth_drop)
  have upd: "cs[i := c] = take i cs @ c # drop (Suc i) cs" using assms(1) by (rule upd_conv_take_nth_drop)
  have "active (cs[i := c]) = active (take i cs) + active [c] + active (drop (Suc i) cs)"
    unfolding upd active_def by simp
  moreover have "active cs = active (take i cs) + active [cs ! i] + active (drop (Suc i) cs)"
    by (subst cs) (simp add: active_def)
  ultimately show ?thesis using assms(2) by (simp add: active_def)
qed

lemma client_step_inv:
  assumes "server_inv J n s" "i < length (sv_clients s)" "input_enabled s (sv_clients s ! i) input"
  shows "server_inv J n (client_step nb i input s)"
proof -
  define c where "c = client_turn nb (sv_json s) (sv_version s) (sv_mark s) (sv_serialiser s)
    input (sv_clients s ! i)"
  have all: "list_all (client_ok J (sv_hist s) (sv_mark s) (sv_serialiser s)) (sv_clients s)"
    and mt: "mark_text J (sv_hist s) (sv_mark s) (sv_json s)"
    using assms(1) by (simp_all add: server_inv_def)
  then have "client_ok J (sv_hist s) (sv_mark s) (sv_serialiser s) (sv_clients s ! i)"
    using assms(2) by (simp add: list_all_length)
  from client_turn_ok [OF this assms(3) mt] have c: "client_ok J (sv_hist s) (sv_mark s) (sv_serialiser s) c"
    "cl_phase (sv_clients s ! i) \<noteq> Ended" by (simp_all add: c_def)
  have "list_all (client_ok J (sv_hist s) (sv_mark s) (sv_serialiser s)) ((sv_clients s)[i := c])"
    using all c(1) set_update_subset_insert [of "sv_clients s" i c] by (auto simp: list_all_iff)
  moreover note active_update [OF assms(2) c(2), of c]
  ultimately show ?thesis
    using assms(1) by (auto simp: client_step_def server_inv_def Let_def c_def [symmetric])
qed

lemma active_notify [simp]: "active (map notify_client cs) = active cs"
  by (induction cs) (auto simp: active_def notify_client_def)

lemma active_end [simp]: "active (map client_end cs) = 0"
  by (simp add: active_def client_end_def)

lemma server_start_inv: "server_inv J n (server_start J n p unseen)"
  by (auto simp: server_start_def server_inv_def initial_serialised_snapshot_def pending_def active_def
      serialise_display_payload_def mark_text_def refused_def split: option.splits)

lemma server_step_inv:
  assumes "server_inv J n s" "server_step J nb s t"
  shows "server_inv J n t"
  using assms(2)
proof cases
  case (publish p)
  then show ?thesis
    using assms(1) server_inv_advance [OF assms(1), of "[p]" t] mark_text_append
    by (simp add: server_inv_def)
next
  case mapper_gone
  then show ?thesis using assms(1) by (simp add: server_inv_def)
next
  case display_changed
  then show ?thesis using serialiser_turn_inv [OF assms(1)] by simp
next
  case display_closed
  then show ?thesis
    using assms(1) server_inv_advance [OF assms(1), of "[]" t] by (simp add: server_inv_def)
next
  case (accept addr)
  then show ?thesis
    using assms(1) by (auto simp: accept_client_def server_inv_def pending_def Suc_le_eq)
next
  case (refresh addr since)
  have since: "1 \<le> since" "since \<le> length (sv_hist s)" and hist: "sv_hist s \<noteq> []"
    using assms(1) refresh(2) by (simp_all add: server_inv_def)
  let ?p = "last (sv_hist s)"
  have last: "?p \<in> set (drop (since - 1) (sv_hist s))"
  proof -
    have "drop (since - 1) (sv_hist s) \<noteq> []" using since hist by simp
    moreover from this have "last (drop (since - 1) (sv_hist s)) = ?p" by simp
    ultimately show ?thesis by (metis last_in_set)
  qed
  show ?thesis
  proof (cases "sv_serialiser s")
    case True
    define s' where "s' = serialiser_turn J True s"
    from serialiser_turn_inv [OF assms(1), of True] have s':
      "server_inv J n s'" "sv_hist s' = sv_hist s" "sv_accepting s' = Refreshing addr since"
      "\<not> refused J ?p \<Longrightarrow> sv_mark s' = length (sv_hist s)"
      using refresh(2) by (auto simp: s'_def)
    have "accept_ok J (sv_hist s') (sv_mark s') (sv_serialiser s') (Refreshed addr since (refused J ?p))"
      using s'(2,4) since last by (auto simp: stale_reason_def)
    with s'(1,3) True refresh(1) show ?thesis
      by (simp add: refresh_snapshot_def Let_def s'_def [symmetric] server_inv_def pending_def)
  next
    case False
    with assms(1) refresh show ?thesis
      by (auto simp: refresh_snapshot_def server_inv_def stale_reason_def pending_def)
  qed
next
  case (spawn addr since stale)
  then show ?thesis
    using assms(1)
    by (auto simp: spawn_client_def server_inv_def client_ok_def client_texts_def pending_def active_def)
next
  case (client i input)
  then show ?thesis using client_step_inv [OF assms(1)] by simp
next
  case stop
  then show ?thesis using assms(1)
    by (auto simp: server_inv_def server_stop_def list_all_iff intro: notify_client_ok)
next
  case deadline
  then show ?thesis using assms(1) by (simp add: server_inv_def)
next
  case finish
  have "client_ok J (sv_hist s) (sv_mark s) False (client_end c)" if "c \<in> set (sv_clients s)" for c
    using assms(1) that client_ok_mono [of J "sv_hist s" "sv_mark s" "sv_serialiser s" c "sv_mark s" False "[]"]
    by (auto simp: server_inv_def list_all_iff intro: client_end_ok)
  moreover have "accept_ok J (sv_hist s) (sv_mark s) False (sv_accepting s)"
    using assms(1) accept_ok_mono [of J "sv_hist s" "sv_mark s" "sv_serialiser s" _ "sv_mark s" False "[]"]
    by (simp add: server_inv_def)
  ultimately show ?thesis using assms(1) finish(1)
    by (simp add: server_inv_def server_finish_def list_all_iff)
qed

interpretation srv: transition_system "\<lambda>s. \<exists>p unseen. s = server_start J n p unseen" "server_step J nb"
  "server_inv J n" for J n nb
  by unfold_locales (auto intro: server_start_inv server_step_inv)

section \<open>Properties\<close>

definition server_reaches ::
  "(display_payload \<Rightarrow> rstring option) \<Rightarrow> bool \<Rightarrow> nat \<Rightarrow> server \<Rightarrow> bool" where
  "server_reaches J nb n s \<longleftrightarrow>
     reach (\<lambda>s. \<exists>p unseen. s = server_start J n p unseen) (server_step J nb) s"

lemma server_reaches_inv: "server_reaches J nb n s \<Longrightarrow> server_inv J n s"
  unfolding server_reaches_def by (rule srv.reachable_inv)


text \<open>
  Claim C15. What a client sees, whatever the interleaving of the mapper, the serialiser, the accept
  loop and the other clients: each text is the JSON of a finite published payload (or the empty
  fallback), the texts never go back in time, and unless the serialiser refused a payload published
  since, or had ended, the first text is not older than the payload that was current when the client
  was admitted, although nothing is encoded while nobody is connected; a close frame is the last
  thing a client is sent.
\<close>

theorem server_snapshots_in_order:
  assumes "server_reaches J nb n s" "c \<in> set (sv_clients s)"
  shows "list_all2 (mark_text J (sv_hist s)) (cl_marks c) (client_texts c) \<and> sorted (cl_marks c) \<and>
    (if cl_stale c then stale_reason J (sv_hist s) (sv_serialiser s) (cl_since c)
     else cl_marks c = [] \<or> cl_since c \<le> hd (cl_marks c)) \<and>
    (\<exists>ts. cl_sent c = map SText ts \<or>
       (\<exists>r. cl_phase c \<in> {Closing, Ended} \<and> cl_sent c = map SText ts @ [SClose r]))"
proof -
  have "client_ok J (sv_hist s) (sv_mark s) (sv_serialiser s) c"
    using server_reaches_inv [OF assms(1)] assms(2) by (auto simp: server_inv_def list_all_iff)
  then show ?thesis unfolding client_ok_def by (auto split: if_splits)
qed

text \<open>
  One payload is published before the first client connects and is skipped by the serialiser; the
  client still gets it, because its admission refreshes the snapshot.
\<close>

definition demo_json :: "display_payload \<Rightarrow> rstring option" where
  "demo_json p = Some (show_nat (length (dp_channels p)))"

definition late_server :: server where
  "late_server = client_step False 0 (HandshakeRequest None)
     (spawn_client \<lparr>sa_ip = IpV4 127 0 0 1, sa_port = 5\<rparr> 2 False
       (refresh_snapshot demo_json \<lparr>sa_ip = IpV4 127 0 0 1, sa_port = 5\<rparr> 2
         (accept_client \<lparr>sa_ip = IpV4 127 0 0 1, sa_port = 5\<rparr>
           (serialiser_turn demo_json False
             ((server_start demo_json 1 display_payload_default False)
               \<lparr>sv_hist := [display_payload_default, display_payload_new 3], sv_unseen := True\<rparr>)))))"

lemmas server_defs = server_start_def initial_serialised_snapshot_def serialise_display_payload_def
  serialiser_turn_def accept_client_def refresh_snapshot_def spawn_client_def client_step_def
  client_snapshot_def client_write_def client_end_def origin_policy_def receiver_count_def active_def
  has_connected_clients_def RETAINED_SERIALISED_RECEIVERS_def refused_def

lemma demo_finite: "payload_finite display_payload_default" "payload_finite (display_payload_new 3)"
proof -
  have "level_finite channel_level_default"
    by (simp add: level_finite_def channel_level_default_def list_all_iff f32_is_finite_def
        fl_is_finite_def f32_unpack_def)
  then show "payload_finite display_payload_default" "payload_finite (display_payload_new 3)"
    by (simp_all add: payload_finite_def display_payload_default_def display_payload_new_def list_all_iff)
qed

lemma late_server_reaches: "server_reaches demo_json False 1 late_server"
proof -
  let ?a = "\<lparr>sa_ip = IpV4 127 0 0 1, sa_port = 5\<rparr>"
  let ?step = "server_step demo_json False"
  define s0 where "s0 = server_start demo_json 1 display_payload_default False"
  define s1 where "s1 = s0\<lparr>sv_hist := sv_hist s0 @ [display_payload_new 3], sv_unseen := True\<rparr>"
  define s2 where "s2 = serialiser_turn demo_json False s1"
  define s3 where "s3 = accept_client ?a s2"
  define s4 where "s4 = refresh_snapshot demo_json ?a 2 s3"
  define s5 where "s5 = spawn_client ?a 2 False s4"
  note start = demo_json_def demo_finite display_payload_default_def
  have s0: "sv_mapper s0" "sv_serialiser s0" "sv_hist s0 = [display_payload_default]" "sv_free_slots s0 = 1"
    "sv_accepting s0 = Idle" "sv_clients s0 = []" "sv_running s0" "sv_unseen s0 = False"
    by (simp_all add: s0_def server_start_def split: prod.split)
  have t1: "?step s0 s1" unfolding s1_def using s0 by (intro publish)
  have t2: "?step s1 s2" unfolding s2_def using s0 by (intro display_changed) (simp_all add: s1_def)
  have s2: "s2 = s1\<lparr>sv_unseen := False\<rparr>"
    using s0 by (simp add: s2_def s1_def serialiser_turn_def receiver_count_def active_def has_connected_clients_def
        RETAINED_SERIALISED_RECEIVERS_def)
  have t3: "?step s2 s3" unfolding s3_def using s0 by (intro accept) (simp_all add: s2 s1_def)
  have s3: "sv_accepting s3 = Refreshing ?a 2" "sv_serialiser s3" "sv_clients s3 = []"
    "sv_hist s3 = [display_payload_default, display_payload_new 3]"
    using s0 by (simp_all add: s3_def s2 s1_def accept_client_def)
  have t4: "?step s3 s4" unfolding s4_def by (rule refresh) (rule s3)
  have s4: "sv_accepting s4 = Refreshed ?a 2 False" "sv_clients s4 = []"
    using s3 demo_finite(2)
    by (simp_all add: s4_def refresh_snapshot_def refused_def demo_json_def serialiser_turn_def Let_def
        split: prod.split option.split)
  have t5: "?step s4 s5" unfolding s5_def by (rule spawn) (rule s4)
  have "?step s5 late_server"
  proof -
    have "late_server = client_step False 0 (HandshakeRequest None) s5"
      by (simp add: late_server_def s5_def s4_def s3_def s2_def s1_def s0_def server_start_def split: prod.split)
    moreover have "?step s5 (client_step False 0 (HandshakeRequest None) s5)"
      by (rule client) (simp_all add: s5_def spawn_client_def s4)
    ultimately show ?thesis by simp
  qed
  moreover have "reach (\<lambda>s. \<exists>p unseen. s = server_start demo_json 1 p unseen) ?step s0"
    by (rule reach_init) (auto simp: s0_def)
  ultimately show ?thesis unfolding server_reaches_def
    using t1 t2 t3 t4 t5 by (meson reach_step)
qed

lemma late_server_client:
  "sv_clients late_server = [\<lparr>cl_addr = \<lparr>sa_ip = IpV4 127 0 0 1, sa_port = 5\<rparr>, cl_phase = Writing,
     cl_seen = 1, cl_sent = [SText [51]], cl_marks = [2], cl_since = 2, cl_stale = False\<rparr>]"
  "sv_hist late_server = [display_payload_default, display_payload_new 3]"
proof -
  have "demo_json display_payload_default = Some [48]" "demo_json (display_payload_new 3) = Some [51]"
    by (simp_all add: demo_json_def display_payload_default_def display_payload_new_def show_nat.simps)
  then show "sv_clients late_server = [\<lparr>cl_addr = \<lparr>sa_ip = IpV4 127 0 0 1, sa_port = 5\<rparr>,
      cl_phase = Writing, cl_seen = 1, cl_sent = [SText [51]], cl_marks = [2], cl_since = 2,
      cl_stale = False\<rparr>]"
    "sv_hist late_server = [display_payload_default, display_payload_new 3]"
    using demo_finite by (simp_all add: late_server_def server_defs Let_def)
qed

theorem server_snapshots_in_order_witness:
  "sv_clients late_server \<noteq> [] \<and>
   list_all2 (mark_text demo_json (sv_hist late_server)) [2] [[51]] \<and>
   (case sv_clients late_server of c # cs \<Rightarrow> cl_since c \<le> hd (cl_marks c) | [] \<Rightarrow> False)"
  using server_snapshots_in_order [OF late_server_reaches, of "hd (sv_clients late_server)"]
  by (simp add: late_server_client client_texts_def)

text \<open>
  Claim C16. The client slots: at any moment the free slots and the tasks that hold one add up to the
  configured maximum, so there are never more clients than that. A connection that comes while a slot
  is free takes one and is admitted, and one that comes while all are taken is dropped and changes
  nothing; no step takes a slot otherwise, and every client task that ends, in whatever way, gives its
  slot back at that moment.
\<close>

theorem server_slots:
  assumes "server_reaches J nb n s"
  shows "sv_free_slots s + active (sv_clients s) + pending (sv_accepting s) = n \<and>
    (sv_accepting s = Idle \<longrightarrow>
       (if active (sv_clients s) < n
        then sv_accepting (accept_client addr s) = Refreshing addr (length (sv_hist s)) \<and>
          sv_clients (accept_client addr s) = sv_clients s \<and>
          sv_free_slots (accept_client addr s) + active (sv_clients s) + 1 = n
        else accept_client addr s = s)) \<and>
    (server_step J nb s t \<longrightarrow> sv_free_slots t + active (sv_clients t) + pending (sv_accepting t) = n \<and>
       (sv_free_slots t < sv_free_slots s \<longrightarrow> (\<exists>a. t = accept_client a s)))"
proof -
  have slots: "sv_free_slots s + active (sv_clients s) + pending (sv_accepting s) = n"
    using server_reaches_inv [OF assms] by (simp add: server_inv_def)
  moreover have "sv_free_slots t + active (sv_clients t) + pending (sv_accepting t) = n" if "server_step J nb s t"
    using server_step_inv [OF server_reaches_inv [OF assms] that] by (simp add: server_inv_def)
  moreover have "\<exists>a. t = accept_client a s" if "server_step J nb s t" "sv_free_slots t < sv_free_slots s"
    using that(1)
  proof cases
    case accept
    then show ?thesis by blast
  qed (use that(2) in \<open>auto simp: serialiser_turn_def refresh_snapshot_def spawn_client_def client_step_def
      server_stop_def server_finish_def Let_def split: prod.splits option.splits if_splits\<close>)
  ultimately show ?thesis by (auto simp: accept_client_def pending_def)
qed

theorem server_slots_witness:
  "sv_free_slots late_server + active (sv_clients late_server) + pending (sv_accepting late_server) = 1 \<and>
   sv_accepting late_server = Idle \<and> accept_client \<lparr>sa_ip = IpV4 127 0 0 1, sa_port = 6\<rparr> late_server = late_server"
proof -
  have "sv_accepting late_server = Idle"
    by (simp add: late_server_def client_step_def spawn_client_def Let_def)
  moreover have "active (sv_clients late_server) = 1" by (simp add: late_server_client active_def)
  ultimately show ?thesis
    using server_slots [OF late_server_reaches, of "\<lparr>sa_ip = IpV4 127 0 0 1, sa_port = 6\<rparr>" late_server] by auto
qed

section \<open>Shutdown\<close>




lemma client_end_ended [simp]: "cl_phase c = Ended \<Longrightarrow> client_end c = c"
  by (simp add: client_end_def)













text \<open>
  A client whose write was not done at the stop is not reached by the notice: afterwards it serves on,
  although the server has stopped, and the end of the server drops it without a close frame.
\<close>

lemma writing_client_misses_notice:
  "\<exists>t u. (server_step demo_json False)\<^sup>*\<^sup>* (server_stop late_server) t \<and> \<not> sv_running t \<and>
     cl_phase (sv_clients t ! 0) = Waiting False \<and> (server_step demo_json False)\<^sup>*\<^sup>* t u \<and> sv_finished u \<and>
     cl_phase (sv_clients u ! 0) = Ended \<and> cl_sent (sv_clients u ! 0) = [SText [51]]"
proof -
  let ?step = "server_step demo_json False"
  define t where "t = client_step False 0 (WriteDone True) (server_stop late_server)"
  have clients: "sv_clients (server_stop late_server) = sv_clients late_server"
    by (simp add: server_stop_def late_server_client notify_client_def)
  have "?step (server_stop late_server) t"
    unfolding t_def by (rule client) (simp_all add: clients late_server_client)
  moreover have t: "\<not> sv_running t" "cl_phase (sv_clients t ! 0) = Waiting False" "length (sv_clients t) = 1"
    "cl_sent (sv_clients t ! 0) = [SText [51]]"
    by (simp_all add: t_def client_step_def Let_def clients late_server_client) (simp add: server_stop_def)
  moreover have "\<not> sv_finished t"
    by (simp add: t_def client_step_def Let_def clients late_server_client)
      (simp add: server_stop_def late_server_def client_step_def spawn_client_def refresh_snapshot_def
        accept_client_def serialiser_turn_def server_start_def Let_def split: prod.split option.split)
  moreover define u where "u = server_finish (t\<lparr>sv_deadline := True\<rparr>)"
  ultimately have "?step\<^sup>*\<^sup>* (server_stop late_server) t" "?step t (t\<lparr>sv_deadline := True\<rparr>)"
    "?step (t\<lparr>sv_deadline := True\<rparr>) u" by (auto intro: deadline finish)
  moreover have "sv_finished u" "cl_phase (sv_clients u ! 0) = Ended" "cl_sent (sv_clients u ! 0) = [SText [51]]"
    using t by (simp_all add: u_def server_finish_def client_end_def)
  ultimately show ?thesis using t(1,2)
    by (blast intro: converse_rtranclp_into_rtranclp)
qed

end
