(* ===== verification/Bootstrap.thy ===== *)
theory Bootstrap
  imports Config_Resolve Worker Generator Analyser Mapper Frame_Writer Server Osc
begin

text \<open>
  Startup, \<^verbatim>\<open>src/src/bootstrap.rs\<close>: from a configuration to running workers. What lies outside the
  program, the audio and MIDI hosts, sockets, memory mapping, the math library and the behaviour of
  the started threads, is the record \<open>host\<close>. The result carries the state of the world also when the
  start fails, so that what is left behind can be stated. None is a panic.
\<close>

section \<open>Definitions\<close>

definition ANALYSE_BUFFER_MS :: u32 where
  "ANALYSE_BUFFER_MS = 500"

record ('s, 'conn, 'l, 'k) host =
  ho_runtime :: runtime_env
  ho_lower :: "rstring \<Rightarrow> rstring"
  ho_audio :: "audio_device list option"
  ho_show_format :: "string \<Rightarrow> string"
  ho_build_stream :: "stream_config \<Rightarrow> device_error + 's"
  ho_play_stream :: "'s \<Rightarrow> device_error + unit"
  ho_connect_midi :: "rstring \<Rightarrow> midi_device_error + 'conn midi_input_source"
  ho_libm :: libm_f32
  ho_from_params :: "nat \<Rightarrow> f32 \<Rightarrow> f32 \<Rightarrow> coefficients option"
  ho_listener :: "'l listener_ops"
  ho_show_addr :: "socket_addr \<Rightarrow> rstring"
  ho_encode :: encoder
  ho_socket :: "'k socket_ops"
  ho_page_size :: nat
  ho_mmap_ok :: bool
  ho_thread :: "worker_kind \<Rightarrow> worker_handle"

datatype input_source =
    CalibrationSource test_signal
  | HardwareSource audio_device stream_config

record resolved_input =
  ri_hw_specs :: specs
  ri_source :: input_source
  ri_analyse_channels :: "u16 list option"

definition resolve_audio_hardware ::
  "('s, 'conn, 'l, 'k) host \<Rightarrow> app_config \<Rightarrow> any_error + resolved_input" where
  "resolve_audio_hardware h config = (case ac_input config of
       Calibration signal \<Rightarrow> Inr
         \<lparr>ri_hw_specs = \<lparr>sp_channels = 2, sp_sample_rate = of_nat CALIBRATION_SAMPLE_RATE_HZ\<rparr>,
          ri_source = CalibrationSource signal, ri_analyse_channels = None\<rparr>
     | Device name selection \<Rightarrow>
         and_then (from_error RDevice (get_device (ho_lower h) (ho_audio h) name))
           (\<lambda>(device, stream_config, specs). Inr
             \<lparr>ri_hw_specs = specs, ri_source = HardwareSource device stream_config,
              ri_analyse_channels = selection\<rparr>))"

definition ready_audio_of :: "resolved_input \<Rightarrow> ready_audio" where
  "ready_audio_of r =
     \<lparr>ra_device = (case ri_source r of
          HardwareSource device c \<Rightarrow> dv_description device
        | CalibrationSource s \<Rightarrow> None),
      ra_sample_rate = sp_sample_rate (ri_hw_specs r),
      ra_channels = (case ri_analyse_channels r of
          None \<Rightarrow> map of_nat [0..<unat (sp_channels (ri_hw_specs r))]
        | Some channels \<Rightarrow> channels)\<rparr>"

definition resolve_midi_hardware ::
  "('s, 'conn, 'l, 'k) host \<Rightarrow> app_config \<Rightarrow> any_error + 'conn midi_input_source option" where
  "resolve_midi_hardware h config = (case ac_midi_input config of
       None \<Rightarrow> Inr None
     | Some (TestClock bpm) \<Rightarrow>
         and_then (from_error RConfig (midi_tick_interval (ho_runtime h) bpm))
           (\<lambda>tick_interval. Inr (Some (TestClockSource bpm tick_interval)))
     | Some (MidiDevice name) \<Rightarrow>
         and_then (from_error RMidi (ho_connect_midi h name)) (\<lambda>source. Inr (Some source)))"

fun iter_max :: "u16 list \<Rightarrow> u16 option" where
  "iter_max [] = None"
| "iter_max (i # is) = Some (fold max is i)"

definition validate_channel_selection :: "u16 list option \<Rightarrow> specs \<Rightarrow> any_error + unit" where
  "validate_channel_selection selection hw_specs =
     (case Option.bind selection iter_max of
        Some idx \<Rightarrow> if sp_channels hw_specs \<le> idx
          then Inl (any_of (RConfig (ChannelIndexOutOfRange idx (sp_channels hw_specs)))) else Inr ()
      | None \<Rightarrow> Inr ())"

text \<open>
  The world the start acts on. \<open>bw_spawned\<close> lists the threads that were started, with what they were
  given, and \<open>bw_sink\<close> is what the stream callback was given; \<open>bw_joined\<close> lists the joins of a failed
  start.
\<close>

datatype spawned =
    SpGenerator test_signal specs
  | SpAnalyser specs vocoder_config
  | SpMapper nat bool
  | SpMidiInput
  | SpWebSocket bool nat
  | SpOsc nat bool
  | SpFrameWriter nat u32 bool

fun spawned_kind :: "spawned \<Rightarrow> worker_kind" where
  "spawned_kind (SpGenerator signal s) = KGenerator"
| "spawned_kind (SpAnalyser s cfg) = KAnalyser"
| "spawned_kind (SpMapper channels midi) = KMapper"
| "spawned_kind SpMidiInput = KMidiInput"
| "spawned_kind (SpWebSocket b n) = KWebSocket"
| "spawned_kind (SpOsc channels midi) = KOsc"
| "spawned_kind (SpFrameWriter channels rate midi) = KFrameWriter"

record 's boot_world =
  bw_state :: app_state
  bw_stream :: "'s option"
  bw_sink :: "(channel_mode \<times> specs) option"
  bw_workers :: workers
  bw_slots :: "region_slot \<Rightarrow> frame_region option"
  bw_spawned :: "spawned list"
  bw_joined :: "(string \<times> join_outcome) list"
  bw_clock :: clock

text \<open>A thread is started and its handle registered.\<close>

definition start_worker ::
  "('s, 'conn, 'l, 'k) host \<Rightarrow> spawned \<Rightarrow> 's boot_world \<Rightarrow> 's boot_world" where
  "start_worker h sp w = w\<lparr>bw_spawned := bw_spawned w @ [sp],
     bw_workers := worker_register (bw_workers w) (spawned_kind sp) (ho_thread h (spawned_kind sp))\<rparr>"

definition spawn_audio_input ::
  "('s, 'conn, 'l, 'k) host \<Rightarrow> input_source \<Rightarrow> specs \<Rightarrow> channel_mode \<Rightarrow> 's boot_world
    \<Rightarrow> 's boot_world \<times> (any_error + unit)" where
  "spawn_audio_input h source hw_specs mode w = (case source of
       CalibrationSource signal \<Rightarrow> (start_worker h (SpGenerator signal hw_specs) w, Inr ())
     | HardwareSource device stream_config \<Rightarrow>
         (case start_stream (ho_show_format h) (ho_build_stream h) (ho_play_stream h) (bw_stream w) stream_config of
            (stream, result) \<Rightarrow>
              (w\<lparr>bw_stream := stream, bw_sink := Some (mode, hw_specs)\<rparr>, from_error RDevice result)))"

record output_sources =
  os_display_channels :: nat
  os_sample_rate :: u32
  os_midi_enabled :: bool

fun spawn_outputs ::
  "('s, 'conn, 'l, 'k) host \<Rightarrow> output_sources \<Rightarrow> output_config list \<Rightarrow> socket_addr option \<Rightarrow> 's boot_world
    \<Rightarrow> 's boot_world \<times> (any_error + socket_addr option)" where
  "spawn_outputs h src [] bound w = (w, Inr bound)"
| "spawn_outputs h src (WebSocket addr max_clients no_browser_origin # outputs) bound w =
     (case server_spawn (ho_listener h) (ho_show_addr h) addr of
        Inl e \<Rightarrow> (w, Inl e)
      | Inr bound_addr \<Rightarrow> spawn_outputs h src outputs (Some bound_addr)
          (start_worker h (SpWebSocket no_browser_origin max_clients) w))"
| "spawn_outputs h src (Osc addr # outputs) bound w =
     (case osc_spawn (ho_encode h) (ho_socket h) addr (os_display_channels src) (os_midi_enabled src) of
        Inl e \<Rightarrow> (w, Inl e)
      | Inr runtime \<Rightarrow> spawn_outputs h src outputs bound
          (start_worker h (SpOsc (os_display_channels src) (os_midi_enabled src)) w))"
| "spawn_outputs h src (FrameRegion slot # outputs) bound w =
     (case with_context ''Failed to map the frame region''
         (from_error (\<lambda>e. RMessage (lit ''frame region'')) (frame_region_new (ho_page_size h) (ho_mmap_ok h)
           (os_display_channels src) (os_sample_rate src) (os_midi_enabled src))) of
        Inl e \<Rightarrow> (w, Inl e)
      | Inr region \<Rightarrow> (case slot_fill region (bw_slots w slot) of (slot', filled) \<Rightarrow>
          if \<not> filled then (w, Inl (any_message ''The frame region slot was already filled''))
          else spawn_outputs h src outputs bound
            (start_worker h (SpFrameWriter (os_display_channels src) (os_sample_rate src) (os_midi_enabled src))
              (w\<lparr>bw_slots := (bw_slots w)(slot := slot')\<rparr>))))"

record bootstrapped =
  bo_ws_bound_addr :: "socket_addr option"
  bo_audio :: ready_audio

text \<open>
  The world after a failed start: locals are dropped, so a stream that was started stops.
\<close>

definition boot_fail :: "any_error \<Rightarrow> 's boot_world \<Rightarrow> 's boot_world \<times> (any_error + bootstrapped)" where
  "boot_fail e w = (w\<lparr>bw_stream := None\<rparr>, Inl e)"

text \<open>The checks and device lookups before anything is started.\<close>

definition boot_resolve ::
  "('s, 'conn, 'l, 'k) host \<Rightarrow> app_config \<Rightarrow> any_error + resolved_input \<times> 'conn midi_input_source option" where
  "boot_resolve h config =
     and_then (from_error RConfig (validate_app_config (ho_runtime h) config)) (\<lambda>_.
     and_then (resolve_audio_hardware h config) (\<lambda>resolved.
     and_then (resolve_midi_hardware h config) (\<lambda>midi_source.
     let sample_rate = unat (sp_sample_rate (ri_hw_specs resolved)) in
     and_then (from_error RConfig
         (validate_vocoder_sample_rate (vc_freq_high (ac_vocoder_config config)) sample_rate)) (\<lambda>_.
     and_then (from_error RConfig
         (bandpass_coefficients (ho_libm h) (ho_from_params h) sample_rate (ac_vocoder_config config))) (\<lambda>_.
     and_then (validate_channel_selection (ri_analyse_channels resolved) (ri_hw_specs resolved)) (\<lambda>_.
       Inr (resolved, midi_source)))))))"

definition boot_workers ::
  "('s, 'conn, 'l, 'k) host \<Rightarrow> app_config \<Rightarrow> specs \<Rightarrow> bool \<Rightarrow> 's boot_world \<Rightarrow> 's boot_world" where
  "boot_workers h config analyser_specs midi_enabled w =
     (let w = start_worker h (SpAnalyser analyser_specs (ac_vocoder_config config)) w;
          w = start_worker h (SpMapper (unat (sp_channels analyser_specs)) midi_enabled) w
      in if midi_enabled then start_worker h SpMidiInput w else w)"

definition bootstrap ::
  "(nat \<Rightarrow> nat) \<Rightarrow> ('s, 'conn, 'l, 'k) host \<Rightarrow> app_config \<Rightarrow> 's boot_world
    \<Rightarrow> ('s boot_world \<times> (any_error + bootstrapped)) option" where
  "bootstrap delay h config w =
     (case boot_resolve h config of
        Inl e \<Rightarrow> Some (boot_fail e w)
      | Inr (resolved, midi_source) \<Rightarrow>
          let hw_specs = ri_hw_specs resolved; midi_enabled = (midi_source \<noteq> None) in
          (case channel_mode_resolve (ri_analyse_channels resolved) hw_specs of (mode, analyser_specs) \<Rightarrow>
           Option.bind (create_audio_buffer_pair analyser_specs ANALYSE_BUFFER_MS) (\<lambda>capacity.
           case spawn_audio_input h (ri_source resolved) hw_specs mode w of
             (w, Inl e) \<Rightarrow> Some (boot_fail e w)
           | (w, Inr u) \<Rightarrow>
               let w = boot_workers h config analyser_specs midi_enabled w;
                   src = \<lparr>os_display_channels = unat (sp_channels analyser_specs),
                     os_sample_rate = sp_sample_rate analyser_specs, os_midi_enabled = midi_enabled\<rparr>
               in (case spawn_outputs h src (ac_outputs config) None w of
                     (w, Inr bound) \<Rightarrow>
                       Some (w, Inr \<lparr>bo_ws_bound_addr = bound, bo_audio = ready_audio_of resolved\<rparr>)
                   | (w, Inl e) \<Rightarrow>
                       let w = w\<lparr>bw_stream := None, bw_state := (bw_state w)\<lparr>as_keep_running := False\<rparr>\<rparr> in
                       (case workers_shutdown delay (bw_workers w) (bw_clock w) of
                          (workers, lines, joined, clk) \<Rightarrow>
                            Some (w\<lparr>bw_workers := workers, bw_joined := joined, bw_clock := clk\<rparr>, Inl e))))))"

text \<open>The world of a process that starts: nothing is running, no slot is filled.\<close>

definition fresh_world :: "(region_slot \<Rightarrow> frame_region option) \<Rightarrow> clock \<Rightarrow> 's boot_world" where
  "fresh_world slots clk = \<lparr>bw_state = app_state_default, bw_stream = None, bw_sink = None,
     bw_workers = [], bw_slots = slots, bw_spawned = [], bw_joined = [], bw_clock = clk\<rparr>"

section \<open>What is started\<close>

text \<open>
  Every started thread has its own handle in the registry, in the order of the starts:
  \<open>thread_entry\<close> is the registry's entry of a thread.
\<close>

definition thread_entry ::
  "('s, 'conn, 'l, 'k) host \<Rightarrow> spawned \<Rightarrow> worker_spec \<times> worker_handle" where
  "thread_entry h sp = (worker_kind_spec (spawned_kind sp), ho_thread h (spawned_kind sp))"

definition tracked :: "('s, 'conn, 'l, 'k) host \<Rightarrow> 's boot_world \<Rightarrow> bool" where
  "tracked h w \<longleftrightarrow> bw_workers w = map (thread_entry h) (bw_spawned w)"

lemma tracked_fresh [simp]: "tracked h (fresh_world slots clk)"
  by (simp add: tracked_def fresh_world_def)

lemma tracked_specs:
  "tracked h w \<Longrightarrow> map fst (bw_workers w) = map (\<lambda>sp. worker_kind_spec (spawned_kind sp)) (bw_spawned w)"
  by (simp add: tracked_def thread_entry_def)

lemma start_worker_simps [simp]:
  "bw_spawned (start_worker h sp w) = bw_spawned w @ [sp]"
  "bw_state (start_worker h sp w) = bw_state w"
  "bw_stream (start_worker h sp w) = bw_stream w"
  "bw_sink (start_worker h sp w) = bw_sink w"
  "bw_joined (start_worker h sp w) = bw_joined w"
  "bw_clock (start_worker h sp w) = bw_clock w"
  "tracked h (start_worker h sp w) = tracked h w"
  by (simp_all add: start_worker_def tracked_def thread_entry_def worker_register_def)

fun output_spawn :: "output_sources \<Rightarrow> output_config \<Rightarrow> spawned" where
  "output_spawn src (WebSocket addr n b) = SpWebSocket b n"
| "output_spawn src (Osc addr) = SpOsc (os_display_channels src) (os_midi_enabled src)"
| "output_spawn src (FrameRegion slot) =
     SpFrameWriter (os_display_channels src) (os_sample_rate src) (os_midi_enabled src)"

lemma tracked_slots [simp]: "tracked h (w\<lparr>bw_slots := f\<rparr>) = tracked h w"
  by (simp add: tracked_def)

lemma spawn_outputs_result:
  assumes "spawn_outputs h src outputs bound w = (w', r)" "tracked h w"
  shows "tracked h w' \<and> bw_state w' = bw_state w \<and> bw_stream w' = bw_stream w \<and> bw_sink w' = bw_sink w \<and>
    bw_clock w' = bw_clock w \<and>
    (\<exists>k. bw_spawned w' = bw_spawned w @ map (output_spawn src) (take k outputs)) \<and>
    (\<forall>b. r = Inr b \<longrightarrow> bw_spawned w' = bw_spawned w @ map (output_spawn src) outputs)"
  using assms
proof (induction h src outputs bound w rule: spawn_outputs.induct)
  case (1 h src bound w)
  then show ?case by auto
next
  case (2 h src addr n b outputs bound w)
  show ?case
  proof (cases "server_spawn (ho_listener h) (ho_show_addr h) addr")
    case (Inl e)
    with 2 show ?thesis by (auto intro: exI [of _ 0])
  next
    case (Inr bound_addr)
    from "2.IH" [OF Inr] "2.prems" Inr show ?thesis
      by (auto intro: exI [of _ "Suc k" for k])
  qed
next
  case (3 h src addr outputs bound w)
  show ?case
  proof (cases "osc_spawn (ho_encode h) (ho_socket h) addr (os_display_channels src) (os_midi_enabled src)")
    case (Inl e)
    with 3 show ?thesis by (auto intro: exI [of _ 0])
  next
    case (Inr runtime)
    from "3.IH" [OF Inr] "3.prems" Inr show ?thesis
      by (auto intro: exI [of _ "Suc k" for k])
  qed
next
  case (4 h src slot outputs bound w)
  let ?new = "with_context ''Failed to map the frame region''
    (from_error (\<lambda>e. RMessage (lit ''frame region'')) (frame_region_new (ho_page_size h) (ho_mmap_ok h)
       (os_display_channels src) (os_sample_rate src) (os_midi_enabled src)))"
  show ?case
  proof (cases ?new)
    case (Inl e)
    with 4 show ?thesis by (auto intro: exI [of _ 0])
  next
    case new: (Inr region)
    obtain slot' filled where fill: "slot_fill region (bw_slots w slot) = (slot', filled)"
      by (cases "slot_fill region (bw_slots w slot)")
    show ?thesis
    proof (cases filled)
      case False
      with 4 new fill show ?thesis by (auto intro: exI [of _ 0])
    next
      case True
      from "4.IH" [OF new fill [symmetric]] "4.prems" new fill True show ?thesis
        by (auto intro: exI [of _ "Suc k" for k])
    qed
  qed
qed

text \<open>The threads of a run, in the order the shutdown joins them.\<close>

definition expected_spawned ::
  "input_source \<Rightarrow> specs \<Rightarrow> specs \<Rightarrow> app_config \<Rightarrow> spawned list" where
  "expected_spawned source hw_specs analyser_specs config =
     (let midi = ac_midi_input config \<noteq> None;
          src = \<lparr>os_display_channels = unat (sp_channels analyser_specs),
            os_sample_rate = sp_sample_rate analyser_specs, os_midi_enabled = midi\<rparr>
      in (case source of CalibrationSource signal \<Rightarrow> [SpGenerator signal hw_specs] | HardwareSource d c \<Rightarrow> [])
        @ [SpAnalyser analyser_specs (ac_vocoder_config config), SpMapper (os_display_channels src) midi]
        @ (if midi then [SpMidiInput] else []) @ map (output_spawn src) (ac_outputs config))"

lemma boot_workers_simps [simp]:
  "bw_spawned (boot_workers h config s midi w) = bw_spawned w @ [SpAnalyser s (ac_vocoder_config config),
     SpMapper (unat (sp_channels s)) midi] @ (if midi then [SpMidiInput] else [])"
  "bw_state (boot_workers h config s midi w) = bw_state w"
  "bw_stream (boot_workers h config s midi w) = bw_stream w"
  "bw_sink (boot_workers h config s midi w) = bw_sink w"
  "bw_clock (boot_workers h config s midi w) = bw_clock w"
  "tracked h (boot_workers h config s midi w) = tracked h w"
  by (simp_all add: boot_workers_def Let_def)

lemma resolve_midi_some:
  "resolve_midi_hardware h config = Inr m \<Longrightarrow> (m \<noteq> None) = (ac_midi_input config \<noteq> None)"
  by (auto simp: resolve_midi_hardware_def and_then_Inr split: option.splits config_midi_input.splits)

text \<open>What a successful resolution has checked.\<close>

lemma boot_resolve_Inr:
  assumes "boot_resolve h config = Inr (resolved, midi)"
  shows "validate_app_config (ho_runtime h) config = Inr ()"
    "resolve_audio_hardware h config = Inr resolved"
    "(midi \<noteq> None) = (ac_midi_input config \<noteq> None)"
    "\<exists>cs. bandpass_coefficients (ho_libm h) (ho_from_params h) (unat (sp_sample_rate (ri_hw_specs resolved)))
       (ac_vocoder_config config) = Inr cs"
    "validate_channel_selection (ri_analyse_channels resolved) (ri_hw_specs resolved) = Inr ()"
  using assms resolve_midi_some [of h config]
  by (auto simp: boot_resolve_def and_then_Inr Let_def)

lemma spawn_audio_input_result:
  assumes "spawn_audio_input h source hw mode w = (w', r)" "tracked h w" "bw_spawned w = []"
  shows "tracked h w' \<and> bw_state w' = bw_state w \<and> bw_clock w' = bw_clock w \<and>
    (r = Inr () \<longrightarrow> (case source of
        CalibrationSource signal \<Rightarrow> bw_spawned w' = [SpGenerator signal hw] \<and> bw_sink w' = bw_sink w
      | HardwareSource d c \<Rightarrow> bw_spawned w' = [] \<and> bw_stream w' \<noteq> None \<and> bw_sink w' = Some (mode, hw))) \<and>
    (r \<noteq> Inr () \<longrightarrow> bw_spawned w' = [] \<and> bw_workers w' = bw_workers w)"
proof (cases source)
  case (CalibrationSource signal)
  with assms show ?thesis by (auto simp: spawn_audio_input_def)
next
  case (HardwareSource d c)
  obtain stream result where st:
    "start_stream (ho_show_format h) (ho_build_stream h) (ho_play_stream h) (bw_stream w) c = (stream, result)"
    by (cases "start_stream (ho_show_format h) (ho_build_stream h) (ho_play_stream h) (bw_stream w) c")
  then have "result = Inr () \<longrightarrow> stream \<noteq> None"
    by (auto simp: start_stream_def split: if_splits sum.splits)
  moreover have "from_error RDevice result = Inr () \<longleftrightarrow> result = Inr ()" by simp
  moreover have "w' = w\<lparr>bw_stream := stream, bw_sink := Some (mode, hw)\<rparr>" "r = from_error RDevice result"
    using assms(1) HardwareSource st by (simp_all add: spawn_audio_input_def)
  ultimately show ?thesis using assms(2,3) HardwareSource by (auto simp: tracked_def)
qed

text \<open>The start in two halves: the checks, and what follows them.\<close>

abbreviation output_sources_of :: "specs \<Rightarrow> bool \<Rightarrow> output_sources" where
  "output_sources_of specs midi \<equiv> \<lparr>os_display_channels = unat (sp_channels specs),
     os_sample_rate = sp_sample_rate specs, os_midi_enabled = midi\<rparr>"

lemma bootstrap_Inl:
  "boot_resolve h config = Inl e \<Longrightarrow> bootstrap delay h config w = Some (boot_fail e w)"
  by (simp add: bootstrap_def)

lemma bootstrap_audio_Inl:
  assumes "boot_resolve h config = Inr (resolved, midi)"
    "channel_mode_resolve (ri_analyse_channels resolved) (ri_hw_specs resolved) = (mode, specs)"
    "spawn_audio_input h (ri_source resolved) (ri_hw_specs resolved) mode w = (w1, Inl e)"
    "bootstrap delay h config w = Some (w', r)"
  shows "w' = w1\<lparr>bw_stream := None\<rparr> \<and> r = Inl e"
  using assms by (auto simp: bootstrap_def boot_fail_def bind_eq_Some_conv)

lemma bootstrap_Inr:
  assumes "boot_resolve h config = Inr (resolved, midi)"
    "channel_mode_resolve (ri_analyse_channels resolved) (ri_hw_specs resolved) = (mode, specs)"
    "spawn_audio_input h (ri_source resolved) (ri_hw_specs resolved) mode w = (w1, Inr u)"
    "spawn_outputs h (output_sources_of specs (midi \<noteq> None)) (ac_outputs config) None
      (boot_workers h config specs (midi \<noteq> None) w1) = (w2, Inr bound)"
    "bootstrap delay h config w = Some (w', r)"
  shows "w' = w2 \<and> r = Inr \<lparr>bo_ws_bound_addr = bound, bo_audio = ready_audio_of resolved\<rparr>"
  using assms by (auto simp: bootstrap_def Let_def bind_eq_Some_conv)

lemma bootstrap_outputs_Inl:
  assumes "boot_resolve h config = Inr (resolved, midi)"
    "channel_mode_resolve (ri_analyse_channels resolved) (ri_hw_specs resolved) = (mode, specs)"
    "spawn_audio_input h (ri_source resolved) (ri_hw_specs resolved) mode w = (w1, Inr u)"
    "spawn_outputs h (output_sources_of specs (midi \<noteq> None)) (ac_outputs config) None
      (boot_workers h config specs (midi \<noteq> None) w1) = (w2, Inl e)"
    "bootstrap delay h config w = Some (w', r)"
  shows "r = Inl e \<and> bw_workers w' = [] \<and> bw_stream w' = None \<and> bw_spawned w' = bw_spawned w2 \<and>
    \<not> as_keep_running (bw_state w') \<and>
    bw_joined w' = fst (snd (join_all delay (bw_workers w2) (bw_clock w2)))"
proof -
  obtain lines joined clk where j: "join_all delay (bw_workers w2) (bw_clock w2) = (lines, joined, clk)"
    by (cases "join_all delay (bw_workers w2) (bw_clock w2)")
  have "w' = w2\<lparr>bw_stream := None, bw_state := (bw_state w2)\<lparr>as_keep_running := False\<rparr>,
      bw_workers := [], bw_joined := joined, bw_clock := clk\<rparr> \<and> r = Inl e"
    using assms j by (auto simp: bootstrap_def Let_def bind_eq_Some_conv workers_shutdown_def)
  with j show ?thesis by simp
qed

text \<open>What the joins of a tracked world find.\<close>

lemma tracked_joined:
  assumes "tracked h w" "\<forall>k. delay k \<le> j"
  shows "list_all2 (\<lambda>sp. join_good j (fst (bw_clock w)) (thread_entry h sp)) (bw_spawned w)
    (fst (snd (join_all delay (bw_workers w) (bw_clock w))))"
  using join_all_bounded [OF assms(2), of "fst (bw_clock w)" "fst (bw_clock w)" "bw_workers w" "snd (bw_clock w)"]
    assms(1) by (simp add: tracked_def list.rel_map)

lemma bootstrap_cases:
  assumes "bootstrap delay h config (fresh_world slots clk) = Some (w, r)"
  obtains
    (refused) e where "boot_resolve h config = Inl e" "r = Inl e"
      "w = (fresh_world slots clk)\<lparr>bw_stream := None\<rparr>"
  | (no_audio) resolved midi mode specs w1 e where
      "boot_resolve h config = Inr (resolved, midi)"
      "channel_mode_resolve (ri_analyse_channels resolved) (ri_hw_specs resolved) = (mode, specs)"
      "spawn_audio_input h (ri_source resolved) (ri_hw_specs resolved) mode (fresh_world slots clk) = (w1, Inl e)"
      "r = Inl e" "w = w1\<lparr>bw_stream := None\<rparr>"
  | (no_output) resolved midi mode specs w1 w2 e where
      "boot_resolve h config = Inr (resolved, midi)"
      "channel_mode_resolve (ri_analyse_channels resolved) (ri_hw_specs resolved) = (mode, specs)"
      "spawn_audio_input h (ri_source resolved) (ri_hw_specs resolved) mode (fresh_world slots clk) = (w1, Inr ())"
      "spawn_outputs h (output_sources_of specs (midi \<noteq> None)) (ac_outputs config) None
        (boot_workers h config specs (midi \<noteq> None) w1) = (w2, Inl e)" "r = Inl e"
      "bw_workers w = []" "bw_stream w = None" "bw_spawned w = bw_spawned w2" "\<not> as_keep_running (bw_state w)"
      "bw_joined w = fst (snd (join_all delay (bw_workers w2) (bw_clock w2)))"
  | (started) resolved midi mode specs w1 bound where
      "boot_resolve h config = Inr (resolved, midi)"
      "channel_mode_resolve (ri_analyse_channels resolved) (ri_hw_specs resolved) = (mode, specs)"
      "spawn_audio_input h (ri_source resolved) (ri_hw_specs resolved) mode (fresh_world slots clk) = (w1, Inr ())"
      "spawn_outputs h (output_sources_of specs (midi \<noteq> None)) (ac_outputs config) None
        (boot_workers h config specs (midi \<noteq> None) w1) = (w, Inr bound)"
      "r = Inr \<lparr>bo_ws_bound_addr = bound, bo_audio = ready_audio_of resolved\<rparr>"
proof (cases "boot_resolve h config")
  case (Inl e)
  with assms refused [of e] bootstrap_Inl [OF Inl] show thesis by (simp add: boot_fail_def)
next
  case (Inr p)
  obtain res midi where p: "p = (res, midi)" by (cases p)
  note b = Inr [unfolded p]
  obtain mode specs where m: "channel_mode_resolve (ri_analyse_channels res) (ri_hw_specs res) = (mode, specs)"
    by (cases "channel_mode_resolve (ri_analyse_channels res) (ri_hw_specs res)")
  obtain w1 ra where a: "spawn_audio_input h (ri_source res) (ri_hw_specs res) mode (fresh_world slots clk) = (w1, ra)"
    by (cases "spawn_audio_input h (ri_source res) (ri_hw_specs res) mode (fresh_world slots clk)")
  obtain w2 ro where o: "spawn_outputs h (output_sources_of specs (midi \<noteq> None)) (ac_outputs config) None
      (boot_workers h config specs (midi \<noteq> None) w1) = (w2, ro)" (is "?out = _")
    by (cases ?out)
  show thesis
  proof (cases ra)
    case (Inl e)
    note a' = a [unfolded Inl]
    show thesis using bootstrap_audio_Inl [OF b m a' assms] no_audio [OF b m a'] by simp
  next
    case (Inr u)
    then have a': "spawn_audio_input h (ri_source res) (ri_hw_specs res) mode (fresh_world slots clk) = (w1, Inr ())"
      using a by simp
    show thesis
    proof (cases ro)
      case (Inl e)
      note o' = o [unfolded Inl]
      show thesis using bootstrap_outputs_Inl [OF b m a' o' assms] no_output [OF b m a' o'] by simp
    next
      case (Inr bound)
      note o' = o [unfolded Inr]
      show thesis using bootstrap_Inr [OF b m a' o' assms] started [OF b m a'] o' by simp
    qed
  qed
qed

text \<open>
  The threads of a start that fails at the output after the first \<open>k\<close>: those of the same
  configuration with these outputs only.
\<close>

lemma no_output_spawned:
  assumes "boot_resolve h config = Inr (res, midi)"
    "spawn_audio_input h (ri_source res) (ri_hw_specs res) mode (fresh_world slots clk) = (w1, Inr ())"
    "spawn_outputs h (output_sources_of specs (midi \<noteq> None)) (ac_outputs config) None
      (boot_workers h config specs (midi \<noteq> None) w1) = (w2, r)"
  shows "tracked h w2 \<and> bw_clock w2 = clk \<and> bw_spawned w2 \<noteq> [] \<and>
    (\<exists>k. bw_spawned w2 = expected_spawned (ri_source res) (ri_hw_specs res) specs
      (config\<lparr>ac_outputs := take k (ac_outputs config)\<rparr>))"
proof -
  have fresh: "bw_spawned (fresh_world slots clk) = []" "bw_clock (fresh_world slots clk) = clk"
    by (simp_all add: fresh_world_def)
  note audio = spawn_audio_input_result [OF assms(2) tracked_fresh fresh(1)]
  note out = spawn_outputs_result [OF assms(3)]
  from out audio obtain k where "bw_spawned w2 = bw_spawned (boot_workers h config specs (midi \<noteq> None) w1) @
      map (output_spawn (output_sources_of specs (midi \<noteq> None))) (take k (ac_outputs config))"
    by auto
  note spawned = this
  from this audio boot_resolve_Inr(3) [OF assms(1)]
  have "bw_spawned w2 = expected_spawned (ri_source res) (ri_hw_specs res) specs
      (config\<lparr>ac_outputs := take k (ac_outputs config)\<rparr>)"
    by (auto simp: expected_spawned_def Let_def split: input_source.splits)
  then have "\<exists>k. bw_spawned w2 = expected_spawned (ri_source res) (ri_hw_specs res) specs
      (config\<lparr>ac_outputs := take k (ac_outputs config)\<rparr>)" by blast
  moreover have "bw_spawned w2 \<noteq> []" using spawned by simp
  ultimately show ?thesis using out audio fresh(2) by simp
qed

text \<open>
  Claim C18. A failed start leaves nothing behind, whichever check, device, stream, bind or mapping
  fails. The input stream is not running and no worker is registered any more. The threads that had
  been started are those of the configuration with its first \<open>k\<close> outputs, and each of them, in that
  order, went through the bounded join with its own handle: one that ends within its grace period,
  or leaves when it is woken within it, was joined or found panicked, and one that never ends was
  given up as timed out, which detaches it (\<open>join_good\<close>). The run flag is cleared exactly when there
  was a thread to stop, and a configuration that the checks refuse starts none.
\<close>

theorem bootstrap_failure_stops_all:
  assumes "bootstrap delay h config (fresh_world slots clk) = Some (w, Inl e)" and "\<forall>k. delay k \<le> j"
  shows "bw_stream w = None \<and> bw_workers w = [] \<and>
    list_all2 (\<lambda>sp. join_good j (fst clk)
      (worker_kind_spec (spawned_kind sp), ho_thread h (spawned_kind sp))) (bw_spawned w) (bw_joined w) \<and>
    (as_keep_running (bw_state w) \<longleftrightarrow> bw_spawned w = []) \<and>
    (bw_spawned w = [] \<or> validate_app_config (ho_runtime h) config = Inr () \<and>
      (\<exists>res mode specs k. resolve_audio_hardware h config = Inr res \<and>
        channel_mode_resolve (ri_analyse_channels res) (ri_hw_specs res) = (mode, specs) \<and>
        bw_spawned w = expected_spawned (ri_source res) (ri_hw_specs res) specs
          (config\<lparr>ac_outputs := take k (ac_outputs config)\<rparr>)))"
  using assms(1)
proof (cases rule: bootstrap_cases)
  case (refused e)
  then show ?thesis by (simp add: fresh_world_def app_state_default_def)
next
  case (no_audio res midi mode specs w1 e)
  have fresh: "bw_spawned (fresh_world slots clk) = []" "bw_workers (fresh_world slots clk) = []"
    "as_keep_running (bw_state (fresh_world slots clk))"
    by (simp_all add: fresh_world_def app_state_default_def)
  have "bw_joined w1 = []" using no_audio(3)
    by (auto simp: spawn_audio_input_def fresh_world_def split: input_source.splits prod.splits)
  with spawn_audio_input_result [OF no_audio(3) tracked_fresh fresh(1)] fresh no_audio
  show ?thesis by simp
next
  case (no_output res midi mode specs w1 w2 e)
  note w2 = no_output_spawned [OF no_output(1,3,4)]
  have "list_all2 (\<lambda>sp. join_good j (fst clk) (thread_entry h sp)) (bw_spawned w) (bw_joined w)"
    using tracked_joined [of h w2, OF _ assms(2)] w2 no_output(8,10) by simp
  with w2 no_output boot_resolve_Inr(1,2) [OF no_output(1)] show ?thesis
    by (auto simp: thread_entry_def)
next
  case (started res midi mode specs w1 bound)
  then show ?thesis by simp
qed

text \<open>A host for the witnesses: a device of four channels, silent filters, threads that end at once.\<close>

definition demo_host :: "unit listener_ops \<Rightarrow> (unit, unit, unit, (u8 list \<times> socket_addr) list) host" where
  "demo_host L = \<lparr>ho_runtime = demo_env, ho_lower = (\<lambda>s. s),
     ho_audio = Some [\<lparr>dv_description = Some (lit ''Duet''),
       dv_config = Some \<lparr>cf_channels = 4, cf_sample_rate = 48000, cf_format = ''F32''\<rparr>\<rparr>],
     ho_show_format = demo_display, ho_build_stream = (\<lambda>c. Inr ()), ho_play_stream = (\<lambda>s. Inr ()),
     ho_connect_midi = (\<lambda>n. Inl (MidiNoMatch n)), ho_libm = id_libm,
     ho_from_params = (\<lambda>_ _ _. Some silent_coefficients), ho_listener = L, ho_show_addr = (\<lambda>a. []),
     ho_encode = demo_encode, ho_socket = log_socket, ho_page_size = 4096, ho_mmap_ok = True,
     ho_thread = (\<lambda>k. \<lparr>wh_end = (\<lambda>_. Some 0), wh_panics = False\<rparr>)\<rparr>"

definition open_listener :: "unit listener_ops" where
  "open_listener = \<lparr>ln_bind = (\<lambda>a. Inr ()), ln_set_nonblocking = (\<lambda>l. Inr ()),
     ln_local_addr = (\<lambda>l. Inr \<lparr>sa_ip = IpV4 127 0 0 1, sa_port = 9001\<rparr>)\<rparr>"

definition busy_listener :: "unit listener_ops" where
  "busy_listener = open_listener\<lparr>ln_bind := (\<lambda>a. Inl (any_message ''Address in use''))\<rparr>"


definition duet_config :: app_config where
  "duet_config = demo_config\<lparr>ac_input := Device (lit ''Duet'') (Some [1, 3])\<rparr>"

definition duet_format :: stream_config where
  "duet_format = \<lparr>cf_channels = 4, cf_sample_rate = 48000, cf_format = ''F32''\<rparr>"

definition duet_input :: resolved_input where
  "duet_input = \<lparr>ri_hw_specs = \<lparr>sp_channels = 4, sp_sample_rate = 48000\<rparr>,
     ri_source = HardwareSource \<lparr>dv_description = Some (lit ''Duet''), dv_config = Some duet_format\<rparr> duet_format,
     ri_analyse_channels = Some [1, 3]\<rparr>"

lemma rate_bits:
  "f32_of_nat 48000 = 0x473B8000" "f32_div 0x473B8000 (f32_lit 2 1) = 0x46BB8000"
  "f32_mul 0x473B8000 (f32_lit 45 100) = 0x46A8C000"
  "\<not> f32_le 0x46BB8000 0x45BB8000" "\<not> f32_lt 0x46A8C000 0x45BB8000"
  by (simp_all add: float_eval)

lemma default_rate_valid: "validate_vocoder_sample_rate (Hertz 0x45BB8000) 48000 = Inr ()"
  by (simp add: validate_vocoder_sample_rate_def rate_bits Let_def del: One_nat_def)

lemma trim_duet: "trim (lit ''Duet'') \<noteq> []"
  by (simp add: trim_empty lit_def white_space_def)

lemma duet_resolve: "boot_resolve (demo_host L) duet_config = Inr (duet_input, None)"
  by (simp add: boot_resolve_def and_then_Inr duet_config_def demo_config_def demo_host_def
      validate_app_config_def demo_env_def vocoder_config_default_bits default_vocoder_valid
     resolve_audio_hardware_def get_device_def build_device_specs_def ok_or_def device_name_def unwrap_or_def
     resolve_midi_hardware_def validate_channel_selection_def bandpass_coefficients_def silent_loop
     default_rate_valid trim_duet duet_input_def duet_format_def)

lemma demo_host_simps [simp]:
  "ho_build_stream (demo_host L) c = Inr ()" "ho_play_stream (demo_host L) u = Inr ()"
  "ho_listener (demo_host L) = L" "ac_outputs duet_config = ac_outputs demo_config"
  "server_spawn open_listener show addr = Inr \<lparr>sa_ip = IpV4 127 0 0 1, sa_port = 9001\<rparr>"
  "\<exists>e. server_spawn busy_listener show addr = Inl e"
  by (simp_all add: demo_host_def server_spawn_def open_listener_def busy_listener_def with_context_def
      with_context_text_def duet_config_def)

lemma duet_audio:
  "spawn_audio_input (demo_host L) (ri_source duet_input) specs mode w =
     (w\<lparr>bw_stream := Some (), bw_sink := Some (mode, specs)\<rparr>, Inr ())"
  by (simp add: spawn_audio_input_def duet_input_def start_stream_def duet_format_def)

lemma duet_mode:
  "channel_mode_resolve (ri_analyse_channels duet_input) (ri_hw_specs duet_input) =
     (Selected [1, 3], \<lparr>sp_channels = 2, sp_sample_rate = 48000\<rparr>)"
  "create_audio_buffer_pair \<lparr>sp_channels = 2, sp_sample_rate = 48000\<rparr> ANALYSE_BUFFER_MS = Some 65536"
  by (simp_all add: channel_mode_resolve_def duet_input_def create_audio_buffer_pair_def ANALYSE_BUFFER_MS_def
      next_power_of_two_def)

lemma duet_bootstraps:
  "\<exists>w b. bootstrap delay (demo_host open_listener) duet_config (fresh_world slots clk) = Some (w, Inr b)"
  unfolding bootstrap_def duet_resolve
  by (simp add: duet_mode duet_audio Let_def demo_config_def)

lemma duet_refused:
  "\<exists>w e. bootstrap delay (demo_host busy_listener) duet_config (fresh_world slots clk) = Some (w, Inl e) \<and>
    bw_spawned w = [SpAnalyser \<lparr>sp_channels = 2, sp_sample_rate = 48000\<rparr> vocoder_config_default, SpMapper 2 False]"
proof -
  obtain e where "server_spawn busy_listener (ho_show_addr (demo_host busy_listener))
      \<lparr>sa_ip = IpV4 127 0 0 1, sa_port = 9000\<rparr> = Inl e"
    using demo_host_simps(6) by blast
  then show ?thesis
    unfolding bootstrap_def duet_resolve
    by (simp add: duet_mode duet_audio Let_def demo_config_def duet_config_def boot_workers_def fresh_world_def
        start_worker_def split: prod.splits)
qed

theorem bootstrap_failure_stops_all_witness:
  "\<exists>w e. bootstrap (\<lambda>k. 5) (demo_host busy_listener) duet_config (fresh_world (\<lambda>s. None) (0, 0)) = Some (w, Inl e) \<and>
     bw_stream w = None \<and> bw_workers w = [] \<and>
     bw_joined w = [(''analyser'', Joined), (''mapper'', Joined)] \<and> \<not> as_keep_running (bw_state w)"
proof -
  obtain w e where w: "bootstrap (\<lambda>k. 5) (demo_host busy_listener) duet_config (fresh_world (\<lambda>s. None) (0, 0)) =
      Some (w, Inl e)"
    "bw_spawned w = [SpAnalyser \<lparr>sp_channels = 2, sp_sample_rate = 48000\<rparr> vocoder_config_default, SpMapper 2 False]"
    using duet_refused by blast
  have "\<forall>k. (\<lambda>k. 5 :: nat) k \<le> (5 :: nat)" by simp
  note stopped = bootstrap_failure_stops_all [OF w(1) this]
  have ends: "ends_by 0 (ho_thread (demo_host busy_listener) k)"
    "\<not> wh_panics (ho_thread (demo_host busy_listener) k)" for k
    by (simp_all add: demo_host_def ends_by_def is_finished_def)
  have good: "x = (ws_name spec, Joined)"
    if "join_good 5 0 (spec, ho_thread (demo_host busy_listener) k) x" "5 \<le> worker_timeout spec" for x spec k
    using that ends [of k] by (cases x) (auto simp: join_good_def)
  have "bw_joined w = [(''analyser'', Joined), (''mapper'', Joined)]"
    using stopped by (auto simp: w(2) list_all2_Cons1 worker_timeout_def worker_constants dest!: good)
  with w stopped show ?thesis by auto
qed

lemma boot_workers_joined [simp]: "bw_joined (boot_workers h config s midi w) = bw_joined w"
  by (simp add: boot_workers_def Let_def)

lemma spawn_outputs_joined:
  "spawn_outputs h src outputs bound w = (w', r) \<Longrightarrow> bw_joined w' = bw_joined w"
proof (induction h src outputs bound w rule: spawn_outputs.induct)
  case (4 h src slot outputs bound w)
  then show ?case
    by (auto simp: Let_def split: sum.splits prod.splits if_splits)
qed (auto split: sum.splits)

text \<open>
  Claim C19. A successful start: the resolved input decides the channel mode, the threads started are
  exactly those of the configuration, in pipeline order and with the specs of the analysed channels,
  each one has its handle in the registry in that order, the run flag is still set, nothing was
  joined, and a hardware input has its stream running with the mode and the hardware specs.
\<close>

theorem bootstrap_starts_pipeline:
  assumes "bootstrap delay h config (fresh_world slots clk) = Some (w, Inr b)"
  shows "\<exists>res mode specs. resolve_audio_hardware h config = Inr res \<and>
    channel_mode_resolve (ri_analyse_channels res) (ri_hw_specs res) = (mode, specs) \<and>
    bo_audio b = ready_audio_of res \<and>
    bw_spawned w = expected_spawned (ri_source res) (ri_hw_specs res) specs config \<and>
    map fst (bw_workers w) = map (\<lambda>sp. worker_kind_spec (spawned_kind sp)) (bw_spawned w) \<and>
    as_keep_running (bw_state w) \<and> bw_joined w = [] \<and>
    (case ri_source res of
       HardwareSource d c \<Rightarrow> bw_stream w \<noteq> None \<and> bw_sink w = Some (mode, ri_hw_specs res)
     | CalibrationSource signal \<Rightarrow> bw_stream w = None \<and> bw_sink w = None)"
  using assms
proof (cases rule: bootstrap_cases)
  case (started res midi mode specs w1 bound)
  let ?w0 = "fresh_world slots clk"
  have fresh: "bw_spawned ?w0 = []" by (simp add: fresh_world_def)
  note audio = spawn_audio_input_result [OF started(3) tracked_fresh fresh]
  note out = spawn_outputs_result [OF started(4)]
  have midi: "(midi \<noteq> None) = (ac_midi_input config \<noteq> None)" by (rule boot_resolve_Inr(3) [OF started(1)])
  have joined: "bw_joined w = []"
    using spawn_outputs_joined [OF started(4)] started(3)
    by (auto simp: spawn_audio_input_def fresh_world_def split: input_source.splits prod.splits)
  have stream: "bw_stream w = bw_stream w1" "bw_sink w = bw_sink w1" "bw_state w = bw_state w1" "tracked h w"
    using out audio by simp_all
  have "bw_spawned w = expected_spawned (ri_source res) (ri_hw_specs res) specs config"
    using out audio midi by (auto simp: expected_spawned_def Let_def split: input_source.splits)
  moreover have "case ri_source res of
       HardwareSource d c \<Rightarrow> bw_stream w \<noteq> None \<and> bw_sink w = Some (mode, ri_hw_specs res)
     | CalibrationSource signal \<Rightarrow> bw_stream w = None \<and> bw_sink w = None"
    unfolding stream(1,2) using audio started(3)
    by (auto simp: spawn_audio_input_def fresh_world_def start_worker_def split: input_source.splits)
  moreover have "as_keep_running (bw_state w)"
    using stream audio by (simp add: fresh_world_def app_state_default_def)
  ultimately show ?thesis
    using boot_resolve_Inr(2) [OF started(1)] started(2,5) stream joined
    by (intro exI [of _ res] exI [of _ mode] exI [of _ specs]) (simp add: tracked_specs)
qed simp_all

theorem bootstrap_starts_pipeline_witness:
  "\<exists>w b. bootstrap (\<lambda>k. 5) (demo_host open_listener) duet_config (fresh_world (\<lambda>s. None) (0, 0)) = Some (w, Inr b) \<and>
     bw_spawned w = [SpAnalyser \<lparr>sp_channels = 2, sp_sample_rate = 48000\<rparr> vocoder_config_default,
       SpMapper 2 False, SpWebSocket False 8] \<and> length (bw_workers w) = 3 \<and>
     bw_sink w = Some (Selected [1, 3], \<lparr>sp_channels = 4, sp_sample_rate = 48000\<rparr>)"
proof -
  obtain w b where w: "bootstrap (\<lambda>k. 5) (demo_host open_listener) duet_config (fresh_world (\<lambda>s. None) (0, 0)) =
      Some (w, Inr b)"
    using duet_bootstraps by blast
  have input: "resolve_audio_hardware (demo_host open_listener) duet_config = Inr duet_input"
    by (rule boot_resolve_Inr(2) [OF duet_resolve])
  from bootstrap_starts_pipeline [OF w] obtain mode specs where
    "channel_mode_resolve (ri_analyse_channels duet_input) (ri_hw_specs duet_input) = (mode, specs)"
    and spawned: "bw_spawned w = expected_spawned (ri_source duet_input) (ri_hw_specs duet_input) specs duet_config"
    and len: "map fst (bw_workers w) = map (\<lambda>sp. worker_kind_spec (spawned_kind sp)) (bw_spawned w)"
    and "case ri_source duet_input of
       HardwareSource d c \<Rightarrow> bw_stream w \<noteq> None \<and> bw_sink w = Some (mode, ri_hw_specs duet_input)
     | CalibrationSource signal \<Rightarrow> bw_stream w = None \<and> bw_sink w = None"
    unfolding input by auto
  then have "specs = \<lparr>sp_channels = 2, sp_sample_rate = 48000\<rparr>"
    and sink: "bw_sink w = Some (Selected [1, 3], \<lparr>sp_channels = 4, sp_sample_rate = 48000\<rparr>)"
    by (simp_all add: duet_mode) (simp add: duet_input_def)
  with spawned have "bw_spawned w = [SpAnalyser \<lparr>sp_channels = 2, sp_sample_rate = 48000\<rparr> vocoder_config_default,
       SpMapper 2 False, SpWebSocket False 8]"
    by (simp add: expected_spawned_def duet_input_def duet_config_def demo_config_def)
  with w sink arg_cong [OF len, of length] show ?thesis by simp
qed

lemma fold_max_upper:
  fixes a :: u16
  shows "a \<le> fold max xs a" "i \<in> set xs \<Longrightarrow> i \<le> fold max xs a"
proof -
  have ge: "b \<le> fold max ys b" for b :: u16 and ys
    by (induction ys arbitrary: b) (auto intro: order_trans [OF max.cobounded2])
  show "a \<le> fold max xs a" by (rule ge)
  show "i \<in> set xs \<Longrightarrow> i \<le> fold max xs a"
  proof (induction xs arbitrary: a)
    case (Cons x xs)
    then show ?case using ge [of "max x a"] by (cases "i = x") (auto intro: order_trans [of x "max x a"])
  qed simp
qed

lemma iter_max_upper: "iter_max is = Some m \<Longrightarrow> i \<in> set is \<Longrightarrow> i \<le> m"
  by (cases "is") (auto intro: fold_max_upper)

lemma channel_mode_ready:
  assumes "validate_channel_selection selection hw = Inr ()"
    "case selection of Some indices \<Rightarrow> distinct indices \<and> indices \<noteq> [] | None \<Rightarrow> True"
    "0 < sp_channels hw" "channel_mode_resolve selection hw = (mode, specs)"
  shows "mode_fits mode (unat (sp_channels hw)) \<and> sp_channels specs \<noteq> 0 \<and>
    frame_size mode (unat (sp_channels hw)) = unat (sp_channels specs)"
proof (cases selection)
  case None
  then show ?thesis using assms by (auto simp: channel_mode_resolve_def)
next
  case (Some indices)
  then have mode: "mode = Selected indices" "specs = hw\<lparr>sp_channels := of_nat (length indices)\<rparr>"
    using assms(4) by (auto simp: channel_mode_resolve_def)
  obtain m where m: "iter_max indices = Some m" "m < sp_channels hw"
    using assms Some by (cases indices) (auto simp: validate_channel_selection_def split: if_splits)
  have lt: "\<forall>i \<in> set indices. unat i < unat (sp_channels hw)"
  proof
    fix i assume "i \<in> set indices"
    then have "i < sp_channels hw" using iter_max_upper [OF m(1)] m(2) by (blast intro: le_less_trans)
    then show "unat i < unat (sp_channels hw)" by (simp add: word_less_nat_alt)
  qed
  have "length indices = card (unat ` set indices)"
    using assms(2) Some distinct_card [of indices] card_image [of unat "set indices"] by (auto simp: inj_on_def word_unat_eq_iff)
  also have "\<dots> \<le> card {..< unat (sp_channels hw)}"
    using lt by (intro card_mono) auto
  finally have "length indices \<le> unat (sp_channels hw)" by simp
  moreover have "unat (sp_channels hw) < 2 ^ 16"
    using unsigned_less [of "sp_channels hw", where ?'a = nat] by simp
  ultimately have len: "unat (of_nat (length indices) :: u16) = length indices"
    by (simp add: unat_of_nat)
  moreover have "(of_nat (length indices) :: u16) \<noteq> 0"
  proof
    assume "(of_nat (length indices) :: u16) = 0"
    with len have "length indices = 0" by (simp only: unsigned_0)
    with assms(2) Some show False by simp
  qed
  ultimately show ?thesis using mode lt by simp
qed

text \<open>
  Claim C20. What a start has checked is what the threads rely on: after a successful start on a
  device with channels, and a selection without repetitions, building the analyser's state with the
  specs it was given does not panic, every selected channel exists in a hardware frame, and the
  analyser's frame is exactly what the stream callback writes per hardware frame.
\<close>

theorem bootstrap_pipeline_ready:
  assumes "bootstrap delay h config (fresh_world slots clk) = Some (w, Inr b)"
    and "resolve_audio_hardware h config = Inr res" "0 < sp_channels (ri_hw_specs res)"
    and "case ri_analyse_channels res of Some indices \<Rightarrow> distinct indices \<and> indices \<noteq> [] | None \<Rightarrow> True"
  shows "\<exists>mode specs s. channel_mode_resolve (ri_analyse_channels res) (ri_hw_specs res) = (mode, specs) \<and>
    SpAnalyser specs (ac_vocoder_config config) \<in> set (bw_spawned w) \<and>
    analyser_new (vocoder_new B (ho_libm h) (ho_from_params h) exp_m1) specs tx (ac_vocoder_config config) = Some s \<and>
    mode_fits mode (unat (sp_channels (ri_hw_specs res))) \<and>
    frame_size mode (unat (sp_channels (ri_hw_specs res))) = st_channels s"
  using assms(1)
proof (cases rule: bootstrap_cases)
  case (started res' midi mode specs w1 bound)
  have res: "res' = res" using boot_resolve_Inr(2) [OF started(1)] assms(2) by simp
  have "validate_channel_selection (ri_analyse_channels res) (ri_hw_specs res) = Inr ()"
    using boot_resolve_Inr(5) [OF started(1)] res by simp
  from channel_mode_ready [OF this assms(4,3) started(2) [unfolded res]]
  have fits: "mode_fits mode (unat (sp_channels (ri_hw_specs res)))" "unat (sp_channels specs) \<noteq> 0"
    "frame_size mode (unat (sp_channels (ri_hw_specs res))) = unat (sp_channels specs)"
    by (simp_all add: unat_eq_0)
  have rate: "sp_sample_rate specs = sp_sample_rate (ri_hw_specs res)"
    using started(2) res by (auto simp: channel_mode_resolve_def split: option.splits)
  obtain cs where "bandpass_coefficients (ho_libm h) (ho_from_params h) (unat (sp_sample_rate specs))
      (ac_vocoder_config config) = Inr cs"
    using boot_resolve_Inr(4) [OF started(1)] res rate by auto
  moreover obtain n where "frame_aligned_samples_for_ms specs CHUNK_SIZE_MS = Some n"
    using fits(2) by (simp add: frame_aligned_samples_for_ms_def Let_def)
  ultimately have "analyser_new (vocoder_new B (ho_libm h) (ho_from_params h) exp_m1) specs tx
      (ac_vocoder_config config) \<noteq> None"
    using fits(2) by (simp add: analyser_new_def vocoder_new_def Let_def)
  then obtain s where s:
    "analyser_new (vocoder_new B (ho_libm h) (ho_from_params h) exp_m1) specs tx (ac_vocoder_config config) = Some s"
    by blast
  then have "st_channels s = unat (sp_channels specs)"
    by (auto simp: analyser_new_def Let_def bind_eq_Some_conv split: if_splits)
  have fresh: "bw_spawned (fresh_world slots clk) = []" by (simp add: fresh_world_def)
  have "SpAnalyser specs (ac_vocoder_config config) \<in> set (bw_spawned w)"
    using spawn_outputs_result [OF started(4)] spawn_audio_input_result [OF started(3) tracked_fresh fresh] by auto
  with s \<open>st_channels s = _\<close> started(2) res fits show ?thesis
    by (intro exI [of _ mode] exI [of _ specs] exI [of _ s]) simp
qed simp_all

theorem bootstrap_pipeline_ready_witness:
  "\<exists>w b s. bootstrap (\<lambda>k. 5) (demo_host open_listener) duet_config (fresh_world (\<lambda>s. None) (0, 0)) =
      Some (w, Inr b) \<and>
     analyser_new (vocoder_new pass_ops id_libm (\<lambda>_ _ _. Some silent_coefficients) half_exp_m1)
       \<lparr>sp_channels = 2, sp_sample_rate = 48000\<rparr> () vocoder_config_default = Some s \<and>
     mode_fits (Selected [1, 3]) 4 \<and> frame_size (Selected [1, 3]) 4 = st_channels s"
proof -
  obtain w b where w: "bootstrap (\<lambda>k. 5) (demo_host open_listener) duet_config (fresh_world (\<lambda>s. None) (0, 0)) =
      Some (w, Inr b)"
    using duet_bootstraps by blast
  have input: "0 < sp_channels (ri_hw_specs duet_input)"
    "case ri_analyse_channels duet_input of Some indices \<Rightarrow> distinct indices \<and> indices \<noteq> [] | None \<Rightarrow> True"
    "ho_libm (demo_host open_listener) = id_libm" "ac_vocoder_config duet_config = vocoder_config_default"
    "ho_from_params (demo_host open_listener) = (\<lambda>_ _ _. Some silent_coefficients)"
    "unat (sp_channels (ri_hw_specs duet_input)) = 4"
    by (simp_all add: duet_input_def demo_host_def duet_config_def demo_config_def)
  from bootstrap_pipeline_ready [OF w boot_resolve_Inr(2) [OF duet_resolve] input(1,2),
      of pass_ops half_exp_m1 "()"] w
  show ?thesis unfolding input duet_mode prod.inject by auto
qed

end
