(* ===== verification/Pipeline.thy ===== *)
theory Pipeline
  imports Bootstrap
begin

text \<open>
  The composition of the audio callback (\<^verbatim>\<open>src/src/managers/audio.rs\<close>) and the analyser thread
  (\<^verbatim>\<open>src/src/managers/analyser.rs\<close>) over the ring that \<^verbatim>\<open>src/src/bootstrap.rs\<close> creates between them:
  the callback as the sequence of its accesses to the ring, the machine of the two threads, and what
  each channel's filter bank has processed under every interleaving.
\<close>

section \<open>The callback, access by access\<close>

text \<open>
  \<^verbatim>\<open>StreamSink::push\<close> as the sequence of its accesses to the ring: the scan of the selected path
  asks for room before each frame and writes its channels one by one; the other path asks once and
  writes one slice.
\<close>

datatype callback =
    CbIdle
  | CbScan "f32 list list"
  | CbWrite "u16 list" "f32 list" "f32 list list"
  | CbAll "f32 list"
  | CbSlice "f32 list"

definition callback_begin :: "channel_mode \<Rightarrow> nat \<Rightarrow> f32 list \<Rightarrow> callback" where
  "callback_begin mode hw data = (case mode of
       AllChannels \<Rightarrow> CbAll data
     | Selected indices \<Rightarrow> CbScan (chunks_exact hw data))"

fun callback_step ::
  "'q producer_ops \<Rightarrow> u16 list \<Rightarrow> nat \<Rightarrow> callback \<Rightarrow> 'q \<Rightarrow> (callback \<times> 'q) option" where
  "callback_step P indices hw CbIdle q = Some (CbIdle, q)"
| "callback_step P indices hw (CbScan []) q = Some (CbIdle, q)"
| "callback_step P indices hw (CbScan (frame # frames)) q =
     (case pr_vacant_len P q of (q', vacant) \<Rightarrow>
        Some (if vacant < length indices then CbScan frames else CbWrite indices frame frames, q'))"
| "callback_step P indices hw (CbWrite [] frame frames) q = Some (CbScan frames, q)"
| "callback_step P indices hw (CbWrite (idx # rest) frame frames) q =
     (if unat idx < length frame
      then Some (CbWrite rest frame frames, fst (pr_try_push P q (frame ! unat idx)))
      else None)"
| "callback_step P indices hw (CbAll data) q =
     (case pr_vacant_len P q of (q', vacant) \<Rightarrow>
        Some (CbSlice (take (min (length data div hw * hw) (vacant div hw * hw)) data), q'))"
| "callback_step P indices hw (CbSlice xs) q = Some (CbIdle, fst (pr_push_slice P q xs))"

text \<open>Without interference the accesses are \<^verbatim>\<open>StreamSink::push\<close>.\<close>

definition selection_of :: "channel_mode \<Rightarrow> u16 list" where
  "selection_of mode = (case mode of AllChannels \<Rightarrow> [] | Selected indices \<Rightarrow> indices)"

fun callback_steps :: "'q producer_ops \<Rightarrow> u16 list \<Rightarrow> nat \<Rightarrow> nat \<Rightarrow> callback \<times> 'q \<Rightarrow> (callback \<times> 'q) option" where
  "callback_steps P indices hw 0 s = Some s"
| "callback_steps P indices hw (Suc k) s =
     Option.bind (callback_step P indices hw (fst s) (snd s)) (callback_steps P indices hw k)"

lemma callback_steps_add:
  "callback_steps P indices hw (j + k) s =
     Option.bind (callback_steps P indices hw j s) (callback_steps P indices hw k)"
  by (induction j arbitrary: s) (auto split: Option.bind_split)

lemma write_alone:
  "push_selected P frame rest q = Some q' \<Longrightarrow>
   callback_steps P indices hw (Suc (length rest)) (CbWrite rest frame frames, q) = Some (CbScan frames, q')"
  by (induction P frame rest q rule: push_selected.induct) (auto split: if_splits)

lemma scan_alone:
  "push_frames P indices frames q d = Some (q', d') \<Longrightarrow>
   \<exists>k. callback_steps P indices hw k (CbScan frames, q) = Some (CbIdle, q')"
proof (induction P indices frames q d rule: push_frames.induct)
  case (1 P indices p d)
  then show ?case by (intro exI [of _ 1]) simp
next
  case (2 P indices frame frames p d)
  obtain p' v where v: "pr_vacant_len P p = (p', v)" by (cases "pr_vacant_len P p")
  show ?case
  proof (cases "v < length indices")
    case True
    with 2(1) [OF v [symmetric]] 2(3) v obtain k where
      "callback_steps P indices hw k (CbScan frames, p') = Some (CbIdle, q')" by auto
    with True v show ?thesis by (intro exI [of _ "Suc k"]) simp
  next
    case False
    with 2(3) v obtain p'' where w: "push_selected P frame indices p' = Some p''"
      "push_frames P indices frames p'' d = Some (q', d')"
      by (auto simp: bind_eq_Some_conv)
    from 2(2) [OF v [symmetric] False w(1) w(2)] obtain k where
      k: "callback_steps P indices hw k (CbScan frames, p'') = Some (CbIdle, q')" ..
    have "callback_steps P indices hw (Suc (length indices) + k) (CbWrite indices frame frames, p') = Some (CbIdle, q')"
      by (simp only: callback_steps_add write_alone [OF w(1)] bind.simps k)
    then have "callback_steps P indices hw (Suc (Suc (length indices) + k)) (CbScan (frame # frames), p) = Some (CbIdle, q')"
      by (simp only: callback_steps.simps(2) fst_conv snd_conv callback_step.simps(3) prod.case v False if_False bind.simps)
    then show ?thesis by blast
  qed
qed

lemma callback_alone:
  assumes "stream_sink_push P s data hw = Some (s', dropped)"
  shows "\<exists>k. callback_steps P (selection_of (ss_mode s)) hw k (callback_begin (ss_mode s) hw data, ss_tx s) =
    Some (CbIdle, ss_tx s')"
proof (cases "ss_mode s")
  case AllChannels
  then show ?thesis
    using assms by (intro exI [of _ "Suc (Suc 0)"])
      (auto simp: stream_sink_push_def callback_begin_def Let_def split: if_splits prod.splits)
next
  case (Selected indices)
  with assms obtain p where "push_frames P indices (chunks_exact hw data) (ss_tx s) False = Some (p, dropped)"
      "ss_tx s' = p"
    by (auto simp: stream_sink_push_def split: if_splits)
  with Selected scan_alone show ?thesis
    by (fastforce simp: callback_begin_def selection_of_def)
qed

section \<open>The two threads over one ring\<close>

text \<open>
  The documented behaviour of the ring's two halves on one shared state. \<open>pushed\<close> and \<open>popped\<close> are the
  samples that went in and came out since the start, \<open>room\<close> is the free space: the producer's accesses
  leave what was popped alone, a pop takes the next samples that fit the slice, perhaps fewer, and
  never takes room away.
\<close>

definition ring_pair_laws ::
  "'q producer_ops \<Rightarrow> 'q consumer_ops \<Rightarrow> ('q \<Rightarrow> f32 list) \<Rightarrow> ('q \<Rightarrow> f32 list) \<Rightarrow> ('q \<Rightarrow> nat) \<Rightarrow> bool" where
  "ring_pair_laws P C pushed popped room \<longleftrightarrow> producer_laws P pushed room \<and>
     (\<forall>q. popped (fst (pr_vacant_len P q)) = popped q) \<and>
     (\<forall>q xs. popped (fst (pr_push_slice P q xs)) = popped q) \<and>
     (\<forall>q x. popped (fst (pr_try_push P q x)) = popped q) \<and>
     (\<forall>q n. length (snd (cn_pop_slice C q n)) \<le> n \<and>
        popped (fst (cn_pop_slice C q n)) = popped q @ snd (cn_pop_slice C q n) \<and>
        pushed (fst (cn_pop_slice C q n)) = pushed q \<and> room q \<le> room (fst (cn_pop_slice C q n))) \<and>
     (\<forall>q. prefix (popped q) (pushed q))"

record ('f, 'w, 'q) pipeline =
  pi_ring :: 'q
  pi_callback :: callback
  pi_analyser :: "('f, 'w) analyser_state"
  pi_hardware :: "f32 list list"

text \<open>
  The driver calls back with any data, also with a torn frame at its end; the callback makes one
  access; the analyser makes one turn. \<open>pi_hardware\<close> records the frames the driver delivered.
\<close>

inductive pipeline_step ::
  "'q producer_ops \<Rightarrow> 'q consumer_ops \<Rightarrow> 'f biquad_ops \<Rightarrow> bool \<Rightarrow> ('w, raw_payload) watch_ops
    \<Rightarrow> channel_mode \<Rightarrow> nat \<Rightarrow> ('f, 'w, 'q) pipeline \<Rightarrow> ('f, 'w, 'q) pipeline \<Rightarrow> bool"
  for P C B z W mode hw where
  driver_calls: "pi_callback s = CbIdle \<Longrightarrow> pipeline_step P C B z W mode hw s
    (s\<lparr>pi_callback := callback_begin mode hw data, pi_hardware := pi_hardware s @ chunks_exact hw data\<rparr>)"
| callback_runs: "callback_step P (selection_of mode) hw (pi_callback s) (pi_ring s) = Some (cb, q) \<Longrightarrow>
    pipeline_step P C B z W mode hw s (s\<lparr>pi_callback := cb, pi_ring := q\<rparr>)"
| analyser_runs: "analyser_turn B z W C (pi_analyser s, pi_ring s) = Some (a, q) \<Longrightarrow>
    pipeline_step P C B z W mode hw s (s\<lparr>pi_analyser := a, pi_ring := q\<rparr>)"

text \<open>
  What the callback has still to do, against the frames the driver delivered: \<open>seen\<close> are the frames it
  is done with, and \<open>kept\<close> those of them it wrote.
\<close>

fun callback_owes ::
  "channel_mode \<Rightarrow> nat \<Rightarrow> nat \<Rightarrow> f32 list list \<Rightarrow> callback \<Rightarrow> f32 list \<Rightarrow> bool" where
  "callback_owes mode hw space todo CbIdle partial = (partial = [] \<and> todo = [])"
| "callback_owes mode hw space todo (CbScan frames) partial =
     (partial = [] \<and> todo = frames \<and> (\<exists>indices. mode = Selected indices))"
| "callback_owes mode hw space todo (CbWrite rest frame frames) partial =
     (todo = frame # frames \<and> length rest \<le> space \<and> (\<exists>wrote. mode = Selected (wrote @ rest) \<and>
        partial = map (\<lambda>i. frame ! unat i) wrote))"
| "callback_owes mode hw space todo (CbAll data) partial =
     (partial = [] \<and> todo = chunks_exact hw data \<and> mode = AllChannels)"
| "callback_owes mode hw space todo (CbSlice xs) partial =
     (partial = [] \<and> length xs \<le> space \<and> mode = AllChannels \<and> (\<exists>k. xs = concat (take k todo)))"

definition callback_inv ::
  "('q \<Rightarrow> f32 list) \<Rightarrow> ('q \<Rightarrow> nat) \<Rightarrow> channel_mode \<Rightarrow> nat \<Rightarrow> callback \<Rightarrow> 'q \<Rightarrow> f32 list list \<Rightarrow> bool" where
  "callback_inv pushed room mode hw cb q frames \<longleftrightarrow> (\<forall>fr \<in> set frames. length fr = hw) \<and>
     (\<exists>seen todo kept partial. frames = seen @ todo \<and> subseq kept seen \<and>
        callback_owes mode hw (room q) todo cb partial \<and>
        pushed q = concat (map (pick mode) kept) @ partial)"

lemma callback_begin_inv:
  assumes "callback_inv pushed room mode hw CbIdle q frames"
  shows "callback_inv pushed room mode hw (callback_begin mode hw data) q (frames @ chunks_exact hw data)"
proof -
  from assms obtain kept where "subseq kept frames" "pushed q = concat (map (pick mode) kept)"
    "\<forall>fr \<in> set frames. length fr = hw"
    by (auto simp: callback_inv_def)
  then show ?thesis
    unfolding callback_inv_def
    by (intro conjI exI [of _ frames] exI [of _ "chunks_exact hw data"] exI [of _ kept] exI [of _ "[]"])
      (auto simp: callback_begin_def chunks_exact_length split: channel_mode.split)
qed

lemma callback_invI:
  assumes "\<forall>fr \<in> set (seen @ todo). length fr = hw" "subseq kept seen"
    "callback_owes mode hw (room q) todo cb partial" "pushed q = concat (map (pick mode) kept) @ partial"
  shows "callback_inv pushed room mode hw cb q (seen @ todo)"
  using assms unfolding callback_inv_def by blast

lemma subseq_snoc: "subseq xs ys \<Longrightarrow> subseq xs (ys @ zs)" "subseq xs ys \<Longrightarrow> subseq (xs @ [z]) (ys @ [z])"
  using list_emb_append_mono [of "(=)" xs ys "[]" zs] list_emb_append_mono [of "(=)" xs ys "[z]" "[z]"] by simp_all

lemma subseq_take: "subseq xs ys \<Longrightarrow> subseq (xs @ take k zs) (ys @ zs)"
  by (rule list_emb_append_mono) (simp_all add: take_is_prefix prefix_imp_subseq)

lemma callback_step_ok:
  assumes laws: "producer_laws P pushed room" and hw: "0 < hw" and fits: "mode_fits mode hw"
    and inv: "callback_inv pushed room mode hw cb q frames"
  shows "\<exists>cb' q'. callback_step P (selection_of mode) hw cb q = Some (cb', q') \<and>
    callback_inv pushed room mode hw cb' q' frames"
proof -
  from inv obtain seen todo kept partial where fr: "frames = seen @ todo"
    and len: "\<forall>fr \<in> set (seen @ todo). length fr = hw" and kept: "subseq kept seen"
    and owes: "callback_owes mode hw (room q) todo cb partial"
    and pushed: "pushed q = concat (map (pick mode) kept) @ partial"
    unfolding callback_inv_def by blast
  show ?thesis
  proof (cases cb)
    case CbIdle
    with inv show ?thesis by simp
  next
    case (CbScan fs)
    show ?thesis
    proof (cases fs)
      case Nil
      have "callback_inv pushed room mode hw CbIdle q (seen @ todo)"
        by (rule callback_invI [where partial = "[]", OF len kept]) (use CbScan Nil owes pushed in auto)
      with fr CbScan Nil show ?thesis by simp
    next
      case (Cons f rest)
      obtain q' v where v: "pr_vacant_len P q = (q', v)" by (cases "pr_vacant_len P q")
      note vac = producer_vacant [OF laws v]
      from CbScan Cons owes obtain indices where m: "mode = Selected indices" "partial = []" "todo = f # rest"
        by auto
      show ?thesis
      proof (cases "v < length indices")
        case True
        have "callback_inv pushed room mode hw (CbScan rest) q' ((seen @ [f]) @ rest)"
          by (rule callback_invI [where partial = "[]", OF _ subseq_snoc(1) [OF kept]])
            (use len m vac pushed in auto)
        with True CbScan Cons v m fr show ?thesis by (simp add: selection_of_def)
      next
        case False
        have "callback_inv pushed room mode hw (CbWrite indices f rest) q' (seen @ todo)"
          by (rule callback_invI [where partial = "[]", OF len kept])
            (use False len m vac pushed in auto)
        with False CbScan Cons v m fr show ?thesis by (simp add: selection_of_def)
      qed
    qed
  next
    case (CbWrite idxs f rest)
    with owes obtain wrote where w: "todo = f # rest" "length idxs \<le> room q" "mode = Selected (wrote @ idxs)"
      "partial = map (\<lambda>i. f ! unat i) wrote" by auto
    have "length f = hw" using len w(1) by simp
    show ?thesis
    proof (cases idxs)
      case Nil
      have "callback_inv pushed room mode hw (CbScan rest) q ((seen @ [f]) @ rest)"
        by (rule callback_invI [where partial = "[]", OF _ subseq_snoc(2) [OF kept]])
          (use len w pushed Nil in \<open>auto simp: pick.simps\<close>)
      with CbWrite Nil fr w show ?thesis by simp
    next
      case (Cons i more)
      let ?q = "fst (pr_try_push P q (f ! unat i))"
      have i: "unat i < length f" using fits w(3) Cons \<open>length f = hw\<close> by simp
      have room: "0 < room q" using w(2) Cons by auto
      note wr = producer_try_push [OF laws room, of "f ! unat i"]
      have "callback_inv pushed room mode hw (CbWrite more f rest) ?q (seen @ todo)"
        by (rule callback_invI [where partial = "partial @ [f ! unat i]", OF len kept])
          (use w Cons wr pushed in \<open>auto intro!: exI [of _ "wrote @ [i]"]\<close>)
      with CbWrite Cons i fr show ?thesis by simp
    qed
  next
    case (CbAll data)
    obtain q' v where v: "pr_vacant_len P q = (q', v)" by (cases "pr_vacant_len P q")
    note vac = producer_vacant [OF laws v]
    from CbAll owes have m: "mode = AllChannels" "partial = []" "todo = chunks_exact hw data" by auto
    let ?k = "min (length data div hw) (v div hw)"
    have n: "min (length data div hw * hw) (v div hw * hw) = ?k * hw" by (simp add: min_def)
    have le: "?k * hw \<le> length data" "?k * hw \<le> v"
      by (meson le_trans min.cobounded1 min.cobounded2 mult_le_mono1 div_times_less_eq_dividend)+
    have xs: "take (?k * hw) data = concat (take ?k todo)"
      unfolding m(3) by (rule take_frames [OF hw le(1)])
    then have space: "length (concat (take ?k todo)) \<le> room q'"
      using vac(2) le(2) by (metis length_take min.cobounded2 order_trans)
    have "callback_inv pushed room mode hw (CbSlice (take (?k * hw) data)) q' (seen @ todo)"
      by (rule callback_invI [where partial = "[]", OF len kept])
        (use m vac(1) pushed xs space in auto)
    with CbAll v fr n show ?thesis by simp
  next
    case (CbSlice xs)
    with owes obtain k where m: "mode = AllChannels" "partial = []" "length xs \<le> room q" "xs = concat (take k todo)"
      by auto
    let ?q = "fst (pr_push_slice P q xs)"
    have "callback_inv pushed room mode hw CbIdle ?q ((seen @ todo) @ [])"
      by (rule callback_invI [where partial = "[]", OF _ subseq_take [OF kept, of k todo]])
        (use len m pushed producer_push_slice [OF laws m(3)] in auto)
    with CbSlice fr show ?thesis by simp
  qed
qed

lemma callback_inv_pop:
  assumes "callback_inv pushed room mode hw cb q frames" "pushed q' = pushed q" "room q \<le> room q'"
  shows "callback_inv pushed room mode hw cb q' frames"
proof -
  have "callback_owes mode hw (room q) todo cb partial \<Longrightarrow> callback_owes mode hw (room q') todo cb partial"
    for todo partial using assms(3) by (cases cb) auto
  with assms(1,2) show ?thesis unfolding callback_inv_def by fastforce
qed

text \<open>The invariant of the machine; \<open>vocs\<close> are the channels' analysers at the start.\<close>

definition pipeline_inv ::
  "('q \<Rightarrow> f32 list) \<Rightarrow> ('q \<Rightarrow> f32 list) \<Rightarrow> ('q \<Rightarrow> nat) \<Rightarrow> 'f biquad_ops \<Rightarrow> bool \<Rightarrow> ('w, raw_payload) watch_ops
    \<Rightarrow> channel_mode \<Rightarrow> nat \<Rightarrow> 'f vocoder list \<Rightarrow> ('f, 'w, 'q) pipeline \<Rightarrow> bool" where
  "pipeline_inv pushed popped room B z W mode hw vocs s \<longleftrightarrow>
     callback_inv pushed room mode hw (pi_callback s) (pi_ring s) (pi_hardware s) \<and>
     an_inv W (frame_size mode hw) (pi_analyser s) \<and>
     an_follows B z (frame_size mode hw) vocs (popped (pi_ring s)) (pi_analyser s)"

lemma callback_step_popped:
  assumes "ring_pair_laws P C pushed popped room" "callback_step P indices hw cb q = Some (cb', q')"
  shows "popped q' = popped q"
  using assms(2)
proof (cases "(P, indices, hw, cb, q)" rule: callback_step.cases)
  case (3 P' indices' hw' frame frames q1)
  with assms show ?thesis
    by (cases "pr_vacant_len P q") (auto simp: ring_pair_laws_def dest: spec [of _ q])
next
  case (6 P' indices' hw' data q1)
  with assms show ?thesis
    by (cases "pr_vacant_len P q") (auto simp: ring_pair_laws_def dest: spec [of _ q])
qed (use assms in \<open>auto simp: ring_pair_laws_def split: if_splits\<close>)

lemma pipeline_turn:
  assumes laws: "ring_pair_laws P C pushed popped room"
    and inv: "pipeline_inv pushed popped room B z W mode hw vocs s"
  shows "\<exists>a q. analyser_turn B z W C (pi_analyser s, pi_ring s) = Some (a, q) \<and>
    pipeline_inv pushed popped room B z W mode hw vocs (s\<lparr>pi_analyser := a, pi_ring := q\<rparr>)"
proof -
  let ?m = "length (st_transfer_buffer (pi_analyser s)) - st_pending (pi_analyser s)"
  obtain q ys where pop: "cn_pop_slice C (pi_ring s) ?m = (q, ys)" by (cases "cn_pop_slice C (pi_ring s) ?m")
  have l: "length ys \<le> ?m" "popped q = popped (pi_ring s) @ ys" "pushed q = pushed (pi_ring s)"
    "room (pi_ring s) \<le> room q"
    using laws pop unfolding ring_pair_laws_def by (metis fst_conv snd_conv)+
  have cb: "callback_inv pushed room mode hw (pi_callback s) q (pi_hardware s)"
    by (rule callback_inv_pop [OF _ l(3,4)]) (use inv in \<open>simp add: pipeline_inv_def\<close>)
  have "an_inv W (frame_size mode hw) (pi_analyser s)"
    "an_follows B z (frame_size mode hw) vocs (popped (pi_ring s)) (pi_analyser s)"
    using inv by (simp_all add: pipeline_inv_def)
  from analyser_turn_pop [OF this pop l(1)] cb l(2) show ?thesis
    by (auto simp: pipeline_inv_def)
qed

lemma pipeline_step_inv:
  assumes "ring_pair_laws P C pushed popped room" "0 < hw" "mode_fits mode hw"
    and inv: "pipeline_inv pushed popped room B z W mode hw vocs s"
    and step: "pipeline_step P C B z W mode hw s t"
  shows "pipeline_inv pushed popped room B z W mode hw vocs t"
  using step
proof cases
  case (driver_calls data)
  with inv callback_begin_inv [of pushed room mode hw "pi_ring s" "pi_hardware s" data] show ?thesis
    by (simp add: pipeline_inv_def)
next
  case (callback_runs cb q)
  have "producer_laws P pushed room" using assms(1) by (simp add: ring_pair_laws_def)
  from callback_step_ok [OF this assms(2,3), of "pi_callback s" "pi_ring s" "pi_hardware s"] callback_runs inv
  have "callback_inv pushed room mode hw cb q (pi_hardware s)" by (simp add: pipeline_inv_def)
  with callback_runs inv callback_step_popped [OF assms(1) callback_runs(2)] show ?thesis
    by (simp add: pipeline_inv_def)
next
  case (analyser_runs a q)
  with pipeline_turn [OF assms(1) inv] show ?thesis by auto
qed

text \<open>
  The start of the two threads, after the checks of \<^verbatim>\<open>bootstrap\<close>: an empty ring, a callback that has
  not been called, an analyser for the selected channels.
\<close>

definition pipeline_starts ::
  "('s, 'conn, 'l, 'k) host \<Rightarrow> app_config \<Rightarrow> ('q \<Rightarrow> f32 list) \<Rightarrow> ('w, raw_payload) watch_ops
    \<Rightarrow> (nat \<Rightarrow> vocoder_config \<Rightarrow> 'f vocoder option) \<Rightarrow> channel_mode \<Rightarrow> specs \<Rightarrow> nat
    \<Rightarrow> ('f, 'w, 'q) pipeline \<Rightarrow> bool" where
  "pipeline_starts h config pushed W nv mode specs hw s \<longleftrightarrow>
     (\<exists>res midi tx. boot_resolve h config = Inr (res, midi) \<and> 0 < sp_channels (ri_hw_specs res) \<and>
        (case ri_analyse_channels res of Some indices \<Rightarrow> distinct indices \<and> indices \<noteq> [] | None \<Rightarrow> True) \<and>
        channel_mode_resolve (ri_analyse_channels res) (ri_hw_specs res) = (mode, specs) \<and>
        hw = unat (sp_channels (ri_hw_specs res)) \<and> samples_for_ms specs CHUNK_SIZE_MS \<noteq> 0 \<and>
        watch_laws W \<and> length (rp_channels (w_borrow W tx)) = unat (sp_channels specs) \<and>
        analyser_new nv specs tx (ac_vocoder_config config) = Some (pi_analyser s)) \<and>
     pushed (pi_ring s) = [] \<and> pi_callback s = CbIdle \<and> pi_hardware s = []"

lemma pipeline_starts_facts:
  assumes "pipeline_starts h config pushed W nv mode specs hw s"
  shows "0 < hw" "mode_fits mode hw" "frame_size mode hw = unat (sp_channels specs)"
    "an_inv W (frame_size mode hw) (pi_analyser s)"
    "an_follows B z (frame_size mode hw) (st_analysers (pi_analyser s)) [] (pi_analyser s)"
proof -
  from assms obtain res midi tx where r: "boot_resolve h config = Inr (res, midi)"
      "0 < sp_channels (ri_hw_specs res)"
      "case ri_analyse_channels res of Some indices \<Rightarrow> distinct indices \<and> indices \<noteq> [] | None \<Rightarrow> True"
      "channel_mode_resolve (ri_analyse_channels res) (ri_hw_specs res) = (mode, specs)"
      "hw = unat (sp_channels (ri_hw_specs res))" "samples_for_ms specs CHUNK_SIZE_MS \<noteq> 0"
      "watch_laws W" "length (rp_channels (w_borrow W tx)) = unat (sp_channels specs)"
      "analyser_new nv specs tx (ac_vocoder_config config) = Some (pi_analyser s)"
    unfolding pipeline_starts_def by blast
  show "0 < hw" using r(2,5) by (simp add: word_less_nat_alt)
  from channel_mode_ready [OF boot_resolve_Inr(5) [OF r(1)] r(3,2,4)] r(5)
  show "mode_fits mode hw" and n: "frame_size mode hw = unat (sp_channels specs)" by simp_all
  from analyser_new_ok [OF r(9,7,8,6), of B z]
  show "an_inv W (frame_size mode hw) (pi_analyser s)"
    "an_follows B z (frame_size mode hw) (st_analysers (pi_analyser s)) [] (pi_analyser s)"
    unfolding n by simp_all
qed

lemma pipeline_starts_inv:
  assumes "ring_pair_laws P C pushed popped room" "pipeline_starts h config pushed W nv mode specs hw s"
  shows "pipeline_inv pushed popped room B z W mode hw (st_analysers (pi_analyser s)) s"
proof -
  have s: "pushed (pi_ring s) = []" "pi_callback s = CbIdle" "pi_hardware s = []"
    using assms(2) by (simp_all add: pipeline_starts_def)
  have "prefix (popped (pi_ring s)) (pushed (pi_ring s))" using assms(1) by (simp add: ring_pair_laws_def)
  then have "popped (pi_ring s) = []" by (simp add: s)
  then show ?thesis
    using pipeline_starts_facts(4,5) [OF assms(2)]
    by (auto simp: pipeline_inv_def callback_inv_def s intro!: exI [of _ "[]"])
qed

interpretation pipe: transition_system
  "\<lambda>s. ring_pair_laws P C pushed popped room \<and> pipeline_starts h config pushed W nv mode specs hw s \<and>
     vocs = st_analysers (pi_analyser s)"
  "pipeline_step P C B z W mode hw"
  "\<lambda>s. ring_pair_laws P C pushed popped room \<and> 0 < hw \<and> mode_fits mode hw \<and>
     pipeline_inv pushed popped room B z W mode hw vocs s"
  for P C pushed popped room h config W nv mode specs hw B z vocs
  by unfold_locales (auto simp: pipeline_starts_facts pipeline_starts_inv intro: pipeline_step_inv)

text \<open>What the analyser has received is whole frames of the selection, up to a torn one at the end.\<close>

lemma received_frames:
  assumes "callback_inv pushed room mode hw cb q frames" "prefix (popped q) (pushed q)"
  shows "\<exists>kept. subseq kept frames \<and> prefix (popped q) (concat (map (pick mode) kept)) \<and>
    (\<forall>fr \<in> set kept. length fr = hw)"
proof -
  from assms(1) obtain seen todo kept partial where k: "frames = seen @ todo" "subseq kept seen"
    "\<forall>fr \<in> set frames. length fr = hw"
    "callback_owes mode hw (room q) todo cb partial" "pushed q = concat (map (pick mode) kept) @ partial"
    unfolding callback_inv_def by blast
  have "\<exists>more. subseq (kept @ more) frames \<and> prefix (pushed q) (concat (map (pick mode) (kept @ more)))"
  proof (cases cb)
    case (CbWrite rest f fs)
    with k(4) obtain wrote where w: "todo = f # fs" "mode = Selected (wrote @ rest)"
      "partial = map (\<lambda>i. f ! unat i) wrote" by auto
    have "subseq (kept @ [f]) ((seen @ [f]) @ fs)" by (intro subseq_snoc k(2))
    with w k(1,5) show ?thesis by (intro exI [of _ "[f]"]) (simp add: pick.simps)
  qed (use k subseq_snoc(1) [OF k(2), of todo] in \<open>auto intro!: exI [of _ "[]"]\<close>)
  then obtain more where m: "subseq (kept @ more) frames"
    "prefix (pushed q) (concat (map (pick mode) (kept @ more)))" by blast
  have "\<forall>fr \<in> set (kept @ more). length fr = hw" using k(3) m(1) by (auto dest: list_emb_set)
  with m assms(2) show ?thesis by (meson prefix_order.trans)
qed

lemma column_received:
  assumes "0 < n" "\<forall>fr \<in> set frames. length fr = n" "prefix xs (concat frames)"
  shows "column n ch xs = map (\<lambda>fr. fr ! ch) (take (length xs div n) frames)"
proof -
  from assms(3) obtain ys where "concat frames = xs @ ys" by (elim prefixE)
  then have "frames = chunks_exact n xs @ chunks_exact n (drop (length xs div n * n) xs @ ys)"
    using chunks_exact_append [OF assms(1), of xs ys] chunks_exact_frames [OF assms(1,2)] by simp
  then have "take (length xs div n) frames = chunks_exact n xs"
    using chunks_exact_count [OF assms(1), of xs] by (metis append_eq_conv_conj)
  then show ?thesis by (simp add: column_def)
qed

lemma pick_length: "length fr = hw \<Longrightarrow> length (pick mode fr) = frame_size mode hw"
  by (cases mode) (simp_all add: pick.simps)

text \<open>
  Claim C2. From the hardware to the filter bank: on a configuration the start has accepted, whatever
  data the driver delivers and however the accesses of the audio callback and the turns of the
  analyser interleave on the ring, neither thread panics, and the analyser of each channel is in the
  state of one pass over that channel's own samples: those of some of the hardware's whole frames, in
  their order, never of a torn frame and never of another channel.
\<close>

theorem channels_end_to_end:
  assumes "ring_pair_laws P C pushed popped room" "pipeline_starts h config pushed W nv mode specs hw s0"
    and "(pipeline_step P C B z W mode hw)\<^sup>*\<^sup>* s0 s"
  shows "(\<exists>next. callback_step P (selection_of mode) hw (pi_callback s) (pi_ring s) = Some next) \<and>
    (\<exists>next. analyser_turn B z W C (pi_analyser s, pi_ring s) = Some next) \<and>
    (\<exists>kept. subseq kept (pi_hardware s) \<and> prefix (popped (pi_ring s)) (concat (map (pick mode) kept)) \<and>
      (\<forall>ch < unat (sp_channels specs). st_analysers (pi_analyser s) ! ch =
         foldl (sample_step B z) (st_analysers (pi_analyser s0) ! ch)
           (map (\<lambda>fr. pick mode fr ! ch)
             (take (length (popped (pi_ring s)) div unat (sp_channels specs)) kept))))"
proof -
  let ?n = "unat (sp_channels specs)" and ?vocs = "st_analysers (pi_analyser s0)"
  have "ring_pair_laws P C pushed popped room \<and> 0 < hw \<and> mode_fits mode hw \<and>
      pipeline_inv pushed popped room B z W mode hw ?vocs s"
    by (rule pipe.steps_inv [OF assms(3)])
      (use assms(1,2) in \<open>simp add: pipeline_starts_facts pipeline_starts_inv\<close>)
  then have inv: "pipeline_inv pushed popped room B z W mode hw ?vocs s" and hw: "0 < hw" "mode_fits mode hw"
    by simp_all
  have laws: "producer_laws P pushed room" "prefix (popped (pi_ring s)) (pushed (pi_ring s))"
    using assms(1) by (simp_all add: ring_pair_laws_def)
  have n: "frame_size mode hw = ?n" by (rule pipeline_starts_facts(3) [OF assms(2)])
  have cb: "callback_inv pushed room mode hw (pi_callback s) (pi_ring s) (pi_hardware s)"
    and fol: "an_follows B z ?n ?vocs (popped (pi_ring s)) (pi_analyser s)" and "0 < ?n"
    using inv by (simp_all add: pipeline_inv_def n an_inv_def)
  from received_frames [where popped = popped, OF cb laws(2)] obtain kept where kept: "subseq kept (pi_hardware s)"
    "prefix (popped (pi_ring s)) (concat (map (pick mode) kept))" "\<forall>fr \<in> set kept. length fr = hw" by blast
  have "\<forall>fr \<in> set (map (pick mode) kept). length fr = ?n" using kept(3) by (auto simp: pick_length n)
  note col = column_received [OF \<open>0 < ?n\<close> this kept(2)]
  show ?thesis
  proof (intro conjI exI [of _ kept] allI impI kept(1,2))
    show "\<exists>next. callback_step P (selection_of mode) hw (pi_callback s) (pi_ring s) = Some next"
      using callback_step_ok [OF laws(1) hw cb] by blast
    show "\<exists>next. analyser_turn B z W C (pi_analyser s, pi_ring s) = Some next"
      using pipeline_turn [OF assms(1) inv] by blast
    fix ch assume "ch < ?n"
    with fol show "st_analysers (pi_analyser s) ! ch = foldl (sample_step B z) (?vocs ! ch)
        (map (\<lambda>fr. pick mode fr ! ch) (take (length (popped (pi_ring s)) div ?n) kept))"
      by (simp add: an_follows_def col take_map comp_def)
  qed
qed

section \<open>A run\<close>

text \<open>A ring of a capacity, with what was taken out and what is queued.\<close>

type_synonym pair_ring = "nat \<times> f32 list \<times> f32 list"

definition pair_producer :: "pair_ring producer_ops" where
  "pair_producer = \<lparr>pr_vacant_len = (\<lambda>(c, out, queue). ((c, out, queue), c - length queue)),
     pr_push_slice = (\<lambda>(c, out, queue) xs. ((c, out, queue @ take (c - length queue) xs),
       min (c - length queue) (length xs))),
     pr_try_push = (\<lambda>(c, out, queue) x. if length queue < c then ((c, out, queue @ [x]), True)
       else ((c, out, queue), False))\<rparr>"

definition pair_consumer :: "pair_ring consumer_ops" where
  "pair_consumer = \<lparr>cn_is_empty = (\<lambda>(c, out, queue). queue = []),
     cn_pop_slice = (\<lambda>(c, out, queue) n. ((c, out @ take n queue, drop n queue), take n queue))\<rparr>"

definition pair_pushed :: "pair_ring \<Rightarrow> f32 list" where
  "pair_pushed q = fst (snd q) @ snd (snd q)"

definition pair_popped :: "pair_ring \<Rightarrow> f32 list" where
  "pair_popped q = fst (snd q)"

definition pair_room :: "pair_ring \<Rightarrow> nat" where
  "pair_room q = fst q - length (snd (snd q))"

lemma pair_laws: "ring_pair_laws pair_producer pair_consumer pair_pushed pair_popped pair_room"
  by (auto simp: ring_pair_laws_def producer_laws_def pair_producer_def pair_consumer_def pair_pushed_def
      pair_popped_def pair_room_def take_min_length split: prod.splits if_splits)

text \<open>Two of four channels; the callback has written the first of two frames and the analyser has a turn.\<close>

definition duet_specs :: specs where
  "duet_specs = \<lparr>sp_channels = 2, sp_sample_rate = 48000\<rparr>"

lemma duet_pipeline_starts:
  "\<exists>a. st_analysers a = [demo_bank, demo_bank] \<and> st_pending a = 0 \<and> 2 \<le> length (st_transfer_buffer a) \<and>
     pipeline_starts (demo_host open_listener) duet_config pair_pushed cell_watch (\<lambda>_ _. Some demo_bank)
       (Selected [1, 3]) duet_specs 4
       \<lparr>pi_ring = (64, [], []), pi_callback = CbIdle, pi_analyser = a, pi_hardware = []\<rparr>"
proof -
  have s: "samples_for_ms duet_specs CHUNK_SIZE_MS \<noteq> 0"
    by (simp add: samples_for_ms_exact duet_specs_def CHUNK_SIZE_MS_def)
  have channels: "unat (sp_channels duet_specs) = 2" by (simp add: duet_specs_def)
  have two: "replicate 2 x = [x, x]" for x :: "unit vocoder" by (simp add: numeral_2_eq_2)
  obtain len where len: "frame_aligned_samples_for_ms duet_specs CHUNK_SIZE_MS = Some len" "2 \<le> len"
    by (simp add: frame_aligned_samples_for_ms_def samples_for_ms_exact duet_specs_def CHUNK_SIZE_MS_def div_ceil_def)
  then obtain a where a: "analyser_new (\<lambda>_ _. Some demo_bank) duet_specs (raw_payload_new 2)
      (ac_vocoder_config duet_config) = Some a" "st_analysers a = [demo_bank, demo_bank]" "st_pending a = 0"
      "2 \<le> length (st_transfer_buffer a)"
    by (simp add: analyser_new_def Let_def channels two)
  have "channel_mode_resolve (ri_analyse_channels duet_input) (ri_hw_specs duet_input) = (Selected [1, 3], duet_specs)"
    by (simp add: duet_mode duet_specs_def)
  moreover have "0 < sp_channels (ri_hw_specs duet_input)" "4 = unat (sp_channels (ri_hw_specs duet_input))"
    "case ri_analyse_channels duet_input of Some indices \<Rightarrow> distinct indices \<and> indices \<noteq> [] | None \<Rightarrow> True"
    "unat (sp_channels duet_specs) = 2"
    by (simp_all add: duet_input_def duet_specs_def)
  ultimately show ?thesis
    using duet_resolve [of open_listener] s a cell_watch_laws
    by (intro exI [of _ a]) (auto simp: pipeline_starts_def pair_pushed_def intro!: exI [of _ duet_input] exI [of _ "raw_payload_new 2"])
qed

lemma analyser_turn_ring:
  "analyser_turn B z W C (a, q) = Some (a', q') \<Longrightarrow>
     q' = fst (cn_pop_slice C q (length (st_transfer_buffer a) - st_pending a))"
  by (auto simp: analyser_turn_def Let_def split: prod.splits if_splits)

theorem channels_end_to_end_witness:
  "\<exists>(s0 :: (unit, raw_payload, pair_ring) pipeline) s.
     (pipeline_step pair_producer pair_consumer pass_ops True cell_watch (Selected [1, 3]) 4)\<^sup>*\<^sup>* s0 s \<and>
     pi_hardware s = [[1, 2, 3, 4], [5, 6, 7, 8]] \<and> pair_popped (pi_ring s) = [2, 4] \<and>
     st_analysers (pi_analyser s) ! 1 = sample_step pass_ops True demo_bank 4"
proof -
  let ?step = "pipeline_step pair_producer pair_consumer pass_ops True cell_watch (Selected [1, 3]) 4"
  obtain a where a: "st_analysers a = [demo_bank, demo_bank]" "st_pending a = 0" "2 \<le> length (st_transfer_buffer a)"
    and starts: "pipeline_starts (demo_host open_listener) duet_config pair_pushed cell_watch (\<lambda>_ _. Some demo_bank)
       (Selected [1, 3]) duet_specs 4
       \<lparr>pi_ring = (64, [], []), pi_callback = CbIdle, pi_analyser = a, pi_hardware = []\<rparr>" (is "pipeline_starts _ _ _ _ _ _ _ _ ?start")
    using duet_pipeline_starts by blast
  define st :: "callback \<Rightarrow> f32 list \<Rightarrow> (unit, raw_payload, pair_ring) pipeline" where "st cb queue = \<lparr>pi_ring = (64, [], queue), pi_callback = cb, pi_analyser = a,
    pi_hardware = [[1, 2, 3, 4], [5, 6, 7, 8]]\<rparr>" for cb queue
  have frames: "chunks_exact 4 [1, 2, 3, 4, 5, 6, 7, 8] = [[1, 2, 3, 4], [5, 6, 7, 8 :: f32]]"
    by (simp add: chunks_exact.simps)
  have "?step ?start (st (CbScan [[1, 2, 3, 4], [5, 6, 7, 8]]) [])"
    using driver_calls [of ?start _ _ _ _ _ "Selected [1, 3]" 4 "[1, 2, 3, 4, 5, 6, 7, 8]"]
    by (simp add: st_def callback_begin_def frames)
  moreover have run: "callback_step pair_producer [1, 3] 4 cb (64, [], queue) = Some (cb', (64, [], queue')) \<Longrightarrow>
      ?step (st cb queue) (st cb' queue')" for cb queue cb' queue'
    using callback_runs [of pair_producer "Selected [1, 3]" 4 "st cb queue"] by (simp add: st_def selection_of_def)
  have "?step (st (CbScan [[1, 2, 3, 4], [5, 6, 7, 8]]) []) (st (CbWrite [1, 3] [1, 2, 3, 4] [[5, 6, 7, 8]]) [])"
    "?step (st (CbWrite [1, 3] [1, 2, 3, 4] [[5, 6, 7, 8]]) []) (st (CbWrite [3] [1, 2, 3, 4] [[5, 6, 7, 8]]) [2])"
    "?step (st (CbWrite [3] [1, 2, 3, 4] [[5, 6, 7, 8]]) [2]) (st (CbWrite [] [1, 2, 3, 4] [[5, 6, 7, 8]]) [2, 4])"
    by (rule run, simp add: pair_producer_def)+
  ultimately have reach: "?step\<^sup>*\<^sup>* ?start (st (CbWrite [] [1, 2, 3, 4] [[5, 6, 7, 8]]) [2, 4])"
    by (meson rtranclp.rtrancl_into_rtrancl rtranclp.rtrancl_refl)
  let ?mid = "st (CbWrite [] [1, 2, 3, 4] [[5, 6, 7, 8]]) [2, 4]"
  from channels_end_to_end [OF pair_laws starts reach] obtain a' q where
    turn: "analyser_turn pass_ops True cell_watch pair_consumer (pi_analyser ?mid, pi_ring ?mid) = Some (a', q)" by auto
  let ?final = "?mid\<lparr>pi_analyser := a', pi_ring := q\<rparr>"
  have "q = (64, [2, 4], [])" using analyser_turn_ring [OF turn] a by (simp add: st_def pair_consumer_def)
  have "?step ?mid ?final" by (rule analyser_runs [OF turn])
  with reach have last: "?step\<^sup>*\<^sup>* ?start ?final" by (rule rtranclp.rtrancl_into_rtrancl)
  from channels_end_to_end [OF pair_laws starts last] \<open>q = _\<close> a obtain kept where
    kept: "subseq kept [[1, 2, 3, 4], [5, 6, 7, 8]]" "prefix [2, 4] (concat (map (pick (Selected [1, 3])) kept))"
    "st_analysers a' ! 1 = foldl (sample_step pass_ops True) demo_bank
      (map (\<lambda>fr. pick (Selected [1, 3]) fr ! 1) (take 1 kept))"
    by (auto simp: st_def pair_popped_def duet_specs_def)
  have "pick (Selected [1, 3]) (hd kept) ! 1 = 4 \<and> kept \<noteq> []"
  proof (cases kept)
    case Nil
    with kept(2) show ?thesis by simp
  next
    case (Cons f rest)
    then have "f = [1, 2, 3, 4] \<or> f = [5, 6, 7, 8]" using list_emb_set [OF kept(1), of f] by auto
    with Cons kept(2) show ?thesis by (auto simp: pick.simps)
  qed
  then have "st_analysers a' ! 1 = sample_step pass_ops True demo_bank 4"
    using kept(3) by (cases kept) auto
  with last \<open>q = _\<close> show ?thesis
    by (intro exI [of _ ?start] exI [of _ ?final]) (simp add: st_def pair_popped_def)
qed

end
