(* ===== verification/App.thy ===== *)
theory App
  imports Bootstrap
begin

text \<open>
  The application of \<^verbatim>\<open>src/src/app.rs\<close>: its construction, the headless wait loop and the teardown.
  The loop's inputs come from other threads, so a run is given by what they do between its loads.
  A value None of a loop means that it is still waiting; the teardown is a list of effects.
\<close>

section \<open>The application\<close>

definition HEADLESS_POLL_RATE_MS :: nat where
  "HEADLESS_POLL_RATE_MS = 50"

definition ENGINE_STOPPED_MESSAGE :: string where
  "ENGINE_STOPPED_MESSAGE = ''The engine stopped without a shutdown request.''"

text \<open>
  \<open>ap_input_device\<close> is the owned input with its stream, if it has one; the controller is present or
  not, its state is the application's.
\<close>

record 's app =
  ap_input_device :: "'s option option"
  ap_state :: app_state
  ap_workers :: workers
  ap_controller :: bool
  ap_shutdown_started :: bool
  ap_ws_bound_addr :: "socket_addr option"
  ap_ready_report :: ready_report

fun find_osc :: "output_config list \<Rightarrow> socket_addr option" where
  "find_osc [] = None"
| "find_osc (Osc addr # outputs) = Some addr"
| "find_osc (WebSocket addr n b # outputs) = find_osc outputs"
| "find_osc (FrameRegion slot # outputs) = find_osc outputs"

definition app_midi_device :: "app_config \<Rightarrow> rstring option" where
  "app_midi_device config = (case ac_midi_input config of
       Some (MidiDevice name) \<Rightarrow> Some name
     | Some (TestClock bpm) \<Rightarrow> None
     | None \<Rightarrow> None)"

text \<open>The world of the start comes back with the result: it holds the clock and, on failure, the joins.\<close>

definition app_build ::
  "(nat \<Rightarrow> nat) \<Rightarrow> ('s, 'conn, 'l, 'k) host \<Rightarrow> app_config \<Rightarrow> bool \<Rightarrow> 's boot_world
    \<Rightarrow> ('s boot_world \<times> (any_error + 's app)) option" where
  "app_build delay h config interactive w =
     Option.bind (bootstrap delay h config w) (\<lambda>(w, r). Some (w, and_then r (\<lambda>b. Inr
       \<lparr>ap_input_device = Some (bw_stream w), ap_state = bw_state w, ap_workers = bw_workers w,
        ap_controller = interactive, ap_shutdown_started = False,
        ap_ws_bound_addr = bo_ws_bound_addr b,
        ap_ready_report = \<lparr>rr_audio = bo_audio b, rr_midi_device = app_midi_device config,
          rr_outputs = \<lparr>ro_websocket = bo_ws_bound_addr b, ro_osc = find_osc (ac_outputs config)\<rparr>\<rparr>\<rparr>)))"

definition app_new ::
  "(nat \<Rightarrow> nat) \<Rightarrow> ('s, 'conn, 'l, 'k) host \<Rightarrow> app_config \<Rightarrow> 's boot_world
    \<Rightarrow> ('s boot_world \<times> (any_error + 's app)) option" where
  "app_new delay h config w = app_build delay h config True w"

definition app_new_headless ::
  "(nat \<Rightarrow> nat) \<Rightarrow> ('s, 'conn, 'l, 'k) host \<Rightarrow> app_config \<Rightarrow> 's boot_world
    \<Rightarrow> ('s boot_world \<times> (any_error + 's app)) option" where
  "app_new_headless delay h config w = app_build delay h config False w"

section \<open>Teardown\<close>

datatype process_effect =
    InputTaken
  | RunFlagCleared
  | WorkerJoined string join_outcome
  | EventWritten event bool
  | RawMode bool

definition app_shutdown ::
  "(nat \<Rightarrow> nat) \<Rightarrow> 's app \<Rightarrow> clock \<Rightarrow> 's app \<times> process_effect list \<times> clock" where
  "app_shutdown delay app clk =
     (if ap_shutdown_started app then (app, [], clk)
      else case workers_shutdown delay (ap_workers app) clk of (registered, lines, joined, clk') \<Rightarrow>
        (app\<lparr>ap_shutdown_started := True, ap_input_device := None,
           ap_state := (ap_state app)\<lparr>as_keep_running := False\<rparr>, ap_workers := registered\<rparr>,
         [InputTaken, RunFlagCleared] @ map (\<lambda>(name, outcome). WorkerJoined name outcome) joined, clk'))"

text \<open>
  Dropping the application shuts it down and then drops its fields; a controller that is dropped
  leaves raw mode.
\<close>

definition app_drop :: "(nat \<Rightarrow> nat) \<Rightarrow> 's app \<Rightarrow> clock \<Rightarrow> process_effect list \<times> clock" where
  "app_drop delay app clk = (case app_shutdown delay app clk of (app, effects, clk) \<Rightarrow>
     (effects @ (if ap_controller app then [RawMode False] else []), clk))"

section \<open>The wait loop\<close>

text \<open>
  What other threads do to the state the loop reads. A stream error is recorded under the mutex
  before the flag is cleared, so the two are events of their own.
\<close>

datatype run_input =
    SignalArrives
  | StdinEnds
  | StreamErrorRecorded rstring
  | RunCleared

record run_vars =
  rv_state :: app_state
  rv_shutdown_requested :: bool
  rv_stdin_closed :: bool

fun apply_input :: "run_input \<Rightarrow> run_vars \<Rightarrow> run_vars" where
  "apply_input SignalArrives v = v\<lparr>rv_shutdown_requested := True\<rparr>"
| "apply_input StdinEnds v = v\<lparr>rv_stdin_closed := True\<rparr>"
| "apply_input (StreamErrorRecorded m) v = v\<lparr>rv_state := (rv_state v)\<lparr>as_hardware_stream_error :=
     Some (case as_hardware_stream_error (rv_state v) of Some first \<Rightarrow> first | None \<Rightarrow> m)\<rparr>\<rparr>"
| "apply_input RunCleared v = v\<lparr>rv_state := (rv_state v)\<lparr>as_keep_running := False\<rparr>\<rparr>"

definition engine_failure :: "app_state \<Rightarrow> app_state \<times> any_error option" where
  "engine_failure s =
     (if as_keep_running s then (s, None)
      else case take_hardware_stream_error s of (s, taken) \<Rightarrow>
        (s, Some (case taken of
             Some message \<Rightarrow> any_of (RDevice (HardwareStreamError message))
           | None \<Rightarrow> any_message ENGINE_STOPPED_MESSAGE)))"

text \<open>
  One turn of the loop: the inputs before each of its three loads, and those between the last load
  and the next step. None of the result is a loop that still waits.
\<close>

record headless_poll =
  hp_before_signal :: "run_input list"
  hp_before_stdin :: "run_input list"
  hp_before_running :: "run_input list"
  hp_after :: "run_input list"

fun headless_loop ::
  "headless_poll list \<Rightarrow> run_vars \<Rightarrow> (run_vars \<times> (any_error + shutdown_reason)) option" where
  "headless_loop [] v = None"
| "headless_loop (p # ps) v =
     (let v = fold apply_input (hp_before_signal p) v; signal_received = rv_shutdown_requested v;
          v = fold apply_input (hp_before_stdin p) v; stdin_closed = rv_stdin_closed v;
          v = fold apply_input (hp_before_running p) v; keep_running = as_keep_running (rv_state v);
          v = fold apply_input (hp_after p) v
      in case headless_stop signal_received stdin_closed keep_running of
           Some (Requested reason) \<Rightarrow>
             Some (v\<lparr>rv_state := (rv_state v)\<lparr>as_keep_running := False\<rparr>\<rparr>, Inr reason)
         | Some Engine \<Rightarrow> (case engine_failure (rv_state v) of (s, failure) \<Rightarrow>
             Some (v\<lparr>rv_state := s\<rparr>, Inl (unwrap_or failure (any_message ENGINE_STOPPED_MESSAGE))))
         | None \<Rightarrow> headless_loop ps v)"

text \<open>The environment of a headless run; signals are named by their numbers.\<close>

definition SIGINT :: nat where
  "SIGINT = 2"

definition SIGTERM :: nat where
  "SIGTERM = 15"

record headless_env =
  he_register :: "nat \<Rightarrow> any_error + unit"
  he_watch_stdin :: "any_error + unit"
  he_polls :: "headless_poll list"

fun register_signals :: "(nat \<Rightarrow> any_error + unit) \<Rightarrow> nat list \<Rightarrow> any_error + unit" where
  "register_signals register [] = Inr ()"
| "register_signals register (signal # signals) =
     and_then (with_context_text (lit ''Failed to register signal handler for '' @ show_nat signal)
         (register signal))
       (\<lambda>_. register_signals register signals)"

definition app_run_headless ::
  "headless_env \<Rightarrow> 's app \<Rightarrow> ('s app \<times> (any_error + shutdown_reason)) option" where
  "app_run_headless E app =
     (case and_then (register_signals (he_register E) [SIGINT, SIGTERM])
        (\<lambda>_. with_context ''Failed to start the stdin watcher'' (he_watch_stdin E)) of
        Inl e \<Rightarrow> Some (app, Inl e)
      | Inr u \<Rightarrow> Option.bind
          (headless_loop (he_polls E)
            \<lparr>rv_state = ap_state app, rv_shutdown_requested = False, rv_stdin_closed = False\<rparr>)
          (\<lambda>(v, r). Some (app\<lparr>ap_state := rv_state v\<rparr>, r)))"

definition run_headless_until_shutdown ::
  "(nat \<Rightarrow> nat) \<Rightarrow> headless_env \<Rightarrow> 's app \<Rightarrow> clock
    \<Rightarrow> ('s app \<times> process_effect list \<times> clock \<times> (any_error + shutdown_reason)) option" where
  "run_headless_until_shutdown delay E app clk =
     Option.bind (app_run_headless E app) (\<lambda>(app, run_result).
       case app_shutdown delay app clk of (app, effects, clk) \<Rightarrow> Some (app, effects, clk, run_result))"

section \<open>What the wait loop reports\<close>

fun first_recorded :: "run_input list \<Rightarrow> rstring option" where
  "first_recorded [] = None"
| "first_recorded (StreamErrorRecorded m # is) = Some m"
| "first_recorded (i # is) = first_recorded is"

text \<open>The flag is cleared by a thread that has recorded its error before.\<close>

fun orderly :: "bool \<Rightarrow> run_input list \<Rightarrow> bool" where
  "orderly recorded [] = True"
| "orderly recorded (StreamErrorRecorded m # is) = orderly True is"
| "orderly recorded (RunCleared # is) = (recorded \<and> orderly recorded is)"
| "orderly recorded (i # is) = orderly recorded is"

lemma fail_hardware_stream_inputs:
  "rv_state (fold apply_input [StreamErrorRecorded m, RunCleared] v) = fail_hardware_stream m (rv_state v)"
  by (simp add: fail_hardware_stream_def Let_def)

lemma orderly_recorded:
  "orderly recorded is \<Longrightarrow> RunCleared \<in> set is \<Longrightarrow> recorded \<or> first_recorded is \<noteq> None"
  by (induction recorded "is" rule: orderly.induct) auto

lemma orderly_prefix: "orderly recorded (is @ js) \<Longrightarrow> orderly recorded is"
  by (induction recorded "is" rule: orderly.induct) auto

lemma first_recorded_append:
  "first_recorded (is @ js) = opt_or (first_recorded is) (first_recorded js)"
  by (induction "is" rule: first_recorded.induct) (auto simp: opt_or_def)

definition reads_inputs :: "run_input list \<Rightarrow> run_vars \<Rightarrow> bool" where
  "reads_inputs is v \<longleftrightarrow> rv_shutdown_requested v = (SignalArrives \<in> set is) \<and>
     rv_stdin_closed v = (StdinEnds \<in> set is) \<and> as_keep_running (rv_state v) = (RunCleared \<notin> set is) \<and>
     as_hardware_stream_error (rv_state v) = first_recorded is"

lemma reads_inputs_step: "reads_inputs is v \<Longrightarrow> reads_inputs (is @ [i]) (apply_input i v)"
  by (cases i) (auto simp: reads_inputs_def first_recorded_append opt_or_def split: option.splits)

lemma reads_inputs_fold: "reads_inputs is v \<Longrightarrow> reads_inputs (is @ js) (fold apply_input js v)"
proof (induction js arbitrary: "is" v)
  case (Cons i js)
  from Cons.IH [OF reads_inputs_step [OF Cons.prems]] show ?case by simp
qed simp

definition poll_inputs :: "headless_poll \<Rightarrow> run_input list" where
  "poll_inputs p = hp_before_signal p @ hp_before_stdin p @ hp_before_running p @ hp_after p"

definition stop_reason_seen :: "run_input list \<Rightarrow> any_error + shutdown_reason \<Rightarrow> bool" where
  "stop_reason_seen is r = (case r of
       Inr Signal \<Rightarrow> SignalArrives \<in> set is
     | Inr StdinClosed \<Rightarrow> StdinEnds \<in> set is
     | Inl e \<Rightarrow> map_option (\<lambda>m. any_of (RDevice (HardwareStreamError m))) (first_recorded is) = Some e)"

lemma engine_failure_reads:
  assumes "reads_inputs is v" "orderly False is" "RunCleared \<in> set is"
  obtains s m where "engine_failure (rv_state v) = (s, Some (any_of (RDevice (HardwareStreamError m))))"
    "first_recorded is = Some m" "\<not> as_keep_running s"
proof -
  from orderly_recorded [OF assms(2,3)] obtain m where m: "first_recorded is = Some m" by auto
  with assms(1,3) have "as_hardware_stream_error (rv_state v) = Some m" "\<not> as_keep_running (rv_state v)"
    by (simp_all add: reads_inputs_def)
  with m that show thesis by (simp add: engine_failure_def take_hardware_stream_error_def)
qed

lemma headless_loop_reason:
  assumes "headless_loop ps v = Some (v', r)" "reads_inputs is v" "orderly False (is @ concat (map poll_inputs ps))"
  shows "stop_reason_seen (is @ concat (map poll_inputs ps)) r \<and> \<not> as_keep_running (rv_state v')"
  using assms
proof (induction ps arbitrary: v "is")
  case (Cons p ps)
  let ?v1 = "fold apply_input (hp_before_signal p) v"
  let ?v2 = "fold apply_input (hp_before_stdin p) ?v1"
  let ?v3 = "fold apply_input (hp_before_running p) ?v2"
  let ?v4 = "fold apply_input (hp_after p) ?v3"
  let ?is4 = "is @ poll_inputs p"
  let ?all = "is @ concat (map poll_inputs (p # ps))"
  note r1 = reads_inputs_fold [OF Cons.prems(2), of "hp_before_signal p"]
  note r2 = reads_inputs_fold [OF r1, of "hp_before_stdin p"]
  note r3 = reads_inputs_fold [OF r2, of "hp_before_running p"]
  note r4 = reads_inputs_fold [OF r3, of "hp_after p", folded append_assoc]
  have r4: "reads_inputs ?is4 ?v4" using r4 by (simp add: poll_inputs_def)
  have ord: "orderly False ?is4" using Cons.prems(3) orderly_prefix [of False ?is4 "concat (map poll_inputs ps)"] by simp
  have seen1: "rv_shutdown_requested ?v1 \<Longrightarrow> SignalArrives \<in> set ?all"
    using r1 by (auto simp: reads_inputs_def poll_inputs_def)
  have seen2: "rv_stdin_closed ?v2 \<Longrightarrow> StdinEnds \<in> set ?all"
    using r2 by (auto simp: reads_inputs_def poll_inputs_def)
  have seen3: "\<not> as_keep_running (rv_state ?v3) \<Longrightarrow> RunCleared \<in> set ?is4"
    using r3 by (auto simp: reads_inputs_def poll_inputs_def)
  show ?case
  proof (cases "headless_stop (rv_shutdown_requested ?v1) (rv_stdin_closed ?v2) (as_keep_running (rv_state ?v3))")
    case None
    then have "headless_loop ps ?v4 = Some (v', r)" using Cons.prems(1) by (simp add: Let_def)
    from Cons.IH [OF this r4] Cons.prems(3) show ?thesis by simp
  next
    case (Some stop)
    show ?thesis
    proof (cases stop)
      case (Requested reason)
      with Some Cons.prems(1) have "r = Inr reason" "\<not> as_keep_running (rv_state v')"
        by (auto simp: Let_def)
      moreover have "reason = Signal \<and> rv_shutdown_requested ?v1 \<or> reason = StdinClosed \<and> rv_stdin_closed ?v2"
        using Some Requested by (auto simp: headless_stop_def split: if_splits)
      ultimately show ?thesis using seen1 seen2 by (auto simp: stop_reason_seen_def)
    next
      case Engine
      with Some have "\<not> as_keep_running (rv_state ?v3)" by (auto simp: headless_stop_def split: if_splits)
      from engine_failure_reads [OF r4 ord seen3 [OF this]] obtain s m where
        f: "engine_failure (rv_state ?v4) = (s, Some (any_of (RDevice (HardwareStreamError m))))"
        "first_recorded ?is4 = Some m" "\<not> as_keep_running s" .
      have "first_recorded ?all = Some m"
        using f(2) first_recorded_append [of ?is4 "concat (map poll_inputs ps)"] by (simp add: opt_or_def)
      with Some Engine Cons.prems(1) f show ?thesis
        by (auto simp: Let_def stop_reason_seen_def unwrap_or_def)
    qed
  qed
qed simp

lemma app_shutdown_first:
  assumes "app_shutdown delay app clk = (app', effects, clk')" "\<not> ap_shutdown_started app"
  shows "\<exists>joined. effects = [InputTaken, RunFlagCleared] @ map (\<lambda>(name, outcome). WorkerJoined name outcome) joined \<and>
    map fst joined = map (\<lambda>w. ws_name (fst w)) (ap_workers app) \<and> ap_shutdown_started app' \<and>
    ap_input_device app' = None \<and> ap_workers app' = [] \<and> \<not> as_keep_running (ap_state app')"
  using assms join_all_names [of delay "ap_workers app" clk]
  by (auto simp: app_shutdown_def workers_shutdown_def split: prod.splits)

lemma run_headless_until_shutdown_Some:
  "run_headless_until_shutdown delay E app clk = Some (app', effects, clk', r) \<longleftrightarrow>
     (\<exists>a. app_run_headless E app = Some (a, r) \<and> app_shutdown delay a clk = (app', effects, clk'))"
  by (auto simp: run_headless_until_shutdown_def bind_eq_Some_conv split_beta prod_eq_iff)

text \<open>
  Claim C22. Why a headless run ended. On a fresh application whose signal handlers and watcher could
  be set up, and with threads that record a stream error before they clear the flag, the run ends
  with a request only if that request was made, and otherwise with the first stream error that was
  recorded, never with the generic message; afterwards the input is released, the flag is clear and
  every worker was joined or detached, in that order.
\<close>

theorem headless_run_reason:
  assumes "run_headless_until_shutdown delay E app clk = Some (app', effects, clk', r)"
    and "register_signals (he_register E) [SIGINT, SIGTERM] = Inr ()" "he_watch_stdin E = Inr ()"
    and "as_keep_running (ap_state app)" "as_hardware_stream_error (ap_state app) = None"
    and "\<not> ap_shutdown_started app" "orderly False (concat (map poll_inputs (he_polls E)))"
  shows "stop_reason_seen (concat (map poll_inputs (he_polls E))) r \<and>
    (\<exists>joined. effects = [InputTaken, RunFlagCleared] @ map (\<lambda>(name, outcome). WorkerJoined name outcome) joined \<and>
      map fst joined = map (\<lambda>w. ws_name (fst w)) (ap_workers app)) \<and>
    ap_input_device app' = None \<and> ap_workers app' = [] \<and> \<not> as_keep_running (ap_state app')"
proof -
  let ?v0 = "\<lparr>rv_state = ap_state app, rv_shutdown_requested = False, rv_stdin_closed = False\<rparr>"
  have "app_run_headless E app = Option.bind (headless_loop (he_polls E) ?v0)
      (\<lambda>(v, r). Some (app\<lparr>ap_state := rv_state v\<rparr>, r))"
    unfolding app_run_headless_def assms(2,3) by simp
  with assms(1) obtain v where loop: "headless_loop (he_polls E) ?v0 = Some (v, r)"
    and down: "app_shutdown delay (app\<lparr>ap_state := rv_state v\<rparr>) clk = (app', effects, clk')"
    by (auto simp: run_headless_until_shutdown_Some bind_eq_Some_conv)
  have "reads_inputs [] ?v0" using assms(4,5) by (simp add: reads_inputs_def)
  from headless_loop_reason [OF loop this] assms(7) app_shutdown_first [OF down] assms(6)
  show ?thesis by auto
qed

text \<open>A run of two polls: nothing in the first, a failing stream before the load of the flag in the second.\<close>

definition quiet_poll :: headless_poll where
  "quiet_poll = \<lparr>hp_before_signal = [], hp_before_stdin = [], hp_before_running = [], hp_after = []\<rparr>"

definition demo_run_env :: "run_input list \<Rightarrow> headless_env" where
  "demo_run_env inputs = \<lparr>he_register = (\<lambda>s. Inr ()), he_watch_stdin = Inr (),
     he_polls = [quiet_poll, quiet_poll\<lparr>hp_before_running := inputs\<rparr>]\<rparr>"

definition demo_app :: "unit app" where
  "demo_app = \<lparr>ap_input_device = Some (Some ()), ap_state = app_state_default,
     ap_workers = demo_workers, ap_controller = False, ap_shutdown_started = False, ap_ws_bound_addr = None,
     ap_ready_report = \<lparr>rr_audio = \<lparr>ra_device = None, ra_sample_rate = 48000, ra_channels = [0]\<rparr>,
       rr_midi_device = None, rr_outputs = \<lparr>ro_websocket = None, ro_osc = None\<rparr>\<rparr>\<rparr>"

definition failing_stream :: "run_input list" where
  "failing_stream = [StreamErrorRecorded [1], StreamErrorRecorded [2], RunCleared]"

lemma register_all [simp]: "register_signals (\<lambda>s. Inr ()) signals = Inr ()"
  by (induction signals) (simp_all add: with_context_text_def)

lemma demo_run_env_simps [simp]:
  "he_register (demo_run_env inputs) = (\<lambda>s. Inr ())" "he_watch_stdin (demo_run_env inputs) = Inr ()"
  "he_polls (demo_run_env inputs) = [quiet_poll, quiet_poll\<lparr>hp_before_running := inputs\<rparr>]"
  by (simp_all add: demo_run_env_def)

lemma demo_run:
  "\<exists>app' fx clk' r. run_headless_until_shutdown delay (demo_run_env failing_stream) demo_app clk =
     Some (app', fx, clk', r)"
proof -
  have "\<exists>v r. headless_loop (he_polls (demo_run_env failing_stream))
      \<lparr>rv_state = ap_state demo_app, rv_shutdown_requested = False, rv_stdin_closed = False\<rparr> = Some (v, r)"
    by (simp add: quiet_poll_def headless_stop_def demo_app_def app_state_default_def failing_stream_def
        Let_def split: prod.splits)
  then show ?thesis
    by (auto simp: run_headless_until_shutdown_def app_run_headless_def simp del: headless_loop.simps
        split: prod.splits)
qed

theorem headless_run_reason_witness:
  "\<exists>app' fx clk' r. run_headless_until_shutdown (\<lambda>k. 5) (demo_run_env failing_stream) demo_app (0, 0) =
     Some (app', fx, clk', r) \<and> r = Inl (any_of (RDevice (HardwareStreamError [1]))) \<and>
     ap_input_device app' = None \<and> ap_workers app' = [] \<and> take 2 fx = [InputTaken, RunFlagCleared]"
proof -
  obtain app' fx clk' r where run: "run_headless_until_shutdown (\<lambda>k. 5) (demo_run_env failing_stream) demo_app (0, 0) =
     Some (app', fx, clk', r)" using demo_run by blast
  have "orderly False (concat (map poll_inputs (he_polls (demo_run_env failing_stream))))"
    "first_recorded (concat (map poll_inputs (he_polls (demo_run_env failing_stream)))) = Some [1]"
    "SignalArrives \<notin> set (concat (map poll_inputs (he_polls (demo_run_env failing_stream))))"
    "StdinEnds \<notin> set (concat (map poll_inputs (he_polls (demo_run_env failing_stream))))"
    by (simp_all add: demo_run_env_def poll_inputs_def quiet_poll_def failing_stream_def)
  moreover have "register_signals (he_register (demo_run_env failing_stream)) [SIGINT, SIGTERM] = Inr ()"
    "he_watch_stdin (demo_run_env failing_stream) = Inr ()" "as_keep_running (ap_state demo_app)"
    "as_hardware_stream_error (ap_state demo_app) = None" "\<not> ap_shutdown_started demo_app"
    by (simp_all add: demo_run_env_def demo_app_def app_state_default_def and_then_Inr with_context_text_def)
  ultimately show ?thesis
    using headless_run_reason [OF run] run
    by (auto simp: stop_reason_seen_def split: sum.splits shutdown_reason.splits)
qed

definition stopping :: "run_vars \<Rightarrow> bool" where
  "stopping v \<longleftrightarrow> rv_shutdown_requested v \<or> rv_stdin_closed v \<or> \<not> as_keep_running (rv_state v)"

definition stop_inputs :: "run_input set" where
  "stop_inputs = {SignalArrives, StdinEnds, RunCleared}"

text \<open>The flags a loop reads only move towards a stop.\<close>

definition flags_grow :: "run_vars \<Rightarrow> run_vars \<Rightarrow> bool" where
  "flags_grow v v' \<longleftrightarrow> (rv_shutdown_requested v \<longrightarrow> rv_shutdown_requested v') \<and>
     (rv_stdin_closed v \<longrightarrow> rv_stdin_closed v') \<and>
     (\<not> as_keep_running (rv_state v) \<longrightarrow> \<not> as_keep_running (rv_state v'))"

lemma flags_grow_fold: "flags_grow v (fold apply_input is v)"
proof (induction "is" arbitrary: v)
  case (Cons i "is")
  have "flags_grow v (apply_input i v)" by (cases i) (auto simp: flags_grow_def)
  with Cons [of "apply_input i v"] show ?case by (auto simp: flags_grow_def)
qed (simp add: flags_grow_def)

lemma stopping_input: "i \<in> stop_inputs \<Longrightarrow> i \<in> set is \<Longrightarrow> stopping (fold apply_input is v)"
proof (induction "is" arbitrary: v)
  case (Cons j "is")
  show ?case
  proof (cases "i = j")
    case True
    with Cons.prems(1) have "stopping (apply_input j v)" by (auto simp: stop_inputs_def stopping_def)
    then show ?thesis
      using flags_grow_fold [of "apply_input j v" "is"] by (auto simp: flags_grow_def stopping_def)
  next
    case False
    with Cons show ?thesis by simp
  qed
qed simp

lemma headless_loop_stopping:
  assumes "stopping v"
  shows "\<exists>x. headless_loop (p # ps) v = Some x \<and> headless_loop [p] v = Some x"
proof -
  let ?v1 = "fold apply_input (hp_before_signal p) v"
  let ?v2 = "fold apply_input (hp_before_stdin p) ?v1"
  let ?v3 = "fold apply_input (hp_before_running p) ?v2"
  have "headless_stop (rv_shutdown_requested ?v1) (rv_stdin_closed ?v2) (as_keep_running (rv_state ?v3)) \<noteq> None"
    using assms flags_grow_fold [of v "hp_before_signal p"] flags_grow_fold [of ?v1 "hp_before_stdin p"]
      flags_grow_fold [of ?v2 "hp_before_running p"]
    by (auto simp: headless_stop_def stopping_def flags_grow_def)
  then show ?thesis
    by (auto simp: Let_def split: headless_stop.splits prod.splits)
qed

lemma headless_loop_Cons:
  "headless_loop (p # ps) v = (case headless_loop [p] v of
     None \<Rightarrow> headless_loop ps (fold apply_input (poll_inputs p) v) | Some x \<Rightarrow> Some x)"
  by (auto simp: Let_def poll_inputs_def split: option.splits headless_stop.splits prod.splits)

lemma headless_loop_ends:
  assumes "stopping v \<or> (\<exists>i \<in> set (concat (map poll_inputs (take k ps))). i \<in> stop_inputs)" "k < length ps"
  shows "\<exists>x. headless_loop ps v = Some x \<and> headless_loop (take (Suc k) ps) v = Some x"
  using assms
proof (induction k arbitrary: ps v)
  case 0
  then obtain p rest where "ps = p # rest" by (cases ps) auto
  with 0 headless_loop_stopping [of v p rest] show ?case by (simp del: headless_loop.simps)
next
  case (Suc k)
  then obtain p rest where ps: "ps = p # rest" by (cases ps) auto
  let ?v4 = "fold apply_input (poll_inputs p) v"
  show ?case
  proof (cases "stopping v")
    case True
    from headless_loop_stopping [OF True, of p "[]"] obtain x where "headless_loop [p] v = Some x" by blast
    then show ?thesis
      unfolding ps take_Suc_Cons headless_loop_Cons [of p rest] headless_loop_Cons [of p "take (Suc k) rest"]
      by (simp del: headless_loop.simps)
  next
    case False
    have "stopping ?v4 \<or> (\<exists>i \<in> set (concat (map poll_inputs (take k rest))). i \<in> stop_inputs)"
      using Suc.prems(1) ps False by (auto intro: stopping_input)
    from Suc.IH [OF this] Suc.prems(2) ps
    show ?thesis
      unfolding ps take_Suc_Cons headless_loop_Cons [of p rest] headless_loop_Cons [of p "take (Suc k) rest"]
      by (auto simp del: headless_loop.simps split: option.splits)
  qed
qed

text \<open>
  A stop is noticed within one turn of the wait loop: whatever state the application is
  in, once a signal arrived, stdin ended or the flag was cleared during the first \<open>k\<close> polls, the run
  has ended and shut down by the end of the next poll; nothing later can change its result.
\<close>

lemma headless_run_ends:
  assumes "i \<in> set (concat (map poll_inputs (take k (he_polls E))))" "i \<in> {SignalArrives, StdinEnds, RunCleared}"
    and "k < length (he_polls E)"
  shows "run_headless_until_shutdown delay E app clk \<noteq> None \<and>
    run_headless_until_shutdown delay E app clk =
      run_headless_until_shutdown delay (E\<lparr>he_polls := take (Suc k) (he_polls E)\<rparr>) app clk"
proof -
  have "\<exists>j \<in> set (concat (map poll_inputs (take k (he_polls E)))). j \<in> stop_inputs"
    using assms(1,2) by (auto simp: stop_inputs_def)
  from headless_loop_ends [OF disjI2 [OF this] assms(3)]
  obtain v r where
    "headless_loop (he_polls E) \<lparr>rv_state = ap_state app, rv_shutdown_requested = False,
       rv_stdin_closed = False\<rparr> = Some (v, r)"
    "headless_loop (take (Suc k) (he_polls E)) \<lparr>rv_state = ap_state app, rv_shutdown_requested = False,
       rv_stdin_closed = False\<rparr> = Some (v, r)"
    by (metis surj_pair)
  then show ?thesis
    by (auto simp: run_headless_until_shutdown_def app_run_headless_def split: sum.splits prod.splits)
qed

lemma headless_run_ends_witness:
  "run_headless_until_shutdown (\<lambda>k. 5)
     \<lparr>he_register = (\<lambda>s. Inr ()), he_watch_stdin = Inr (),
      he_polls = [quiet_poll\<lparr>hp_after := [StdinEnds]\<rparr>, quiet_poll, quiet_poll]\<rparr> demo_app (0, 0) \<noteq> None"
  by (rule conjunct1 [OF headless_run_ends [of StdinEnds 1]]) (simp_all add: poll_inputs_def quiet_poll_def)

section \<open>Shutting down once\<close>

fun shutdown_times ::
  "(nat \<Rightarrow> nat) \<Rightarrow> nat \<Rightarrow> 's app \<Rightarrow> clock \<Rightarrow> 's app \<times> process_effect list \<times> clock" where
  "shutdown_times delay 0 app clk = (app, [], clk)"
| "shutdown_times delay (Suc n) app clk =
     (case app_shutdown delay app clk of (app, effects, clk) \<Rightarrow>
      case shutdown_times delay n app clk of (app, effects', clk) \<Rightarrow> (app, effects @ effects', clk))"

lemma app_shutdown_fst:
  "ap_shutdown_started (fst (app_shutdown delay app clk)) \<and>
    ap_controller (fst (app_shutdown delay app clk)) = ap_controller app"
  by (auto simp: app_shutdown_def workers_shutdown_def split: prod.splits)

lemma app_shutdown_again: "ap_shutdown_started app \<Longrightarrow> app_shutdown delay app clk = (app, [], clk)"
  by (simp add: app_shutdown_def)

text \<open>
  Claim C23. Shutdown is idempotent and safe with the drop that follows it: any positive number of
  calls, and dropping the application afterwards, has the effects of one call, which releases the
  input, then clears the flag, then joins the workers in the order of their registration; afterwards
  no worker is registered.
\<close>

theorem shutdown_idempotent:
  "shutdown_times delay (Suc n) app clk = app_shutdown delay app clk \<and>
   app_drop delay (fst (app_shutdown delay app clk)) clk' = (if ap_controller app then [RawMode False] else [], clk') \<and>
   (ap_shutdown_started app \<or>
     take 2 (fst (snd (app_shutdown delay app clk))) = [InputTaken, RunFlagCleared] \<and>
     drop 2 (fst (snd (app_shutdown delay app clk))) =
       map (\<lambda>(name, outcome). WorkerJoined name outcome) (fst (snd (join_all delay (ap_workers app) clk))) \<and>
     map fst (fst (snd (join_all delay (ap_workers app) clk))) = map (\<lambda>w. ws_name (fst w)) (ap_workers app) \<and>
     ap_workers (fst (app_shutdown delay app clk)) = [])"
proof -
  have "shutdown_times delay m a c = (a, [], c)" if "ap_shutdown_started a" for m and a :: "'a app" and c
    using that by (induction m) (simp_all add: app_shutdown_again)
  with app_shutdown_fst [of delay app clk] join_all_names [of delay "ap_workers app" clk] show ?thesis
    by (auto simp: app_drop_def app_shutdown_again split: prod.splits)
      (auto simp: app_shutdown_def workers_shutdown_def split: prod.splits)
qed

section \<open>The ready report\<close>

text \<open>
  The configured addresses of the outputs, and the address the operating system gives a listener: its
  bind, the switch to non-blocking and the reading of its local address all succeed.
\<close>

fun websocket_addresses :: "output_config list \<Rightarrow> socket_addr list" where
  "websocket_addresses [] = []"
| "websocket_addresses (WebSocket addr n b # outputs) = addr # websocket_addresses outputs"
| "websocket_addresses (Osc addr # outputs) = websocket_addresses outputs"
| "websocket_addresses (FrameRegion slot # outputs) = websocket_addresses outputs"

fun osc_addresses :: "output_config list \<Rightarrow> socket_addr list" where
  "osc_addresses [] = []"
| "osc_addresses (Osc addr # outputs) = addr # osc_addresses outputs"
| "osc_addresses (WebSocket addr n b # outputs) = osc_addresses outputs"
| "osc_addresses (FrameRegion slot # outputs) = osc_addresses outputs"

definition bound_address :: "'l listener_ops \<Rightarrow> socket_addr \<Rightarrow> socket_addr \<Rightarrow> bool" where
  "bound_address L addr a \<longleftrightarrow> (\<exists>l l'. ln_bind L addr = Inr l \<and> ln_set_nonblocking L l = Inr l' \<and>
     ln_local_addr L l' = Inr a)"

lemma server_spawn_bound:
  "server_spawn L show_addr addr = Inr a \<Longrightarrow> bound_address L addr a"
  by (cases "ln_bind L addr"; cases "ln_set_nonblocking L (projr (ln_bind L addr))";
      cases "ln_local_addr L (projr (ln_set_nonblocking L (projr (ln_bind L addr))))")
    (simp_all add: server_spawn_def bound_address_def with_context_def with_context_text_def)

lemma spawn_outputs_bound:
  "spawn_outputs h src outputs bound w = (w', Inr b) \<Longrightarrow>
     (if websocket_addresses outputs = [] then b = bound
      else \<exists>a. b = Some a \<and> bound_address (ho_listener h) (last (websocket_addresses outputs)) a)"
proof (induction h src outputs bound w arbitrary: w' b rule: spawn_outputs.induct)
  case (2 h src addr n b' outputs bound w)
  from "2.prems" obtain a where a: "server_spawn (ho_listener h) (ho_show_addr h) addr = Inr a"
    "spawn_outputs h src outputs (Some a) (start_worker h (SpWebSocket b' n) w) = (w', Inr b)"
    by (auto split: sum.splits)
  from "2.IH" [OF this] server_spawn_bound [OF a(1)] show ?case by (auto split: if_splits)
next
  case (4 h src slot outputs bound w)
  then show ?case by (auto simp: Let_def split: sum.splits prod.splits if_splits)
qed (auto split: sum.splits if_splits)

lemma find_osc_first:
  "find_osc outputs = (case osc_addresses outputs of [] \<Rightarrow> None | addr # addrs \<Rightarrow> Some addr)"
  by (induction outputs rule: find_osc.induct) simp_all

text \<open>
  Claim C21. What the ready report says: the audio device by the description of the one that was
  resolved; the channels as the hardware indices of a frame's samples, so that the stream callback's
  frames are exactly those channels in that order; as the WebSocket address the one that the listener
  of the last configured WebSocket output reports once it is bound, which need not be the configured
  one, and none when no such output is configured; as the OSC target the first configured one, and
  none when there is none; and as the MIDI device the name the configuration asked for, whatever the
  name of the port that was connected.
\<close>

theorem ready_report_meaning:
  assumes "app_build delay h config interactive (fresh_world slots clk) = Some (w, Inr app)"
  shows "\<exists>res mode specs. resolve_audio_hardware h config = Inr res \<and>
    channel_mode_resolve (ri_analyse_channels res) (ri_hw_specs res) = (mode, specs) \<and>
    ra_sample_rate (rr_audio (ap_ready_report app)) = sp_sample_rate specs \<and>
    (case ri_source res of
       HardwareSource d c \<Rightarrow> ra_device (rr_audio (ap_ready_report app)) = dv_description d
     | CalibrationSource signal \<Rightarrow> ra_device (rr_audio (ap_ready_report app)) = None) \<and>
    (length frame = unat (sp_channels (ri_hw_specs res)) \<longrightarrow>
       pick mode frame = map (\<lambda>i. frame ! unat i) (ra_channels (rr_audio (ap_ready_report app)))) \<and>
    (if websocket_addresses (ac_outputs config) = [] then ro_websocket (rr_outputs (ap_ready_report app)) = None
     else \<exists>a. ro_websocket (rr_outputs (ap_ready_report app)) = Some a \<and>
       bound_address (ho_listener h) (last (websocket_addresses (ac_outputs config))) a) \<and>
    ro_osc (rr_outputs (ap_ready_report app)) =
      (case osc_addresses (ac_outputs config) of [] \<Rightarrow> None | addr # addrs \<Rightarrow> Some addr) \<and>
    rr_midi_device (ap_ready_report app) =
      (case ac_midi_input config of Some (MidiDevice query) \<Rightarrow> Some query | _ \<Rightarrow> None)"
proof -
  from assms obtain b where boot: "bootstrap delay h config (fresh_world slots clk) = Some (w, Inr b)"
    and rep: "ap_ready_report app = \<lparr>rr_audio = bo_audio b, rr_midi_device = app_midi_device config,
      rr_outputs = \<lparr>ro_websocket = bo_ws_bound_addr b, ro_osc = find_osc (ac_outputs config)\<rparr>\<rparr>"
    by (auto simp: app_build_def bind_eq_Some_conv and_then_Inr)
  from boot show ?thesis
  proof (cases rule: bootstrap_cases)
    case (started res midi mode specs w1 bound)
    have audio: "bo_audio b = ready_audio_of res" "bo_ws_bound_addr b = bound" using started(5) by auto
    have rate: "sp_sample_rate specs = sp_sample_rate (ri_hw_specs res)"
      using started(2) by (auto simp: channel_mode_resolve_def split: option.splits)
    have picks: "pick mode frame = map (\<lambda>i. frame ! unat i) (ra_channels (ready_audio_of res))"
      if "length frame = unat (sp_channels (ri_hw_specs res))"
    proof (cases "ri_analyse_channels res")
      case None
      have "unat (of_nat i :: u16) = i" if "i < unat (sp_channels (ri_hw_specs res))" for i
        using that unsigned_less [of "sp_channels (ri_hw_specs res)", where ?'a = nat]
        by (simp add: unsigned_of_nat take_bit_nat_eq_self)
      then have "map (\<lambda>i. frame ! unat i) (ra_channels (ready_audio_of res)) = map (nth frame) [0..<length frame]"
        using None that by (simp add: ready_audio_of_def)
      with None started(2) show ?thesis by (auto simp: channel_mode_resolve_def map_nth)
    next
      case (Some indices)
      with started(2) show ?thesis by (auto simp: channel_mode_resolve_def ready_audio_of_def pick.simps)
    qed
    show ?thesis
      using boot_resolve_Inr(2) [OF started(1)] started(2) rate picks spawn_outputs_bound [OF started(4)]
      by (intro exI [of _ res] exI [of _ mode] exI [of _ specs] conjI)
        (simp_all add: rep audio find_osc_first ready_audio_of_def app_midi_device_def
          split: input_source.split option.split config_midi_input.split)
  qed simp_all
qed

text \<open>A start that asks for a MIDI device by a part of its name.\<close>

definition loop_host :: "(unit, unit, unit, (u8 list \<times> socket_addr) list) host" where
  "loop_host = (demo_host open_listener)\<lparr>ho_connect_midi := (\<lambda>q. Inr (MidiHardware ()))\<rparr>"

definition loop_config :: app_config where
  "loop_config = duet_config\<lparr>ac_midi_input := Some (MidiDevice (lit ''loop'')),
     ac_outputs := ac_outputs demo_config @ [Osc \<lparr>sa_ip = IpV4 127 0 0 1, sa_port = 9002\<rparr>]\<rparr>"

lemma trim_loop: "trim (lit ''loop'') \<noteq> []"
  by (simp add: trim_empty lit_def white_space_def)

lemma loop_resolve: "boot_resolve loop_host loop_config = Inr (duet_input, Some (MidiHardware ()))"
  by (simp add: loop_host_def loop_config_def boot_resolve_def and_then_Inr duet_config_def demo_config_def demo_host_def
      validate_app_config_def demo_env_def vocoder_config_default_bits default_vocoder_valid
     resolve_audio_hardware_def get_device_def build_device_specs_def ok_or_def device_name_def unwrap_or_def
     resolve_midi_hardware_def validate_channel_selection_def bandpass_coefficients_def silent_loop
     default_rate_valid trim_duet trim_loop duet_input_def duet_format_def)

lemma loop_built:
  "\<exists>w app. app_build delay loop_host loop_config False (fresh_world slots clk) = Some (w, Inr app)"
proof -
  have "spawn_audio_input loop_host (ri_source duet_input) specs mode w =
     (w\<lparr>bw_stream := Some (), bw_sink := Some (mode, specs)\<rparr>, Inr ())" for specs mode and w :: "unit boot_world"
    by (simp add: loop_host_def spawn_audio_input_def duet_input_def start_stream_def duet_format_def)
  moreover have "ho_listener loop_host = open_listener"
    "ac_outputs loop_config = ac_outputs demo_config @ [Osc \<lparr>sa_ip = IpV4 127 0 0 1, sa_port = 9002\<rparr>]"
    by (simp_all add: loop_host_def loop_config_def duet_config_def)
  moreover have "\<exists>r. osc_spawn (ho_encode loop_host) (ho_socket loop_host) addr 2 True = Inr r" for addr
    by (simp add: loop_host_def demo_host_def osc_spawn_def prepare_bin_bundle_def build_bin_bundle_def
        log_socket_def and_then_def OSC_UDP_PAYLOAD_LIMIT_BYTES_def Let_def)
  then obtain r where "osc_spawn (ho_encode loop_host) (ho_socket loop_host)
      \<lparr>sa_ip = IpV4 127 0 0 1, sa_port = 9002\<rparr> 2 True = Inr r" by blast
  ultimately show ?thesis
    unfolding app_build_def bootstrap_def loop_resolve
    by (simp add: duet_mode Let_def demo_config_def and_then_Inr)
qed

theorem ready_report_meaning_witness:
  "\<exists>w app. app_build (\<lambda>k. 5) loop_host loop_config False (fresh_world (\<lambda>s. None) (0, 0)) = Some (w, Inr app) \<and>
     ra_device (rr_audio (ap_ready_report app)) = Some (lit ''Duet'') \<and>
     pick (Selected [1, 3]) [10, 20, 30, 40] =
       map (\<lambda>i. [10, 20, 30, 40] ! unat i) (ra_channels (rr_audio (ap_ready_report app))) \<and>
     rr_outputs (ap_ready_report app) =
       \<lparr>ro_websocket = Some \<lparr>sa_ip = IpV4 127 0 0 1, sa_port = 9001\<rparr>,
        ro_osc = Some \<lparr>sa_ip = IpV4 127 0 0 1, sa_port = 9002\<rparr>\<rparr> \<and>
     rr_midi_device (ap_ready_report app) = Some (lit ''loop'')"
proof -
  obtain w app where app: "app_build (\<lambda>k. 5) loop_host loop_config False (fresh_world (\<lambda>s. None) (0, 0)) =
      Some (w, Inr app)" using loop_built by blast
  have input: "unat (sp_channels (ri_hw_specs duet_input)) = 4"
    "ri_source duet_input = HardwareSource \<lparr>dv_description = Some (lit ''Duet''), dv_config = Some duet_format\<rparr> duet_format"
    by (simp_all add: duet_input_def)
  have config: "ac_midi_input loop_config = Some (MidiDevice (lit ''loop''))"
    "ac_outputs loop_config = [WebSocket \<lparr>sa_ip = IpV4 127 0 0 1, sa_port = 9000\<rparr> 8 False,
       Osc \<lparr>sa_ip = IpV4 127 0 0 1, sa_port = 9002\<rparr>]"
    by (simp_all add: loop_config_def duet_config_def demo_config_def)
  have bound: "bound_address (ho_listener loop_host) addr a \<longleftrightarrow> a = \<lparr>sa_ip = IpV4 127 0 0 1, sa_port = 9001\<rparr>" for addr a
    by (auto simp: loop_host_def demo_host_def open_listener_def bound_address_def)
  have outputs: "r = \<lparr>ro_websocket = w, ro_osc = a\<rparr>" if "ro_websocket r = w" "ro_osc r = a" for r w a
    using that by simp
  show ?thesis
    using ready_report_meaning [OF app, of "[10, 20, 30, 40]"] app boot_resolve_Inr(2) [OF loop_resolve]
    by (auto simp: duet_mode config bound input intro!: outputs)
qed

end
