(* ===== verification/Entry.thy ===== *)
theory Entry
  imports App
begin

text \<open>
  The interactive controller, \<^verbatim>\<open>src/src/controller.rs\<close>, and the program's entry point,
  \<^verbatim>\<open>src/src/main.rs\<close>. The terminal, the writer of stdout, the listings and the parsed arguments are
  parameters; log lines and the message on stderr are left out. The result of a run is what was
  written, the effects in their order and the exit code.
\<close>

section \<open>The controller\<close>

definition POLL_RATE_MS :: nat where
  "POLL_RATE_MS = 100"

datatype key_kind = Press | Repeat | Release

datatype key_code = KChar nat | KOther

record key_event =
  ke_code :: key_code
  ke_control :: bool
  ke_kind :: key_kind

datatype term_event = KeyEvent key_event | OtherEvent

definition handle_key_event :: "key_event \<Rightarrow> app_state \<Rightarrow> app_state" where
  "handle_key_event key s =
     (if ke_kind key \<noteq> Press then s
      else if (case ke_code key of KChar c \<Rightarrow> c = 99 \<or> c = 67 | KOther \<Rightarrow> False) \<and> ke_control key
      then s\<lparr>as_keep_running := False\<rparr>
      else s)"

text \<open>
  One turn of the loop: what other threads do before the load of the flag, whether the poll finds an
  event, and the event read then. None is a controller that still waits.
\<close>

record controller_turn =
  ct_before :: "run_input list"
  ct_poll :: "any_error + bool"
  ct_read :: "any_error + term_event"

fun controller_loop :: "controller_turn list \<Rightarrow> run_vars \<Rightarrow> (run_vars \<times> (any_error + unit)) option" where
  "controller_loop [] v = None"
| "controller_loop (t # ts) v =
     (let v = fold apply_input (ct_before t) v in
      if \<not> as_keep_running (rv_state v) then Some (v, Inr ())
      else case ct_poll t of
          Inl e \<Rightarrow> Some (v, Inl e)
        | Inr False \<Rightarrow> controller_loop ts v
        | Inr True \<Rightarrow> (case ct_read t of
              Inl e \<Rightarrow> Some (v, Inl e)
            | Inr (KeyEvent key) \<Rightarrow> controller_loop ts (v\<lparr>rv_state := handle_key_event key (rv_state v)\<rparr>)
            | Inr OtherEvent \<Rightarrow> controller_loop ts v))"

record terminal =
  tm_enable_raw_mode :: "any_error + unit"
  tm_turns :: "controller_turn list"

definition controller_run ::
  "terminal \<Rightarrow> app_state \<Rightarrow> (app_state \<times> process_effect list \<times> (any_error + unit)) option" where
  "controller_run T s = (case tm_enable_raw_mode T of
       Inl e \<Rightarrow> Some (s, [], Inl e)
     | Inr u \<Rightarrow> Option.bind
         (controller_loop (tm_turns T) \<lparr>rv_state = s, rv_shutdown_requested = False, rv_stdin_closed = False\<rparr>)
         (\<lambda>(v, r). Some (rv_state v, [RawMode True], r)))"

text \<open>What the panic hook does before the process aborts: best effort, then the message is logged.\<close>

definition handle_panic :: "process_effect list" where
  "handle_panic = [RawMode False]"

section \<open>An interactive run\<close>

definition app_run ::
  "terminal \<Rightarrow> 's app \<Rightarrow> ('s app \<times> process_effect list \<times> (any_error + unit)) option" where
  "app_run T app =
     (if \<not> ap_controller app
      then Some (app, [], Inl (any_message ''App was constructed headless and has no interactive controller''))
      else Option.bind (controller_run T (ap_state app))
        (\<lambda>(s, effects, r). Some (app\<lparr>ap_state := s\<rparr>, effects, r)))"

definition run_until_shutdown ::
  "(nat \<Rightarrow> nat) \<Rightarrow> terminal \<Rightarrow> 's app \<Rightarrow> clock
    \<Rightarrow> ('s app \<times> process_effect list \<times> clock \<times> (any_error + unit)) option" where
  "run_until_shutdown delay T app clk =
     Option.bind (app_run T app) (\<lambda>(app, effects, run_result).
       case app_shutdown delay app clk of (app, down, clk) \<Rightarrow> Some (app, effects @ down, clk, run_result))"

section \<open>The entry point\<close>

record ('s, 'conn, 'l, 'k, 'w) process =
  pr_host :: "('s, 'conn, 'l, 'k) host"
  pr_parse :: "rstring \<Rightarrow> rstring + file_config"
  pr_files :: "rstring \<Rightarrow> (rstring + rstring) option"
  pr_slots :: "region_slot \<Rightarrow> frame_region option"
  pr_delay :: "nat \<Rightarrow> nat"
  pr_clock :: clock
  pr_list_audio :: "any_error + unit"
  pr_list_midi :: "any_error + unit"
  pr_stdin_is_terminal :: bool
  pr_terminal :: terminal
  pr_headless :: headless_env
  pr_writer :: "'w writer_ops"
  pr_show_error :: "any_error \<Rightarrow> rstring"

datatype exit_code = ExitSuccess | ExitFailure

definition main_config ::
  "('s, 'conn, 'l, 'k, 'w) process \<Rightarrow> args \<Rightarrow> any_error + app_config" where
  "main_config P a =
     from_error RConfig (app_config_try_from (ho_runtime (pr_host P)) (pr_parse P) (pr_files P) a)"

definition joins_of :: "(string \<times> join_outcome) list \<Rightarrow> process_effect list" where
  "joins_of = map (\<lambda>(name, outcome). WorkerJoined name outcome)"

definition emit ::
  "('s, 'conn, 'l, 'k, 'w) process \<Rightarrow> 'w \<Rightarrow> event \<Rightarrow> 'w \<times> process_effect \<times> (any_error + unit)" where
  "emit P out ev = (case write_event (pr_writer P) (ho_show_addr (pr_host P)) out ev of (out, result) \<Rightarrow>
     (out, EventWritten ev (result = Inr ()), result))"

text \<open>The body of a run with an application, and the drop at its end.\<close>

definition supervise ::
  "('s, 'conn, 'l, 'k, 'w) process \<Rightarrow> 'w \<Rightarrow> 's app \<Rightarrow> clock
    \<Rightarrow> ('w \<times> process_effect list \<times> (any_error + unit)) option" where
  "supervise P out app clk =
     (case emit P out (Ready (ap_ready_report app)) of (out, ready, result) \<Rightarrow>
      case result of
        Inl e \<Rightarrow> Some (out, ready # fst (app_drop (pr_delay P) app clk), Inl e)
      | Inr u \<Rightarrow> Option.bind (run_headless_until_shutdown (pr_delay P) (pr_headless P) app clk)
          (\<lambda>(app, effects, clk, run_result). case run_result of
             Inl e \<Rightarrow> Some (out, ready # effects @ fst (app_drop (pr_delay P) app clk), Inl e)
           | Inr reason \<Rightarrow> (case emit P out (Shutdown reason) of (out, final, result) \<Rightarrow>
               Some (out, ready # effects @ final # fst (app_drop (pr_delay P) app clk),
                 case result of
                   Inl e \<Rightarrow> if is_broken_pipe e then Inr () else Inl e
                 | Inr u \<Rightarrow> Inr u))))"

definition main_run_headless ::
  "('s, 'conn, 'l, 'k, 'w) process \<Rightarrow> args \<Rightarrow> 'w
    \<Rightarrow> ('w \<times> process_effect list \<times> (any_error + unit)) option" where
  "main_run_headless P a out = (case main_config P a of
       Inl e \<Rightarrow> Some (out, [], Inl e)
     | Inr config \<Rightarrow> Option.bind
         (app_new_headless (pr_delay P) (pr_host P) config (fresh_world (pr_slots P) (pr_clock P)))
         (\<lambda>(w, built). case built of
            Inl e \<Rightarrow> Some (out, joins_of (bw_joined w), Inl e)
          | Inr app \<Rightarrow> supervise P out app (bw_clock w)))"

definition run_interactive ::
  "('s, 'conn, 'l, 'k, 'w) process \<Rightarrow> args \<Rightarrow> 'w
    \<Rightarrow> ('w \<times> process_effect list \<times> (any_error + unit)) option" where
  "run_interactive P a out = (case main_config P a of
       Inl e \<Rightarrow> Some (out, [], Inl e)
     | Inr config \<Rightarrow> Option.bind
         (app_new (pr_delay P) (pr_host P) config (fresh_world (pr_slots P) (pr_clock P)))
         (\<lambda>(w, built). case built of
            Inl e \<Rightarrow> Some (out, joins_of (bw_joined w), Inl e)
          | Inr app \<Rightarrow> Option.bind (run_until_shutdown (pr_delay P) (pr_terminal P) app (bw_clock w))
              (\<lambda>(app, effects, clk, r). Some (out, effects @ fst (app_drop (pr_delay P) app clk), r))))"

definition main_run ::
  "('s, 'conn, 'l, 'k, 'w) process \<Rightarrow> args \<Rightarrow> 'w
    \<Rightarrow> ('w \<times> process_effect list \<times> (any_error + unit)) option" where
  "main_run P a out =
     (if ia_audio_list (ar_input a) then Some (out, [], pr_list_audio P)
      else if ma_midi_list (ar_midi a) then Some (out, [], pr_list_midi P)
      else if ar_headless a then main_run_headless P a out
      else if \<not> pr_stdin_is_terminal P
      then Some (out, [], Inl (any_message
        ''Phase4 requires an interactive terminal. Run it directly from a terminal, or pass --headless.''))
      else run_interactive P a out)"

definition main_exit ::
  "('s, 'conn, 'l, 'k, 'w) process \<Rightarrow> args \<Rightarrow> 'w \<Rightarrow> ('w \<times> process_effect list \<times> exit_code) option" where
  "main_exit P a out = Option.bind (main_run P a out) (\<lambda>(out, effects, r). case r of
       Inr u \<Rightarrow> Some (out, effects, ExitSuccess)
     | Inl e \<Rightarrow> if ar_headless a
         then (case emit P out (event_from_anyhow (pr_show_error P) e) of (out, written, result) \<Rightarrow>
           Some (out, effects @ [written], ExitFailure))
         else Some (out, effects, ExitFailure))"

section \<open>The event protocol of a headless run\<close>

text \<open>
  The specification: the effects of a headless process and its exit code. Either nothing was
  started, or a failed start joined what it had started, and one error event follows; or a ready
  event comes first, then the whole teardown, and the last events follow it.
\<close>

fun final_events :: "bool \<Rightarrow> process_effect list \<Rightarrow> exit_code \<Rightarrow> bool" where
  "final_events ready [EventWritten (Shutdown r) ok] code = (ready \<and> code = ExitSuccess)"
| "final_events ready [EventWritten (Shutdown r) False, EventWritten (Error c m) ok] code =
     (ready \<and> code = ExitFailure)"
| "final_events ready [EventWritten (Error c m) ok] code = (code = ExitFailure)"
| "final_events ready effects code = False"

definition headless_protocol :: "process_effect list \<Rightarrow> exit_code \<Rightarrow> bool" where
  "headless_protocol effects code \<longleftrightarrow>
     (\<exists>joined c m ok. effects = joins_of joined @ [EventWritten (Error c m) ok] \<and> code = ExitFailure) \<or>
     (\<exists>report ok joined final. effects =
        EventWritten (Ready report) ok # InputTaken # RunFlagCleared # joins_of joined @ final \<and>
        final_events ok final code)"

lemma emit_cases:
  obtains out' result where "emit P out ev = (out', EventWritten ev (result = Inr ()), result)"
  by (cases "write_event (pr_writer P) (ho_show_addr (pr_host P)) out ev") (auto simp: emit_def)

lemma app_shutdown_effects:
  assumes "app_shutdown delay app clk = (app', effects, clk')" "\<not> ap_shutdown_started app"
  obtains joined where "effects = InputTaken # RunFlagCleared # joins_of joined"
  using app_shutdown_first [OF assms] by (auto simp: joins_of_def)

lemma app_drop_started:
  "ap_shutdown_started app \<Longrightarrow> \<not> ap_controller app \<Longrightarrow> fst (app_drop delay app clk) = []"
  by (simp add: app_drop_def app_shutdown_again)

lemma app_drop_fresh:
  assumes "\<not> ap_shutdown_started app" "\<not> ap_controller app"
  obtains joined where "fst (app_drop delay app clk) = InputTaken # RunFlagCleared # joins_of joined"
proof -
  obtain a fx c where s: "app_shutdown delay app clk = (a, fx, c)" by (cases "app_shutdown delay app clk")
  moreover have "\<not> ap_controller a" using app_shutdown_fst [of delay app clk] s assms(2) by simp
  ultimately show thesis
    using that by (auto elim!: app_shutdown_effects [OF s assms(1)] simp: app_drop_def)
qed

lemma app_run_headless_keeps:
  "app_run_headless E app = Some (app', r) \<Longrightarrow>
    ap_shutdown_started app' = ap_shutdown_started app \<and> ap_controller app' = ap_controller app \<and>
    ap_workers app' = ap_workers app"
  by (auto simp: app_run_headless_def bind_eq_Some_conv split: sum.splits)

lemma run_headless_effects:
  assumes "run_headless_until_shutdown delay E app clk = Some (app', effects, clk', r)"
    "\<not> ap_shutdown_started app" "\<not> ap_controller app"
  obtains joined where "effects = InputTaken # RunFlagCleared # joins_of joined"
    "fst (app_drop delay app' clk') = []"
proof -
  from assms(1) obtain a where a: "app_run_headless E app = Some (a, r)"
    and down: "app_shutdown delay a clk = (app', effects, clk')"
    by (auto simp: run_headless_until_shutdown_Some)
  from app_run_headless_keeps [OF a] assms(2,3) have started: "\<not> ap_shutdown_started a" "\<not> ap_controller a" by simp_all
  from app_shutdown_fst [of delay a clk] down started
  have "fst (app_drop delay app' clk') = []" by (intro app_drop_started) simp_all
  with that app_shutdown_effects [OF down started(1)] show thesis by metis
qed

text \<open>What a run adds, before the error event of a failed one.\<close>

definition run_effects :: "process_effect list \<Rightarrow> any_error + unit \<Rightarrow> bool" where
  "run_effects effects r \<longleftrightarrow>
     (\<exists>report ok joined final. effects =
        EventWritten (Ready report) ok # InputTaken # RunFlagCleared # joins_of joined @ final \<and>
        (case r of
           Inl e \<Rightarrow> final = [] \<or> ok \<and> (\<exists>reason. final = [EventWritten (Shutdown reason) False])
         | Inr u \<Rightarrow> ok \<and> (\<exists>reason written. final = [EventWritten (Shutdown reason) written])))"

lemma run_effectsI:
  assumes "effects = EventWritten (Ready report) ok # InputTaken # RunFlagCleared # joins_of joined @ final"
    "case r of
       Inl e \<Rightarrow> final = [] \<or> ok \<and> (\<exists>reason. final = [EventWritten (Shutdown reason) False])
     | Inr u \<Rightarrow> ok \<and> (\<exists>reason written. final = [EventWritten (Shutdown reason) written])"
  shows "run_effects effects r"
  unfolding run_effects_def using assms by blast

lemma supervise_effects:
  assumes "supervise P out app clk = Some (out', effects, r)" "\<not> ap_shutdown_started app" "\<not> ap_controller app"
  shows "run_effects effects r"
proof -
  obtain o1 r1 where e1: "emit P out (Ready (ap_ready_report app)) =
      (o1, EventWritten (Ready (ap_ready_report app)) (r1 = Inr ()), r1)" by (rule emit_cases)
  show ?thesis
  proof (cases r1)
    case (Inl e)
    from app_drop_fresh [OF assms(2,3)] obtain joined where
      "fst (app_drop (pr_delay P) app clk) = InputTaken # RunFlagCleared # joins_of joined" by blast
    with assms(1) e1 Inl have "effects = EventWritten (Ready (ap_ready_report app)) False #
        InputTaken # RunFlagCleared # joins_of joined @ []" and "r = Inl e"
      by (simp_all add: supervise_def)
    from this(1) show ?thesis by (rule run_effectsI) (simp add: \<open>r = Inl e\<close>)
  next
    case (Inr u)
    with assms(1) e1 obtain a fx c rr where
      run: "run_headless_until_shutdown (pr_delay P) (pr_headless P) app clk = Some (a, fx, c, rr)"
      and rest: "(case rr of
         Inl e \<Rightarrow> Some (o1, EventWritten (Ready (ap_ready_report app)) True # fx @ fst (app_drop (pr_delay P) a c), Inl e)
       | Inr reason \<Rightarrow> (case emit P o1 (Shutdown reason) of (out, final, result) \<Rightarrow>
           Some (out, EventWritten (Ready (ap_ready_report app)) True # fx @ final # fst (app_drop (pr_delay P) a c),
             case result of
               Inl e \<Rightarrow> if is_broken_pipe e then Inr () else Inl e
             | Inr u \<Rightarrow> Inr u))) = Some (out', effects, r)"
      by (auto simp: supervise_def bind_eq_Some_conv)
    from run_headless_effects [OF run assms(2,3)] obtain joined where
      fx: "fx = InputTaken # RunFlagCleared # joins_of joined" "fst (app_drop (pr_delay P) a c) = []" by blast
    show ?thesis
    proof (cases rr)
      case (Inl e)
      with rest fx have "effects = EventWritten (Ready (ap_ready_report app)) True #
          InputTaken # RunFlagCleared # joins_of joined @ []" and "r = Inl e" by auto
      from this(1) show ?thesis by (rule run_effectsI) (simp add: \<open>r = Inl e\<close>)
    next
      case (Inr reason)
      obtain o2 r2 where "emit P o1 (Shutdown reason) = (o2, EventWritten (Shutdown reason) (r2 = Inr ()), r2)"
        by (rule emit_cases)
      with rest fx Inr have "effects = EventWritten (Ready (ap_ready_report app)) True #
          InputTaken # RunFlagCleared # joins_of joined @ [EventWritten (Shutdown reason) (r2 = Inr ())]"
        and "r = (case r2 of Inl e \<Rightarrow> if is_broken_pipe e then Inr () else Inl e | Inr u \<Rightarrow> Inr u)" by auto
      from this(1) show ?thesis
        by (rule run_effectsI) (simp add: \<open>r = _\<close> split: sum.split)
    qed
  qed
qed

lemma main_run_headless_effects:
  assumes "main_run_headless P a out = Some (out', effects, r)"
  shows "(\<exists>joined e. effects = joins_of joined \<and> r = Inl e) \<or> run_effects effects r"
proof (cases "main_config P a")
  case (Inl e)
  then have "effects = joins_of [] \<and> r = Inl e" using assms by (simp add: main_run_headless_def joins_of_def)
  then show ?thesis by blast
next
  case (Inr config)
  with assms obtain w built where
    b: "app_new_headless (pr_delay P) (pr_host P) config (fresh_world (pr_slots P) (pr_clock P)) = Some (w, built)"
    and rest: "(case built of Inl e \<Rightarrow> Some (out, joins_of (bw_joined w), Inl e)
      | Inr app \<Rightarrow> supervise P out app (bw_clock w)) = Some (out', effects, r)"
    by (auto simp: main_run_headless_def bind_eq_Some_conv)
  show ?thesis
  proof (cases built)
    case (Inl e)
    with rest show ?thesis by auto
  next
    case (Inr app)
    with b have "\<not> ap_shutdown_started app" "\<not> ap_controller app"
      by (auto simp: app_new_headless_def app_build_def bind_eq_Some_conv and_then_Inr split: prod.splits)
    note fresh = this
    from rest Inr have "supervise P out app (bw_clock w) = Some (out', effects, r)" by simp
    from supervise_effects [OF this fresh] show ?thesis ..
  qed
qed

text \<open>
  Claim C24. The event stream a host sees. Whatever fails, a headless process writes at most one ready
  event, writes it first, ends with exactly one shutdown event, or an error event, or a shutdown
  event whose write failed followed by an error event, and writes it only after the input was
  released, the flag cleared and every worker joined or detached. It succeeds exactly when the last
  event is a shutdown, also when the host has closed the pipe by then.
\<close>

theorem headless_event_protocol:
  assumes "main_exit P a out = Some (out', effects, code)" "ar_headless a"
    and "\<not> ia_audio_list (ar_input a)" "\<not> ma_midi_list (ar_midi a)"
  shows "headless_protocol effects code"
proof -
  from assms obtain o1 fx r where run: "main_run_headless P a out = Some (o1, fx, r)"
    and exit: "(case r of Inr u \<Rightarrow> Some (o1, fx, ExitSuccess)
      | Inl e \<Rightarrow> (case emit P o1 (event_from_anyhow (pr_show_error P) e) of (out, written, result) \<Rightarrow>
          Some (out, fx @ [written], ExitFailure))) = Some (out', effects, code)"
    by (auto simp: main_exit_def main_run_def bind_eq_Some_conv)
  have rest: "case r of Inr u \<Rightarrow> effects = fx \<and> code = ExitSuccess
      | Inl e \<Rightarrow> (\<exists>c m ok. effects = fx @ [EventWritten (Error c m) ok]) \<and> code = ExitFailure"
  proof (cases r)
    case (Inl e)
    obtain o2 r2 where "emit P o1 (event_from_anyhow (pr_show_error P) e) =
        (o2, EventWritten (event_from_anyhow (pr_show_error P) e) (r2 = Inr ()), r2)" by (rule emit_cases)
    with exit Inl show ?thesis by (auto simp: event_from_anyhow_def)
  qed (use exit in simp)
  from main_run_headless_effects [OF run] show ?thesis
  proof
    assume "\<exists>joined e. fx = joins_of joined \<and> r = Inl e"
    with rest show ?thesis by (auto simp: headless_protocol_def)
  next
    assume "run_effects fx r"
    then obtain report ok joined final where
      fx: "fx = EventWritten (Ready report) ok # InputTaken # RunFlagCleared # joins_of joined @ final"
      and final: "case r of
           Inl e \<Rightarrow> final = [] \<or> ok \<and> (\<exists>reason. final = [EventWritten (Shutdown reason) False])
         | Inr u \<Rightarrow> ok \<and> (\<exists>reason written. final = [EventWritten (Shutdown reason) written])"
      by (auto simp: run_effects_def)
    show ?thesis
    proof (cases r)
      case (Inl e)
      with rest obtain c m k where "effects = fx @ [EventWritten (Error c m) k]" "code = ExitFailure" by auto
      moreover have "final_events ok (final @ [EventWritten (Error c m) k]) ExitFailure"
        using final Inl by auto
      ultimately show ?thesis using fx by (auto simp: headless_protocol_def)
    next
      case (Inr u)
      with final have "final_events ok final ExitSuccess" by auto
      with Inr rest fx show ?thesis by (auto simp: headless_protocol_def)
    qed
  qed
qed

text \<open>A process for the witnesses: the tone of the built-in arguments, a host that closes the pipe.\<close>

definition pipe_writer :: "nat writer_ops" where
  "pipe_writer = \<lparr>wo_to_writer = (\<lambda>n j. (n + 1, if n = 0 then Inr () else Inl (any_of (RJson (Some BrokenPipe))))),
     wo_write_all = (\<lambda>n b. (n, Inr ())), wo_flush = (\<lambda>n. (n, Inr ()))\<rparr>"

definition demo_process ::
  "headless_env \<Rightarrow> terminal \<Rightarrow> (unit, unit, unit, (u8 list \<times> socket_addr) list, nat) process" where
  "demo_process E T = \<lparr>pr_host = demo_host open_listener, pr_parse = (\<lambda>t. Inl t), pr_files = (\<lambda>p. None),
     pr_slots = (\<lambda>s. None), pr_delay = (\<lambda>k. 5), pr_clock = (0, 0), pr_list_audio = Inr (),
     pr_list_midi = Inr (), pr_stdin_is_terminal = True, pr_terminal = T, pr_headless = E,
     pr_writer = pipe_writer, pr_show_error = (\<lambda>e. [])\<rparr>"

definition demo_signal_env :: headless_env where
  "demo_signal_env = demo_run_env [SignalArrives, StdinEnds]\<lparr>he_polls := [quiet_poll, quiet_poll\<lparr>hp_before_signal := [SignalArrives]\<rparr>]\<rparr>"

definition duet_args :: "bool \<Rightarrow> args" where
  "duet_args headless = demo_args
     \<lparr>ar_headless := headless,
      ar_calibration := \<lparr>ca_test_hz = None, ca_test_sweep = None, ca_test_midi_clock = None\<rparr>,
      ar_input := \<lparr>ia_audio_device = Some (lit ''Duet''), ia_audio_list = False,
        ia_audio_list_format = ListText, ia_audio_analyse_channels = Some [3, 1, 3]\<rparr>\<rparr>"

lemma duet_channels: "sort [3, 1, 3 :: u16] = [1, 3, 3]"
proof -
  have "(1 :: u16) \<le> 3" "\<not> (3 :: u16) \<le> 1" by (simp_all add: word_le_nat_alt)
  then show ?thesis by simp
qed

lemma duet_args_resolve:
  "resolve_with_outputs demo_env (duet_args b) file_config_default [] = Inr duet_config"
  by (simp add: resolve_with_outputs_def resolve_input_def resolve_midi_input_def Let_def duet_args_def
      normalise_channel_selection_def demo_args_def demo_env_def demo_config_def duet_config_def
      file_config_default_def file_network_default_def config_bits default_vocoder_valid trim_duet duet_channels
      DEFAULT_MAX_CLIENTS_def config_outputs_new_def validate_max_clients_def
      validate_bind_addr_def del: sort_key_simps)

lemma duet_main_config: "main_config (demo_process E T) (duet_args b) = Inr duet_config"
proof -
  have "ho_runtime (demo_host L) = demo_env" for L by (simp add: demo_host_def)
  moreover have "ar_config (duet_args b) = None" by (simp add: duet_args_def demo_args_def)
  ultimately show ?thesis using duet_args_resolve [of b]
    by (simp add: main_config_def demo_process_def app_config_try_from_def load_file_config_def unwrap_or_def)
qed

lemma duet_built:
  "\<exists>w app. app_build delay (demo_host open_listener) duet_config i (fresh_world slots clk) = Some (w, Inr app)"
proof -
  obtain w b where "bootstrap delay (demo_host open_listener) duet_config (fresh_world slots clk) = Some (w, Inr b)"
    using duet_bootstraps by blast
  then show ?thesis by (simp add: app_build_def)
qed

text \<open>A signal, then a final write that fails because the pipe is closed: the process succeeds.\<close>

definition signal_env :: headless_env where
  "signal_env = \<lparr>he_register = (\<lambda>s. Inr ()), he_watch_stdin = Inr (),
     he_polls = [quiet_poll\<lparr>hp_before_signal := [SignalArrives]\<rparr>]\<rparr>"

lemma signal_run:
  "\<exists>app' fx clk'. run_headless_until_shutdown delay signal_env app clk = Some (app', fx, clk', Inr Signal)"
  by (simp add: run_headless_until_shutdown_def app_run_headless_def signal_env_def quiet_poll_def
      headless_stop_def Let_def split: prod.splits)

lemma demo_emit:
  "emit (demo_process E T) 0 ev = (1, EventWritten ev True, Inr ())"
  "emit (demo_process E T) 1 ev = (2, EventWritten ev False, Inl (any_of (RJson (Some BrokenPipe))))"
  by (simp_all add: emit_def demo_process_def write_event_def pipe_writer_def)

lemma signal_exit:
  "\<exists>effects. main_exit (demo_process signal_env T) (duet_args True) 0 = Some (2, effects, ExitSuccess)"
proof -
  obtain w app where b: "app_build (\<lambda>k. 5) (demo_host open_listener) duet_config False
      (fresh_world (\<lambda>s. None) (0, 0)) = Some (w, Inr app)"
    using duet_built by blast
  obtain a fx c where run: "run_headless_until_shutdown (\<lambda>k. 5) signal_env app (bw_clock w) = Some (a, fx, c, Inr Signal)"
    using signal_run by blast
  have P: "pr_delay (demo_process signal_env T) = (\<lambda>k. 5)" "pr_headless (demo_process signal_env T) = signal_env"
    "pr_host (demo_process signal_env T) = demo_host open_listener" "pr_slots (demo_process signal_env T) = (\<lambda>s. None)"
    "pr_clock (demo_process signal_env T) = (0, 0)"
    by (simp_all add: demo_process_def)
  have "is_broken_pipe (any_of (RJson (Some BrokenPipe)))"
    by (simp add: is_broken_pipe_def any_of_def opt_or_def)
  then have "\<exists>effects. supervise (demo_process signal_env T) 0 app (bw_clock w) = Some (2, effects, Inr ())"
    by (simp add: supervise_def demo_emit [simplified] P run)
  then show ?thesis
    by (auto simp: main_exit_def main_run_def main_run_headless_def duet_main_config app_new_headless_def P b)
      (simp_all add: duet_args_def demo_args_def)
qed

theorem headless_event_protocol_witness:
  "\<exists>effects. main_exit (demo_process signal_env \<lparr>tm_enable_raw_mode = Inr (), tm_turns = []\<rparr>) (duet_args True) 0 =
     Some (2, effects, ExitSuccess) \<and> headless_protocol effects ExitSuccess"
proof -
  obtain effects where run: "main_exit (demo_process signal_env \<lparr>tm_enable_raw_mode = Inr (), tm_turns = []\<rparr>)
      (duet_args True) 0 = Some (2, effects, ExitSuccess)"
    using signal_exit by blast
  have "headless_protocol effects ExitSuccess"
    by (rule headless_event_protocol [OF run]) (simp_all add: duet_args_def demo_args_def)
  with run show ?thesis by blast
qed

section \<open>An interactive run\<close>

lemma app_run_keeps:
  "app_run T app = Some (app', effects, r) \<Longrightarrow>
    ap_shutdown_started app' = ap_shutdown_started app \<and> ap_controller app' = ap_controller app \<and>
    (effects = [] \<or> effects = [RawMode True])"
  by (auto simp: app_run_def controller_run_def bind_eq_Some_conv split: if_splits sum.splits)

text \<open>
  Claim C25. The terminal is given back: an interactive run that got as far as its application, however
  its loop ended, enters raw mode at most once, then releases the input, clears the flag and joins
  the workers, and leaves raw mode as its last effect; a run that did not get that far never
  touches the terminal.
\<close>

theorem interactive_restores_terminal:
  assumes "run_interactive P a out = Some (out', effects, r)"
  shows "out' = out \<and>
    ((\<exists>joined. effects = joins_of joined) \<or>
     (\<exists>raw joined. raw \<in> {[], [RawMode True]} \<and>
        effects = raw @ [InputTaken, RunFlagCleared] @ joins_of joined @ [RawMode False]))"
proof (cases "main_config P a")
  case (Inl e)
  then have "effects = joins_of [] \<and> out' = out" using assms by (simp add: run_interactive_def joins_of_def)
  then show ?thesis by blast
next
  case (Inr config)
  with assms obtain w built where
    b: "app_new (pr_delay P) (pr_host P) config (fresh_world (pr_slots P) (pr_clock P)) = Some (w, built)"
    and rest: "(case built of
            Inl e \<Rightarrow> Some (out, joins_of (bw_joined w), Inl e)
          | Inr app \<Rightarrow> Option.bind (run_until_shutdown (pr_delay P) (pr_terminal P) app (bw_clock w))
              (\<lambda>(app, effects, clk, r). Some (out, effects @ fst (app_drop (pr_delay P) app clk), r))) =
        Some (out', effects, r)"
    by (auto simp: run_interactive_def bind_eq_Some_conv)
  show ?thesis
  proof (cases built)
    case (Inl e)
    with rest show ?thesis by auto
  next
    case (Inr app)
    with b have fresh: "\<not> ap_shutdown_started app" "ap_controller app"
      by (auto simp: app_new_def app_build_def bind_eq_Some_conv and_then_Inr split: prod.splits)
    from rest Inr obtain a1 fx a2 down c where
      run: "app_run (pr_terminal P) app = Some (a1, fx, r)"
      and down: "app_shutdown (pr_delay P) a1 (bw_clock w) = (a2, down, c)"
      and eff: "effects = (fx @ down) @ fst (app_drop (pr_delay P) a2 c)" "out' = out"
      by (auto simp: run_until_shutdown_def bind_eq_Some_conv split_beta prod_eq_iff)
    note keeps = app_run_keeps [OF run]
    obtain joined where "down = InputTaken # RunFlagCleared # joins_of joined"
      using app_shutdown_effects [OF down] keeps fresh by blast
    moreover have "fst (app_drop (pr_delay P) a2 c) = [RawMode False]"
      using app_shutdown_fst [of "pr_delay P" a1 "bw_clock w"] down keeps fresh
      by (simp add: app_drop_def app_shutdown_again)
    ultimately show ?thesis using eff keeps by auto
  qed
qed

text \<open>The same process without a flag, on a terminal where Ctrl+C is pressed.\<close>

definition ctrl_c_terminal :: terminal where
  "ctrl_c_terminal = \<lparr>tm_enable_raw_mode = Inr (),
     tm_turns = [\<lparr>ct_before = [], ct_poll = Inr True,
        ct_read = Inr (KeyEvent \<lparr>ke_code = KChar 99, ke_control = True, ke_kind = Press\<rparr>)\<rparr>,
       \<lparr>ct_before = [], ct_poll = Inr False, ct_read = Inr OtherEvent\<rparr>]\<rparr>"

lemma ctrl_c_run: "\<exists>a fx r. app_run ctrl_c_terminal app = Some (a, fx, r) \<or> \<not> ap_controller app"
  by (auto simp: app_run_def controller_run_def ctrl_c_terminal_def handle_key_event_def Let_def)

theorem interactive_restores_terminal_witness:
  "\<exists>effects r. run_interactive (demo_process signal_env ctrl_c_terminal) (duet_args False) 0 = Some (0, effects, r) \<and>
     (list_all (\<lambda>e. case e of WorkerJoined n j \<Rightarrow> True | _ \<Rightarrow> False) effects \<or> last effects = RawMode False)"
proof -
  let ?P = "demo_process signal_env ctrl_c_terminal"
  obtain w app where b: "app_build (\<lambda>k. 5) (demo_host open_listener) duet_config True
      (fresh_world (\<lambda>s. None) (0, 0)) = Some (w, Inr app)"
    using duet_built by blast
  then have "ap_controller app"
    by (auto simp: app_build_def bind_eq_Some_conv and_then_Inr split: prod.splits)
  with ctrl_c_run [of app] obtain a fx r where "app_run ctrl_c_terminal app = Some (a, fx, r)" by blast
  then have "\<exists>a fx c. run_until_shutdown (\<lambda>k. 5) ctrl_c_terminal app (bw_clock w) = Some (a, fx, c, r)"
    by (simp add: run_until_shutdown_def split: prod.splits)
  moreover have P: "pr_delay ?P = (\<lambda>k. 5)" "pr_terminal ?P = ctrl_c_terminal"
    "pr_host ?P = demo_host open_listener" "pr_slots ?P = (\<lambda>s. None)" "pr_clock ?P = (0, 0)"
    by (simp_all add: demo_process_def)
  ultimately obtain effects where run: "run_interactive ?P (duet_args False) 0 = Some (0, effects, r)"
    by (auto simp: run_interactive_def duet_main_config app_new_def b)
  from interactive_restores_terminal [OF run]
  have "list_all (\<lambda>e. case e of WorkerJoined n j \<Rightarrow> True | _ \<Rightarrow> False) effects \<or> last effects = RawMode False"
    by (auto simp: joins_of_def list_all_iff)
  with run show ?thesis by blast
qed

end
