(* ===== verification/Xpc_Protocol.thy ===== *)
theory Xpc_Protocol
  imports Config_Resolve Headless
begin

text \<open>
  The link contract of \<^verbatim>\<open>src/src/xpc/protocol.rs\<close> with the typed reads of \<^verbatim>\<open>src/src/xpc/ffi.rs\<close>: keys
  and message types, the parser of requests, and the resolution of a start request into a
  configuration. An XPC object is its documented content; the C interface itself is left out.
\<close>

section \<open>XPC objects\<close>

text \<open>
  A dictionary is the list of its entries, of which a key's first counts; a string that is not valid
  UTF-8 is None; \<open>XOther\<close> is an object of another type, such as an endpoint. An absent value and
  a null pointer are the same.
\<close>

datatype xpc =
    XDict "(string \<times> xpc) list"
  | XArray "xpc list"
  | XString "rstring option"
  | XInt i64
  | XDouble f64
  | XBool bool
  | XShmem nat
  | XOther nat

type_synonym dictionary = "(string \<times> xpc) list"

definition get_value :: "string \<Rightarrow> dictionary \<Rightarrow> xpc option" where
  "get_value key d = map_of d key"

definition dict_contains :: "string \<Rightarrow> dictionary \<Rightarrow> bool" where
  "dict_contains key d \<longleftrightarrow> get_value key d \<noteq> None"

definition get_i64 :: "string \<Rightarrow> dictionary \<Rightarrow> i64 option" where
  "get_i64 key d = (case get_value key d of Some (XInt n) \<Rightarrow> Some n | _ \<Rightarrow> None)"

definition get_f64 :: "string \<Rightarrow> dictionary \<Rightarrow> f64 option" where
  "get_f64 key d = (case get_value key d of Some (XDouble x) \<Rightarrow> Some x | _ \<Rightarrow> None)"

definition get_string :: "string \<Rightarrow> dictionary \<Rightarrow> rstring option" where
  "get_string key d = (case get_value key d of Some (XString s) \<Rightarrow> s | _ \<Rightarrow> None)"

definition get_dictionary :: "string \<Rightarrow> dictionary \<Rightarrow> dictionary option" where
  "get_dictionary key d = (case get_value key d of Some (XDict e) \<Rightarrow> Some e | _ \<Rightarrow> None)"

definition get_array :: "string \<Rightarrow> dictionary \<Rightarrow> xpc list option" where
  "get_array key d = (case get_value key d of Some (XArray xs) \<Rightarrow> Some xs | _ \<Rightarrow> None)"

definition array_get_i64 :: "nat \<Rightarrow> xpc list \<Rightarrow> i64 option" where
  "array_get_i64 index xs =
     (if length xs \<le> index then None else case xs ! index of XInt n \<Rightarrow> Some n | _ \<Rightarrow> None)"

section \<open>Keys and types\<close>

abbreviation KEY_VERSION :: string where
  "KEY_VERSION \<equiv> ''v''"

abbreviation KEY_TYPE :: string where
  "KEY_TYPE \<equiv> ''type''"

abbreviation KEY_OK :: string where
  "KEY_OK \<equiv> ''ok''"

abbreviation KEY_ERROR :: string where
  "KEY_ERROR \<equiv> ''error''"

abbreviation KEY_CODE :: string where
  "KEY_CODE \<equiv> ''code''"

abbreviation KEY_MESSAGE :: string where
  "KEY_MESSAGE \<equiv> ''message''"

abbreviation KEY_ENGINE_VERSION :: string where
  "KEY_ENGINE_VERSION \<equiv> ''engine_version''"

abbreviation KEY_CONTRACT_VERSION :: string where
  "KEY_CONTRACT_VERSION \<equiv> ''contract_version''"

abbreviation KEY_BAND_COUNT :: string where
  "KEY_BAND_COUNT \<equiv> ''band_count''"

abbreviation KEY_DEVICES :: string where
  "KEY_DEVICES \<equiv> ''devices''"

abbreviation KEY_NAME :: string where
  "KEY_NAME \<equiv> ''name''"

abbreviation KEY_SAMPLE_RATE :: string where
  "KEY_SAMPLE_RATE \<equiv> ''sample_rate''"

abbreviation KEY_CHANNELS :: string where
  "KEY_CHANNELS \<equiv> ''channels''"

abbreviation KEY_SUPPORTED :: string where
  "KEY_SUPPORTED \<equiv> ''supported''"

abbreviation KEY_SOURCE :: string where
  "KEY_SOURCE \<equiv> ''source''"

abbreviation KEY_KIND :: string where
  "KEY_KIND \<equiv> ''kind''"

abbreviation KEY_DEVICE_NAME :: string where
  "KEY_DEVICE_NAME \<equiv> ''device_name''"

abbreviation KEY_HZ :: string where
  "KEY_HZ \<equiv> ''hz''"

abbreviation KEY_RATE_HZ :: string where
  "KEY_RATE_HZ \<equiv> ''rate_hz''"

abbreviation KEY_MIDI :: string where
  "KEY_MIDI \<equiv> ''midi''"

abbreviation KEY_BPM :: string where
  "KEY_BPM \<equiv> ''bpm''"

abbreviation KEY_CONFIG_YAML :: string where
  "KEY_CONFIG_YAML \<equiv> ''config_yaml''"

abbreviation KEY_AUDIO_DEVICE :: string where
  "KEY_AUDIO_DEVICE \<equiv> ''audio_device''"

abbreviation KEY_MIDI_DEVICE :: string where
  "KEY_MIDI_DEVICE \<equiv> ''midi_device''"

abbreviation KEY_FRAMES :: string where
  "KEY_FRAMES \<equiv> ''frames''"

abbreviation KEY_FRAME_BYTES :: string where
  "KEY_FRAME_BYTES \<equiv> ''frame_bytes''"

abbreviation KEY_REASON :: string where
  "KEY_REASON \<equiv> ''reason''"

abbreviation TYPE_HELLO :: string where
  "TYPE_HELLO \<equiv> ''hello''"

abbreviation TYPE_LIST_AUDIO_DEVICES :: string where
  "TYPE_LIST_AUDIO_DEVICES \<equiv> ''list_audio_devices''"

abbreviation TYPE_LIST_MIDI_DEVICES :: string where
  "TYPE_LIST_MIDI_DEVICES \<equiv> ''list_midi_devices''"

abbreviation TYPE_START :: string where
  "TYPE_START \<equiv> ''start''"

abbreviation TYPE_STOP :: string where
  "TYPE_STOP \<equiv> ''stop''"

abbreviation EVENT_ERROR :: string where
  "EVENT_ERROR \<equiv> ''error''"

abbreviation EVENT_STOPPED :: string where
  "EVENT_STOPPED \<equiv> ''stopped''"

abbreviation SOURCE_DEVICE :: string where
  "SOURCE_DEVICE \<equiv> ''device''"

abbreviation SOURCE_TEST_TONE :: string where
  "SOURCE_TEST_TONE \<equiv> ''test_tone''"

abbreviation SOURCE_TEST_SWEEP :: string where
  "SOURCE_TEST_SWEEP \<equiv> ''test_sweep''"

abbreviation MIDI_DEVICE :: string where
  "MIDI_DEVICE \<equiv> ''device''"

abbreviation MIDI_TEST_CLOCK :: string where
  "MIDI_TEST_CLOCK \<equiv> ''test_clock''"

abbreviation REASON_REQUESTED :: string where
  "REASON_REQUESTED \<equiv> ''requested''"

abbreviation REASON_FAILED :: string where
  "REASON_FAILED \<equiv> ''failed''"

definition CONTRACT_VERSION :: i64 where
  "CONTRACT_VERSION = 1"

section \<open>Requests\<close>

datatype source_request =
    SourceDevice rstring "u16 list option"
  | TestTone f32
  | TestSweep f32

datatype midi_request =
    MidiRequestDevice rstring
  | MidiRequestClock f32

record start_request =
  sr_source :: source_request
  sr_midi :: "midi_request option"
  sr_config_yaml :: "rstring option"

datatype request =
    Hello
  | ListAudioDevices
  | ListMidiDevices
  | Start start_request
  | Stop

datatype link_error =
    ContractMismatch i64 i64
  | InvalidRequest rstring
  | AlreadyRunning

fun link_error_code :: "link_error \<Rightarrow> string" where
  "link_error_code (ContractMismatch requested supported) = ''ContractMismatch''"
| "link_error_code (InvalidRequest m) = ''InvalidRequest''"
| "link_error_code AlreadyRunning = ''AlreadyRunning''"

definition show_i64 :: "i64 \<Rightarrow> rstring" where
  "show_i64 n = (if sint n < 0 then lit ''-'' else []) @ show_nat (nat \<bar>sint n\<bar>)"

fun link_error_text :: "link_error \<Rightarrow> rstring" where
  "link_error_text (ContractMismatch requested supported) =
     lit ''This engine speaks link contract version '' @ show_i64 supported @
     lit '', and the request used version '' @ show_i64 requested"
| "link_error_text (InvalidRequest m) = lit ''Invalid request: '' @ m"
| "link_error_text AlreadyRunning = lit ''The engine is already running. Send stop before start.''"

definition invalid :: "string \<Rightarrow> link_error" where
  "invalid key = InvalidRequest (lit ''`'' @ lit key @ lit ''` is missing or has the wrong type'')"

definition is_not :: "rstring \<Rightarrow> string \<Rightarrow> link_error" where
  "is_not other what = InvalidRequest (lit ''`'' @ other @ lit ''` is not a '' @ lit what)"

text \<open>\<^verbatim>\<open>u16::try_from\<close> on an \<^verbatim>\<open>i64\<close>.\<close>

definition u16_try_from :: "i64 \<Rightarrow> u16 option" where
  "u16_try_from n = (if 0 \<le> sint n \<and> sint n < 65536 then Some (ucast n) else None)"

fun collect_results :: "('e + 'a) list \<Rightarrow> 'e + 'a list" where
  "collect_results [] = Inr []"
| "collect_results (r # rs) = and_then r (\<lambda>x. and_then (collect_results rs) (\<lambda>xs. Inr (x # xs)))"

definition parse_channels :: "dictionary \<Rightarrow> link_error + u16 list option" where
  "parse_channels source =
     (if \<not> dict_contains KEY_CHANNELS source then Inr None
      else and_then (ok_or (get_array KEY_CHANNELS source) (invalid KEY_CHANNELS)) (\<lambda>channels.
        and_then (collect_results (map (\<lambda>index.
            ok_or (Option.bind (array_get_i64 index channels) u16_try_from) (invalid KEY_CHANNELS))
          [0..<length channels]))
        (\<lambda>cs. Inr (Some cs))))"

definition parse_source :: "dictionary \<Rightarrow> link_error + source_request" where
  "parse_source source =
     and_then (ok_or (get_string KEY_KIND source) (invalid KEY_KIND)) (\<lambda>kind.
       if kind = lit SOURCE_DEVICE then
         and_then (ok_or (get_string KEY_DEVICE_NAME source) (invalid KEY_DEVICE_NAME)) (\<lambda>dev.
         and_then (parse_channels source) (\<lambda>channels. Inr (SourceDevice dev channels)))
       else if kind = lit SOURCE_TEST_TONE then
         and_then (ok_or (get_f64 KEY_HZ source) (invalid KEY_HZ)) (\<lambda>hz. Inr (TestTone (f32_of_f64 hz)))
       else if kind = lit SOURCE_TEST_SWEEP then
         and_then (ok_or (get_f64 KEY_RATE_HZ source) (invalid KEY_RATE_HZ))
           (\<lambda>rate_hz. Inr (TestSweep (f32_of_f64 rate_hz)))
       else Inl (is_not kind ''source kind''))"

definition parse_midi :: "dictionary \<Rightarrow> link_error + midi_request" where
  "parse_midi midi =
     and_then (ok_or (get_string KEY_KIND midi) (invalid KEY_KIND)) (\<lambda>kind.
       if kind = lit MIDI_DEVICE then
         and_then (ok_or (get_string KEY_DEVICE_NAME midi) (invalid KEY_DEVICE_NAME))
           (\<lambda>dev. Inr (MidiRequestDevice dev))
       else if kind = lit MIDI_TEST_CLOCK then
         and_then (ok_or (get_f64 KEY_BPM midi) (invalid KEY_BPM))
           (\<lambda>bpm. Inr (MidiRequestClock (f32_of_f64 bpm)))
       else Inl (is_not kind ''MIDI kind''))"

definition parse_start :: "dictionary \<Rightarrow> link_error + start_request" where
  "parse_start message =
     and_then (and_then (ok_or (get_dictionary KEY_SOURCE message) (invalid KEY_SOURCE)) parse_source) (\<lambda>source.
     and_then
       (if dict_contains KEY_MIDI message
        then and_then (ok_or (get_dictionary KEY_MIDI message) (invalid KEY_MIDI))
          (\<lambda>midi. and_then (parse_midi midi) (\<lambda>m. Inr (Some m)))
        else Inr None) (\<lambda>midi.
     and_then
       (if dict_contains KEY_CONFIG_YAML message
        then and_then (ok_or (get_string KEY_CONFIG_YAML message) (invalid KEY_CONFIG_YAML))
          (\<lambda>text. Inr (Some text))
        else Inr None) (\<lambda>config_yaml.
     Inr \<lparr>sr_source = source, sr_midi = midi, sr_config_yaml = config_yaml\<rparr>)))"

definition parse_request :: "dictionary \<Rightarrow> link_error + request" where
  "parse_request message =
     and_then (ok_or (get_i64 KEY_VERSION message) (invalid KEY_VERSION)) (\<lambda>version.
     if version \<noteq> CONTRACT_VERSION then Inl (ContractMismatch version CONTRACT_VERSION)
     else and_then (ok_or (get_string KEY_TYPE message) (invalid KEY_TYPE)) (\<lambda>request_type.
       if request_type = lit TYPE_HELLO then Inr Hello
       else if request_type = lit TYPE_LIST_AUDIO_DEVICES then Inr ListAudioDevices
       else if request_type = lit TYPE_LIST_MIDI_DEVICES then Inr ListMidiDevices
       else if request_type = lit TYPE_START then and_then (parse_start message) (\<lambda>s. Inr (Start s))
       else if request_type = lit TYPE_STOP then Inr Stop
       else Inl (is_not request_type ''request type'')))"

section \<open>From a start request to a configuration\<close>

definition start_args :: "start_request \<Rightarrow> args" where
  "start_args start =
     \<lparr>ar_config = None, ar_headless = False,
      ar_calibration =
        \<lparr>ca_test_hz = (case sr_source start of TestTone hz \<Rightarrow> Some hz | _ \<Rightarrow> None),
         ca_test_sweep = (case sr_source start of TestSweep rate_hz \<Rightarrow> Some rate_hz | _ \<Rightarrow> None),
         ca_test_midi_clock = (case sr_midi start of Some (MidiRequestClock bpm) \<Rightarrow> Some bpm | _ \<Rightarrow> None)\<rparr>,
      ar_input =
        \<lparr>ia_audio_device = (case sr_source start of SourceDevice dev channels \<Rightarrow> Some dev | _ \<Rightarrow> None),
         ia_audio_list = False, ia_audio_list_format = ListText,
         ia_audio_analyse_channels = (case sr_source start of SourceDevice dev channels \<Rightarrow> channels | _ \<Rightarrow> None)\<rparr>,
      ar_midi =
        \<lparr>ma_midi_device = (case sr_midi start of Some (MidiRequestDevice dev) \<Rightarrow> Some dev | _ \<Rightarrow> None),
         ma_midi_list = False, ma_midi_list_format = ListText\<rparr>,
      ar_network = \<lparr>na_ws_addr = None, na_max_clients = None, na_no_browser_origin = False, na_osc_addr = None\<rparr>,
      ar_vocoder = \<lparr>va_attack_ms = None, va_release_ms = None, va_freq_low = None,
        va_freq_high = None, va_filter_q = None\<rparr>\<rparr>"

definition to_app_config ::
  "runtime_env \<Rightarrow> (rstring \<Rightarrow> rstring + file_config) \<Rightarrow> start_request \<Rightarrow> region_slot
    \<Rightarrow> app_config_error + app_config" where
  "to_app_config env parse start slot =
     and_then (case sr_config_yaml start of
         Some text \<Rightarrow> parse_file_config parse text
       | None \<Rightarrow> Inr file_config_default)
       (\<lambda>file. resolve_with_outputs env (start_args start)
          (file\<lparr>fc_network := file_network_default\<rparr>) [FrameRegion slot])"

section \<open>The wire form\<close>

text \<open>
  The specification of a request: what a client sends, with the floats at their width on the wire,
  and the dictionary that carries it.
\<close>

datatype wire_source =
    WireDevice rstring "u16 list option"
  | WireTone f64
  | WireSweep f64

datatype wire_midi =
    WireMidiDevice rstring
  | WireClock f64

datatype wire_request =
    WireHello
  | WireListAudio
  | WireListMidi
  | WireStart wire_source "wire_midi option" "rstring option"
  | WireStop

definition xstr :: "string \<Rightarrow> xpc" where
  "xstr s = XString (Some (lit s))"

definition xchannels :: "u16 list \<Rightarrow> xpc" where
  "xchannels cs = XArray (map (\<lambda>c. XInt (ucast c)) cs)"

definition optional :: "string \<Rightarrow> xpc option \<Rightarrow> dictionary" where
  "optional key v = (case v of Some x \<Rightarrow> [(key, x)] | None \<Rightarrow> [])"

fun encode_source :: "wire_source \<Rightarrow> dictionary" where
  "encode_source (WireDevice dev cs) = [(KEY_KIND, xstr SOURCE_DEVICE), (KEY_DEVICE_NAME, XString (Some dev))] @
     optional KEY_CHANNELS (map_option xchannels cs)"
| "encode_source (WireTone hz) = [(KEY_KIND, xstr SOURCE_TEST_TONE), (KEY_HZ, XDouble hz)]"
| "encode_source (WireSweep r) = [(KEY_KIND, xstr SOURCE_TEST_SWEEP), (KEY_RATE_HZ, XDouble r)]"

fun encode_midi :: "wire_midi \<Rightarrow> dictionary" where
  "encode_midi (WireMidiDevice dev) = [(KEY_KIND, xstr MIDI_DEVICE), (KEY_DEVICE_NAME, XString (Some dev))]"
| "encode_midi (WireClock bpm) = [(KEY_KIND, xstr MIDI_TEST_CLOCK), (KEY_BPM, XDouble bpm)]"

definition message :: "string \<Rightarrow> dictionary" where
  "message t = [(KEY_VERSION, XInt CONTRACT_VERSION), (KEY_TYPE, xstr t)]"

fun encode_request :: "wire_request \<Rightarrow> dictionary" where
  "encode_request WireHello = message TYPE_HELLO"
| "encode_request WireListAudio = message TYPE_LIST_AUDIO_DEVICES"
| "encode_request WireListMidi = message TYPE_LIST_MIDI_DEVICES"
| "encode_request (WireStart src midi cfg) = message TYPE_START @ [(KEY_SOURCE, XDict (encode_source src))] @
     optional KEY_MIDI (map_option (\<lambda>m. XDict (encode_midi m)) midi) @
     optional KEY_CONFIG_YAML (map_option (\<lambda>t. XString (Some t)) cfg)"
| "encode_request WireStop = message TYPE_STOP"

fun source_of :: "wire_source \<Rightarrow> source_request" where
  "source_of (WireDevice dev cs) = SourceDevice dev cs"
| "source_of (WireTone hz) = TestTone (f32_of_f64 hz)"
| "source_of (WireSweep r) = TestSweep (f32_of_f64 r)"

fun midi_of :: "wire_midi \<Rightarrow> midi_request" where
  "midi_of (WireMidiDevice dev) = MidiRequestDevice dev"
| "midi_of (WireClock bpm) = MidiRequestClock (f32_of_f64 bpm)"

fun request_of :: "wire_request \<Rightarrow> request" where
  "request_of WireHello = Hello"
| "request_of WireListAudio = ListAudioDevices"
| "request_of WireListMidi = ListMidiDevices"
| "request_of (WireStart src midi cfg) = Start
     \<lparr>sr_source = source_of src, sr_midi = map_option midi_of midi, sr_config_yaml = cfg\<rparr>"
| "request_of WireStop = Stop"

lemma lit_inject [simp]: "lit a = lit b \<longleftrightarrow> a = b"
  unfolding lit_def by (rule inj_map_eq_map) (simp add: inj_of_char)

lemmas dict_simps = get_value_def dict_contains_def get_i64_def get_f64_def get_string_def
  get_dictionary_def get_array_def optional_def xstr_def message_def and_then_Inr ok_or_def

section \<open>Channels\<close>

lemma sint_ucast_u16: "sint (ucast (c :: u16) :: i64) = uint c"
proof -
  have "sint (ucast c :: i64) = signed_take_bit 63 (uint c)"
    by (simp add: sint_uint unsigned_ucast_eq signed_take_bit_take_bit)
  also have "\<dots> = uint c"
    using unsigned_less [of c, where ?'a = int]
    by (intro signed_take_bit_int_eq_self) (auto intro: order_trans [OF _ uint_ge_0])
  finally show ?thesis .
qed

lemma u16_try_from_ucast [simp]: "u16_try_from (ucast c) = Some c"
proof -
  have "uint c < 65536" using unsigned_less [of c, where ?'a = int] by simp
  moreover have "ucast (ucast c :: i64) = c" by (rule ucast_up_ucast_id) (simp add: is_up)
  ultimately show ?thesis by (simp add: u16_try_from_def sint_ucast_u16)
qed

lemma ucast_u16_ucast:
  assumes "0 \<le> sint (n :: i64)" "sint n < 65536"
  shows "ucast (ucast n :: u16) = n"
proof -
  have "uint n = sint n mod 2 ^ 64" by (simp add: uint_sint take_bit_eq_mod)
  then have u: "uint n = sint n" using assms by simp
  define m where "m = (ucast n :: u16)"
  have "uint m = uint n"
    unfolding m_def unsigned_ucast_eq u using assms by (simp add: take_bit_eq_mod)
  then have "uint (ucast m :: i64) = uint n"
    using u assms by (simp add: unsigned_ucast_eq take_bit_eq_mod)
  then have "ucast m = n" by (simp only: word_uint_eq_iff)
  then show ?thesis by (simp only: m_def)
qed

lemma u16_try_from_Some: "u16_try_from n = Some c \<longleftrightarrow> n = ucast c"
proof
  assume "u16_try_from n = Some c"
  then have "c = ucast n" "0 \<le> sint n" "sint n < 65536" by (auto simp: u16_try_from_def split: if_splits)
  then show "n = ucast c" by (simp only: ucast_u16_ucast)
qed (simp only: u16_try_from_ucast)

lemma collect_results_Inr: "collect_results rs = Inr xs \<longleftrightarrow> rs = map Inr xs"
  by (induction rs arbitrary: xs) (auto simp: and_then_Inr)

lemma map_upt_eq_map:
  "map f [0..<n] = map g ys \<longleftrightarrow> n = length ys \<and> (\<forall>i < n. f i = g (ys ! i))"
proof
  assume eq: "map f [0..<n] = map g ys"
  from arg_cong [OF eq, of length] have "n = length ys" by simp
  moreover have "f i = g (ys ! i)" if "i < n" for i
    using arg_cong [OF eq, of "\<lambda>zs. zs ! i"] that \<open>n = length ys\<close> by simp
  ultimately show "n = length ys \<and> (\<forall>i < n. f i = g (ys ! i))" by simp
qed (auto intro: nth_equalityI)

lemma eq_map_iff: "xs = map g ys \<longleftrightarrow> length xs = length ys \<and> (\<forall>i < length xs. xs ! i = g (ys ! i))"
  by (auto intro: nth_equalityI)

lemma channel_at:
  "ok_or (Option.bind (array_get_i64 i xs) u16_try_from) e = Inr c \<longleftrightarrow> i < length xs \<and> xs ! i = XInt (ucast c)"
  by (auto simp: ok_or_Inr bind_eq_Some_conv array_get_i64_def u16_try_from_Some split: xpc.splits)

lemma parse_channels_iff:
  "parse_channels source = Inr (Some cs) \<longleftrightarrow>
     get_value KEY_CHANNELS source = Some (XArray (map (\<lambda>c. XInt (ucast c)) cs))"
proof -
  have read: "collect_results (map (\<lambda>i. ok_or (Option.bind (array_get_i64 i xs) u16_try_from) e) [0..<length xs]) =
      Inr cs \<longleftrightarrow> xs = map (\<lambda>c. XInt (ucast c)) cs" for xs and e :: link_error
    unfolding collect_results_Inr map_upt_eq_map eq_map_iff [of xs] channel_at by blast
  show ?thesis
    by (auto simp: parse_channels_def dict_contains_def get_array_def and_then_Inr ok_or_Inr read
        split: option.splits xpc.splits)
qed

text \<open>
  The channels of a start request are taken exactly: a selection is read if and only if the
  array holds those indices as integers, in that order; a negative index, one above 65535 or an
  element of another type is never truncated or skipped.
\<close>

lemma parse_channels_exact:
  "parse_channels source = Inr (Some cs) \<longleftrightarrow>
     get_value KEY_CHANNELS source = Some (XArray (map (\<lambda>c. XInt (ucast c)) cs))"
  by (rule parse_channels_iff)

section \<open>Round trip\<close>

lemma parse_channels_encode [simp]:
  "get_value KEY_CHANNELS d = map_option xchannels cs \<Longrightarrow> parse_channels d = Inr cs"
  using parse_channels_iff [of d "the cs"]
  by (cases cs) (auto simp: xchannels_def parse_channels_def dict_contains_def)

lemma get_value_Cons [simp]: "get_value k ((k', v) # d) = (if k = k' then Some v else get_value k d)"
  by (simp add: get_value_def)

lemma get_value_Nil [simp]: "get_value k [] = None"
  by (simp add: get_value_def)

lemma get_value_optional [simp]: "get_value k (optional k' v @ d) = (if k = k' \<and> v \<noteq> None then v else get_value k d)"
  by (cases v) (simp_all add: optional_def)

lemma get_value_optional_only [simp]: "get_value k (optional k' v) = (if k = k' then v else None)"
  using get_value_optional [of k k' v "[]"] by (cases v) simp_all

lemmas typed_reads = get_i64_def get_f64_def get_string_def get_dictionary_def get_array_def dict_contains_def
  ok_or_Inr and_then_Inr

lemma parse_source_encode [simp]: "parse_source (encode_source src) = Inr (source_of src)"
  by (cases src) (simp_all add: parse_source_def typed_reads xstr_def ok_or_def)

lemma parse_midi_encode [simp]: "parse_midi (encode_midi m) = Inr (midi_of m)"
  by (cases m) (simp_all add: parse_midi_def typed_reads xstr_def ok_or_def)

definition contract_keys :: "string list" where
  "contract_keys = [KEY_VERSION, KEY_TYPE, KEY_SOURCE, KEY_MIDI, KEY_CONFIG_YAML]"

lemma parse_request_encode:
  assumes "\<forall>k \<in> set contract_keys. get_value k d = get_value k (encode_request w)"
  shows "parse_request d = Inr (request_of w)"
proof -
  have d: "get_value KEY_VERSION d = get_value KEY_VERSION (encode_request w)"
    "get_value KEY_TYPE d = get_value KEY_TYPE (encode_request w)"
    "get_value KEY_SOURCE d = get_value KEY_SOURCE (encode_request w)"
    "get_value KEY_MIDI d = get_value KEY_MIDI (encode_request w)"
    "get_value KEY_CONFIG_YAML d = get_value KEY_CONFIG_YAML (encode_request w)"
    using assms by (simp_all add: contract_keys_def)
  have version: "get_i64 KEY_VERSION d = Some CONTRACT_VERSION"
    unfolding get_i64_def d(1) by (cases w) (simp_all add: message_def)
  have type: "get_string KEY_TYPE d = (case w of WireHello \<Rightarrow> Some (lit TYPE_HELLO)
      | WireListAudio \<Rightarrow> Some (lit TYPE_LIST_AUDIO_DEVICES) | WireListMidi \<Rightarrow> Some (lit TYPE_LIST_MIDI_DEVICES)
      | WireStart src midi cfg \<Rightarrow> Some (lit TYPE_START) | WireStop \<Rightarrow> Some (lit TYPE_STOP))"
    unfolding get_string_def d(2) by (cases w) (simp_all add: message_def xstr_def)
  show ?thesis
  proof (cases w)
    case (WireStart src midi cfg)
    have "get_dictionary KEY_SOURCE d = Some (encode_source src)"
      unfolding get_dictionary_def d(3) WireStart by (simp add: message_def)
    moreover have "get_value KEY_MIDI d = map_option (\<lambda>m. XDict (encode_midi m)) midi"
      unfolding d(4) WireStart by (simp add: message_def)
    moreover have "get_value KEY_CONFIG_YAML d = map_option (\<lambda>t. XString (Some t)) cfg"
      unfolding d(5) WireStart by (simp add: message_def)
    ultimately have "parse_start d = Inr \<lparr>sr_source = source_of src, sr_midi = map_option midi_of midi, sr_config_yaml = cfg\<rparr>"
      by (cases midi; cases cfg)
        (simp_all add: parse_start_def typed_reads ok_or_def)
    with version type WireStart show ?thesis
      by (simp add: parse_request_def ok_or_def and_then_Inr)
  qed (use version type in \<open>simp_all add: parse_request_def ok_or_def and_then_Inr\<close>)
qed

text \<open>
  Claim C35. Round trip of the link: every request that a client encodes as the contract says is
  parsed back to that request, whatever the order of the entries and whatever other keys the
  message carries; the floats are narrowed to binary32.
\<close>

theorem parse_request_round_trip:
  assumes "\<forall>k \<in> set contract_keys. get_value k d = get_value k (encode_request w)"
  shows "parse_request d = Inr (request_of w)"
  by (rule parse_request_encode [OF assms])

theorem parse_request_round_trip_witness:
  "parse_request (rev (encode_request (WireStart (WireDevice (lit ''Duet 3'') (Some [3, 1])) None (Some (lit ''vocoder: {}'')))) @
      [(''extra'', XBool True)]) =
    Inr (Start \<lparr>sr_source = SourceDevice (lit ''Duet 3'') (Some [3, 1]), sr_midi = None,
      sr_config_yaml = Some (lit ''vocoder: {}'')\<rparr>)"
proof -
  let ?w = "WireStart (WireDevice (lit ''Duet 3'') (Some [3, 1])) None (Some (lit ''vocoder: {}''))"
  have "parse_request (rev (encode_request ?w) @ [(''extra'', XBool True)]) = Inr (request_of ?w)"
    by (rule parse_request_round_trip) (simp add: contract_keys_def message_def optional_def)
  then show ?thesis by simp
qed

section \<open>Rejected messages\<close>

lemma and_then_error: "and_then r f = Inl e \<longleftrightarrow> r = Inl e \<or> (\<exists>x. r = Inr x \<and> f x = Inl e)"
  by (cases r) (auto simp: and_then_def)

definition invalid_request :: "link_error \<Rightarrow> bool" where
  "invalid_request e \<longleftrightarrow> (\<exists>m. e = InvalidRequest m)"

lemma invalid_request_simps [simp]:
  "invalid_request (invalid k)" "invalid_request (is_not a b)"
  by (simp_all add: invalid_request_def invalid_def is_not_def)

lemma ok_or_Inl: "ok_or x e = Inl e' \<longleftrightarrow> x = None \<and> e' = e"
  by (auto simp: ok_or_def split: option.splits)

lemma collect_results_Inl: "collect_results rs = Inl e \<Longrightarrow> \<exists>r \<in> set rs. r = Inl e"
  by (induction rs) (auto simp: and_then_error)

lemma collect_ok_or_Inl:
  "collect_results (map (\<lambda>i. ok_or (f i) e') is) = Inl e \<Longrightarrow> e = e'"
  by (auto simp: ok_or_def dest!: collect_results_Inl split: option.splits)

lemma parse_channels_invalid: "parse_channels d = Inl e \<Longrightarrow> invalid_request e"
  by (auto simp: parse_channels_def and_then_error ok_or_Inl dest!: collect_ok_or_Inl split: if_splits)

lemma parse_source_invalid: "parse_source d = Inl e \<Longrightarrow> invalid_request e"
  by (auto simp: parse_source_def and_then_error ok_or_Inl dest: parse_channels_invalid split: if_splits)

lemma parse_midi_invalid: "parse_midi d = Inl e \<Longrightarrow> invalid_request e"
  by (auto simp: parse_midi_def and_then_error ok_or_Inl split: if_splits)

lemma parse_start_invalid: "parse_start d = Inl e \<Longrightarrow> invalid_request e"
  by (auto simp: parse_start_def and_then_error ok_or_Inl dest: parse_source_invalid parse_midi_invalid
      split: if_splits)

text \<open>
  How a message is refused: without a readable version the error names that key; with
  another version it is the mismatch and nothing else of the message matters; otherwise every
  refusal is an invalid request, and a message is accepted only with the supported version.
\<close>

lemma parse_request_refuses:
  "case parse_request d of
     Inr r \<Rightarrow> get_i64 KEY_VERSION d = Some CONTRACT_VERSION
   | Inl e \<Rightarrow> (case get_i64 KEY_VERSION d of
       None \<Rightarrow> e = invalid KEY_VERSION
     | Some v \<Rightarrow> if v = CONTRACT_VERSION then \<exists>m. e = InvalidRequest m else e = ContractMismatch v CONTRACT_VERSION)"
proof (cases "get_i64 KEY_VERSION d")
  case None
  then show ?thesis by (simp add: parse_request_def ok_or_def and_then_def)
next
  case (Some v)
  have "invalid_request e" if "v = CONTRACT_VERSION" "parse_request d = Inl e" for e
    using that Some
    by (auto simp: parse_request_def and_then_error ok_or_Inr ok_or_Inl dest: parse_start_invalid split: if_splits)
  with Some show ?thesis
    by (auto simp: invalid_request_def parse_request_def ok_or_def and_then_def split: sum.splits if_splits)
qed


section \<open>The configuration of a run\<close>

definition start_file ::
  "(rstring \<Rightarrow> rstring + file_config) \<Rightarrow> start_request \<Rightarrow> app_config_error + file_config" where
  "start_file parse start = (case sr_config_yaml start of
     Some text \<Rightarrow> parse_file_config parse text | None \<Rightarrow> Inr file_config_default)"

text \<open>What the input and the MIDI input of the run are, given the request and the config text.\<close>

definition expected_input :: "start_request \<Rightarrow> file_config \<Rightarrow> config_input \<Rightarrow> bool" where
  "expected_input start file input = (case sr_source start of
       TestTone hz \<Rightarrow> input = Calibration (FixedTone hz)
     | TestSweep rate_hz \<Rightarrow> input = Calibration (Sweep rate_hz)
     | SourceDevice dev channels \<Rightarrow> (\<exists>sel. input = Device dev sel \<and>
         normalise_channel_selection (opt_or channels (fa_analyse_channels (fc_audio file))) = Inr sel))"

definition expected_midi :: "start_request \<Rightarrow> file_config \<Rightarrow> config_midi_input option" where
  "expected_midi start file = (case sr_midi start of
       Some (MidiRequestClock bpm) \<Rightarrow> Some (TestClock bpm)
     | Some (MidiRequestDevice dev) \<Rightarrow> if trim dev = [] then None else Some (MidiDevice dev)
     | None \<Rightarrow> map_option MidiDevice (opt_filter (\<lambda>s. trim s \<noteq> []) (fm_device_name_match (fc_midi file))))"

lemma start_resolve_input:
  assumes "resolve_input (start_args start) (opt_filter (\<lambda>s. trim s \<noteq> [])
      (opt_or (ia_audio_device (ar_input (start_args start))) (fa_device_name_match (fc_audio file))))
    (opt_or (ia_audio_analyse_channels (ar_input (start_args start))) (fa_analyse_channels (fc_audio file))) = Inr input"
  shows "expected_input start file input"
  using assms
  by (cases "sr_source start")
    (auto simp: resolve_input_def start_args_def expected_input_def and_then_Inr ok_or_Inr opt_or_def opt_filter_def split: if_splits)

lemma start_resolve_midi:
  "resolve_midi_input env (start_args start) (fc_midi file) = Inr m \<Longrightarrow> m = expected_midi start file"
  by (auto simp: resolve_midi_input_def start_args_def expected_midi_def and_then_Inr opt_or_def opt_filter_def
      split: option.splits midi_request.splits if_splits)

text \<open>
  Claim C34. What a start request runs: a configuration that is accepted has the frame region as its
  only output whatever network section the config text has, passes the validation of \<^verbatim>\<open>App::new\<close>,
  analyses the requested source, and takes its MIDI input from the request, or, when the request
  names none, from the config text; likewise a device source without channels takes the selection
  of the config text.
\<close>

theorem start_config_contract:
  assumes "to_app_config env parse start slot = Inr cfg"
  shows "\<exists>file. start_file parse start = Inr file \<and> ac_outputs cfg = [FrameRegion slot] \<and>
    validate_app_config env cfg = Inr () \<and> expected_input start file (ac_input cfg) \<and>
    ac_midi_input cfg = expected_midi start file"
proof -
  from assms obtain f where tf: "start_file parse start = Inr f"
    and r: "resolve_with_outputs env (start_args start) (f\<lparr>fc_network := file_network_default\<rparr>)
      [FrameRegion slot] = Inr cfg"
    by (auto simp: to_app_config_def start_file_def and_then_Inr)
  have net: "ar_network (start_args start) =
      \<lparr>na_ws_addr = None, na_max_clients = None, na_no_browser_origin = False, na_osc_addr = None\<rparr>"
    by (simp add: start_args_def)
  have "validate_app_config env cfg = Inr ()"
    using resolve_valid [OF r] by simp
  moreover have "ac_outputs cfg = [FrameRegion slot]"
    using r by (auto simp: resolve_with_outputs_def Let_def and_then_Inr net file_network_default_def
        config_outputs_new_def opt_or_def)
  moreover have "expected_input start f (ac_input cfg)"
    by (rule start_resolve_input) (use r in \<open>auto simp: resolve_with_outputs_def Let_def and_then_Inr\<close>)
  moreover have "ac_midi_input cfg = expected_midi start f"
    by (rule start_resolve_midi [of env]) (use r in \<open>auto simp: resolve_with_outputs_def Let_def and_then_Inr\<close>)
  ultimately show ?thesis using tf by blast
qed

text \<open>A tone without MIDI, with a config text that names a MIDI device: the run listens to it.\<close>

definition midi_file :: file_config where
  "midi_file = file_config_default\<lparr>fc_midi := \<lparr>fm_device_name_match = Some (lit ''Loopback'')\<rparr>\<rparr>"

definition tone_start :: start_request where
  "tone_start = \<lparr>sr_source = TestTone 0x43DC0000, sr_midi = None, sr_config_yaml = Some (lit ''midi'')\<rparr>"

lemma trim_loopback: "trim (lit ''Loopback'') \<noteq> []"
  by (simp add: trim_empty lit_def white_space_def)

lemma tone_start_resolves:
  "\<exists>cfg. to_app_config demo_env (\<lambda>t. Inr midi_file) tone_start 0 = Inr cfg"
  by (simp add: to_app_config_def tone_start_def parse_file_config_def resolve_with_outputs_def resolve_input_def
      resolve_midi_input_def Let_def start_args_def midi_file_def file_config_default_def file_network_default_def
      normalise_channel_selection_def config_bits default_vocoder_valid demo_signal_valid config_outputs_new_def
      and_then_Inr opt_or_def del: validate_test_signal.simps)

theorem start_config_contract_witness:
  "\<exists>cfg. to_app_config demo_env (\<lambda>t. Inr midi_file) tone_start 0 = Inr cfg \<and> ac_outputs cfg = [FrameRegion 0] \<and>
     ac_input cfg = Calibration (FixedTone 0x43DC0000) \<and> ac_midi_input cfg = Some (MidiDevice (lit ''Loopback''))"
proof -
  obtain cfg where cfg: "to_app_config demo_env (\<lambda>t. Inr midi_file) tone_start 0 = Inr cfg"
    using tone_start_resolves by blast
  from start_config_contract [OF cfg] show ?thesis using cfg
    by (auto simp: start_file_def tone_start_def parse_file_config_def expected_input_def expected_midi_def
        midi_file_def opt_filter_def trim_loopback)
qed

end
