(* ===== verification/Xpc_Service.thy ===== *)
theory Xpc_Service
  imports App Xpc_Protocol
begin

text \<open>
  The XPC service, \<^verbatim>\<open>src/src/xpc/service.rs\<close>: one client, one engine run, and a monitor thread per
  run. The peer's handler and the monitors interleave; each step here is what a thread does between
  two of its synchronisations, with the critical sections of the two mutexes as single steps. The
  parser of the config text, the host and libxpc's answers are parameters.
\<close>

section \<open>Replies\<close>

definition ENGINE_POLL_INTERVAL_MS :: nat where
  "ENGINE_POLL_INTERVAL_MS = 50"

definition REGION_MISSING_MESSAGE :: string where
  "REGION_MISSING_MESSAGE = ''The frame region was not created''"

definition REGION_UNSHARED_MESSAGE :: string where
  "REGION_UNSHARED_MESSAGE = ''The frame region could not be shared''"

text \<open>Setting a key replaces its value; interior NUL characters of a string are replaced.\<close>

definition dict_set :: "string \<Rightarrow> xpc \<Rightarrow> dictionary \<Rightarrow> dictionary" where
  "dict_set key v d = filter (\<lambda>e. fst e \<noteq> key) d @ [(key, v)]"

definition c_string :: "rstring \<Rightarrow> rstring" where
  "c_string s = map (\<lambda>c. if c = 0 then 0xFFFD else c) s"

definition set_str :: "string \<Rightarrow> rstring \<Rightarrow> dictionary \<Rightarrow> dictionary" where
  "set_str key s = dict_set key (XString (Some (c_string s)))"

definition set_bool :: "string \<Rightarrow> bool \<Rightarrow> dictionary \<Rightarrow> dictionary" where
  "set_bool key b = dict_set key (XBool b)"

definition set_i64 :: "string \<Rightarrow> i64 \<Rightarrow> dictionary \<Rightarrow> dictionary" where
  "set_i64 key n = dict_set key (XInt n)"

definition fail_reply :: "string \<Rightarrow> rstring \<Rightarrow> dictionary \<Rightarrow> dictionary" where
  "fail_reply code msg reply =
     dict_set KEY_ERROR (XDict (set_str KEY_MESSAGE msg (set_str KEY_CODE (lit code) [])))
       (set_bool KEY_OK False reply)"

definition contract_int :: "nat \<Rightarrow> i64" where
  "contract_int n = (if n < 2 ^ 63 then of_nat n else 0x7FFFFFFFFFFFFFFF)"

record ('s, 'conn, 'l, 'k) service_env =
  en_host :: "('s, 'conn, 'l, 'k) host"
  en_parse :: "rstring \<Rightarrow> rstring + file_config"
  en_delay :: "nat \<Rightarrow> nat"
  en_show_error :: "any_error \<Rightarrow> rstring"
  en_package_version :: rstring
  en_audio_devices :: "any_error + device_info list"
  en_midi_devices :: "any_error + midi_device_info list"
  en_shmem_ok :: bool

definition fail_any :: "('s, 'conn, 'l, 'k) service_env \<Rightarrow> any_error \<Rightarrow> dictionary \<Rightarrow> dictionary" where
  "fail_any P e = fail_reply (error_code e) (en_show_error P e)"

definition audio_device_entry :: "device_info \<Rightarrow> dictionary" where
  "audio_device_entry entry =
     (let d = set_bool KEY_SUPPORTED (di_supported entry) (set_str KEY_NAME (di_name entry) []);
          d = (case di_sample_rate entry of
             Some sample_rate \<Rightarrow> set_i64 KEY_SAMPLE_RATE (ucast sample_rate) d | None \<Rightarrow> d)
      in case di_channels entry of
           Some channels \<Rightarrow> set_i64 KEY_CHANNELS (ucast channels) d | None \<Rightarrow> d)"

definition list_audio_devices ::
  "('s, 'conn, 'l, 'k) service_env \<Rightarrow> dictionary \<Rightarrow> dictionary" where
  "list_audio_devices P reply = (case en_audio_devices P of
       Inr entries \<Rightarrow> dict_set KEY_DEVICES (XArray (map (\<lambda>e. XDict (audio_device_entry e)) entries))
         (set_bool KEY_OK True reply)
     | Inl e \<Rightarrow> fail_any P e reply)"

definition list_midi_devices ::
  "('s, 'conn, 'l, 'k) service_env \<Rightarrow> dictionary \<Rightarrow> dictionary" where
  "list_midi_devices P reply = (case en_midi_devices P of
       Inr entries \<Rightarrow> dict_set KEY_DEVICES (XArray (map (\<lambda>e. XDict (set_str KEY_NAME (mi_name e) [])) entries))
         (set_bool KEY_OK True reply)
     | Inl e \<Rightarrow> fail_any P e reply)"

definition hello_reply :: "('s, 'conn, 'l, 'k) service_env \<Rightarrow> dictionary \<Rightarrow> dictionary" where
  "hello_reply P reply =
     set_i64 KEY_BAND_COUNT (contract_int BAND_COUNT) (set_i64 KEY_CONTRACT_VERSION CONTRACT_VERSION
       (set_str KEY_ENGINE_VERSION (en_package_version P) (set_bool KEY_OK True reply)))"

text \<open>
  The reply to a successful start; the shared memory object is named by the number of the run.
\<close>

definition start_reply :: "ready_report \<Rightarrow> frame_region \<Rightarrow> nat \<Rightarrow> dictionary \<Rightarrow> dictionary" where
  "start_reply ready region run reply =
     (let audio = rr_audio ready;
          reply = set_i64 KEY_FRAME_BYTES (contract_int (frame_bytes (rg_channel_count region)))
            (dict_set KEY_FRAMES (XShmem run)
            (dict_set KEY_CHANNELS (XArray (map (\<lambda>c. XInt (ucast c)) (ra_channels audio)))
            (set_i64 KEY_SAMPLE_RATE (ucast (ra_sample_rate audio)) (set_bool KEY_OK True reply))));
          reply = (case ra_device audio of Some dev \<Rightarrow> set_str KEY_AUDIO_DEVICE dev reply | None \<Rightarrow> reply)
      in case rr_midi_device ready of Some dev \<Rightarrow> set_str KEY_MIDI_DEVICE dev reply | None \<Rightarrow> reply)"

text \<open>
  Starting the engine: None is a panic; otherwise the reply, the application with its region if a run
  was started, and the clock. The slot of the request is the number zero of a fresh process state.
\<close>

definition start_engine ::
  "('s, 'conn, 'l, 'k) service_env \<Rightarrow> start_request \<Rightarrow> nat \<Rightarrow> clock \<Rightarrow> dictionary
    \<Rightarrow> (dictionary \<times> ('s app \<times> frame_region) option \<times> clock) option" where
  "start_engine P start run clk reply =
     (case to_app_config (ho_runtime (en_host P)) (en_parse P) start 0 of
        Inl e \<Rightarrow> Some (fail_any P (any_of (RConfig e)) reply, None, clk)
      | Inr config \<Rightarrow>
          Option.bind (app_new_headless (en_delay P) (en_host P) config (fresh_world (\<lambda>s. None) clk))
            (\<lambda>(w, built). case built of
               Inl e \<Rightarrow> Some (fail_any P e reply, None, bw_clock w)
             | Inr app \<Rightarrow> (case slot_region (bw_slots w 0) of
                 None \<Rightarrow> (case app_shutdown (en_delay P) app (bw_clock w) of (app, fx, clk) \<Rightarrow>
                   Some (fail_reply UNKNOWN_EVENT_CODE (lit REGION_MISSING_MESSAGE) reply, None, clk))
               | Some region \<Rightarrow>
                   if \<not> en_shmem_ok P then
                     (case app_shutdown (en_delay P) app (bw_clock w) of (app, fx, clk) \<Rightarrow>
                       Some (fail_reply UNKNOWN_EVENT_CODE (lit REGION_UNSHARED_MESSAGE) reply, None, clk))
                   else Some (start_reply (ap_ready_report app) region run reply,
                     Some (app, region), bw_clock w))))"

section \<open>The threads\<close>

text \<open>
  A run, with the number of its monitor thread; the stop flags and phases of the monitors are lists
  over those numbers. A monitor is at the check at the top of its loop, asleep, before its critical
  section, or has taken the run because the engine stopped itself.
\<close>

record 's running =
  rn_id :: nat
  rn_app :: "'s app"
  rn_region :: frame_region

datatype 's monitor =
    MCheck
  | MSleep
  | MLock
  | MFailed "'s running" any_error
  | MShut "'s running"
  | MSendStopped
  | MEndTransaction
  | MDone

text \<open>
  The handler: idle; about to take the run out of the mutex; with the run in hand, before it sets the
  monitor's flag, while it joins the monitor, and at the shutdown; and what follows: the reply, the
  stopped event, the end of the transaction, forgetting the peer.
\<close>

datatype end_reason = ForStop dictionary | ForGone

datatype 's handler =
    HIdle
  | HTake end_reason
  | HSignal "'s running" end_reason
  | HJoin "'s running" end_reason
  | HShut "'s running" end_reason
  | HReply dictionary "nat option"
  | HSendStopped nat
  | HEndTransaction nat bool
  | HForget

text \<open>
  The service. Every message goes with the peer it was sent to and the run it is about. That run, the
  list \<open>xs_down\<close> of the runs whose engine was shut down, the run numbers of the handler's last
  phases, the record \<open>xs_said\<close> of all messages, also of those for which there was no peer, and the list
  \<open>xs_silent\<close> of the runs ended for a client that has gone are not in the code; they serve the
  statements.
\<close>

record 's service =
  xs_peer :: "nat option"
  xs_run :: "'s running option"
  xs_handler :: "'s handler"
  xs_monitors :: "'s monitor list"
  xs_stop :: "bool list"
  xs_outbox :: "(nat \<times> nat option \<times> dictionary) list"
  xs_transactions :: int
  xs_clock :: clock
  xs_down :: "nat list"
  xs_said :: "(nat option \<times> nat option \<times> dictionary) list"
  xs_silent :: "nat list"

definition service_new :: "clock \<Rightarrow> 's service" where
  "service_new clk = \<lparr>xs_peer = None, xs_run = None, xs_handler = HIdle, xs_monitors = [], xs_stop = [],
     xs_outbox = [], xs_transactions = 0, xs_clock = clk, xs_down = [],
     xs_said = [], xs_silent = []\<rparr>"

definition send_to_peer :: "nat option \<Rightarrow> dictionary \<Rightarrow> 's service \<Rightarrow> 's service" where
  "send_to_peer about msg s = (let s = s\<lparr>xs_said := xs_said s @ [(xs_peer s, about, msg)]\<rparr> in
     case xs_peer s of
       Some peer \<Rightarrow> s\<lparr>xs_outbox := xs_outbox s @ [(peer, about, msg)]\<rparr>
     | None \<Rightarrow> s)"

definition event_message :: "string \<Rightarrow> dictionary" where
  "event_message event_type = set_str KEY_TYPE (lit event_type) (set_i64 KEY_VERSION CONTRACT_VERSION [])"

definition stopped_message :: "string \<Rightarrow> dictionary" where
  "stopped_message reason = set_str KEY_REASON (lit reason) (event_message EVENT_STOPPED)"

definition error_message :: "('s, 'conn, 'l, 'k) service_env \<Rightarrow> any_error \<Rightarrow> dictionary" where
  "error_message P e =
     set_str KEY_MESSAGE (en_show_error P e) (set_str KEY_CODE (lit (error_code e)) (event_message EVENT_ERROR))"

text \<open>Shutting an engine down, in the service's state.\<close>

definition shut_down ::
  "('s, 'conn, 'l, 'k) service_env \<Rightarrow> 's running \<Rightarrow> 's service \<Rightarrow> 's service" where
  "shut_down P r s = (case app_shutdown (en_delay P) (rn_app r) (xs_clock s) of (app, fx, clk) \<Rightarrow>
     s\<lparr>xs_clock := clk, xs_down := xs_down s @ [rn_id r]\<rparr>)"

definition accept_peer :: "nat \<Rightarrow> 's service \<Rightarrow> 's service" where
  "accept_peer connection s = (case xs_peer s of
       Some peer \<Rightarrow> s
     | None \<Rightarrow> s\<lparr>xs_peer := Some connection\<rparr>)"

text \<open>A start, in the critical section of the run's mutex.\<close>

definition service_start ::
  "('s, 'conn, 'l, 'k) service_env \<Rightarrow> start_request \<Rightarrow> dictionary \<Rightarrow> 's service \<Rightarrow> 's service option" where
  "service_start P start reply s =
     (if xs_run s \<noteq> None then Some (s\<lparr>xs_handler := HReply
        (fail_reply (link_error_code AlreadyRunning) (link_error_text AlreadyRunning) reply) None\<rparr>)
      else let run = length (xs_monitors s) in
        Option.bind (start_engine P start run (xs_clock s) reply) (\<lambda>(reply, started, clk).
          let s = s\<lparr>xs_clock := clk, xs_handler := HReply reply None\<rparr> in
          case started of
            None \<Rightarrow> Some s
          | Some (app, region) \<Rightarrow> Some (s\<lparr>xs_transactions := xs_transactions s + 1,
              xs_monitors := xs_monitors s @ [MCheck], xs_stop := xs_stop s @ [False],
              xs_run := Some \<lparr>rn_id = run, rn_app = app, rn_region = region\<rparr>\<rparr>)))"

text \<open>A message that expects a reply. A stop is answered when the run has been ended.\<close>

definition handle_message ::
  "('s, 'conn, 'l, 'k) service_env \<Rightarrow> dictionary \<Rightarrow> 's service \<Rightarrow> 's service option" where
  "handle_message P msg s =
     (let reply = set_i64 KEY_VERSION CONTRACT_VERSION [] in
      case parse_request msg of
        Inl e \<Rightarrow> Some (s\<lparr>xs_handler := HReply (fail_reply (link_error_code e) (link_error_text e) reply) None\<rparr>)
      | Inr Hello \<Rightarrow> Some (s\<lparr>xs_handler := HReply (hello_reply P reply) None\<rparr>)
      | Inr ListAudioDevices \<Rightarrow> Some (s\<lparr>xs_handler := HReply (list_audio_devices P reply) None\<rparr>)
      | Inr ListMidiDevices \<Rightarrow> Some (s\<lparr>xs_handler := HReply (list_midi_devices P reply) None\<rparr>)
      | Inr (Start start) \<Rightarrow> service_start P start reply s
      | Inr Stop \<Rightarrow> Some (s\<lparr>xs_handler := HTake (ForStop (set_bool KEY_OK True reply))\<rparr>))"

text \<open>The handler's next step; joining a monitor that has not ended blocks.\<close>

fun handler_step ::
  "('s, 'conn, 'l, 'k) service_env \<Rightarrow> 's handler \<Rightarrow> 's service \<Rightarrow> 's service" where
  "handler_step P HIdle s = s"
| "handler_step P (HTake reason) s = (case xs_run s of
       Some r \<Rightarrow> s\<lparr>xs_run := None, xs_handler := HSignal r reason\<rparr>
     | None \<Rightarrow> s\<lparr>xs_handler := (case reason of ForStop reply \<Rightarrow> HReply reply None | ForGone \<Rightarrow> HForget)\<rparr>)"
| "handler_step P (HSignal r reason) s =
     s\<lparr>xs_stop := (xs_stop s)[rn_id r := True], xs_handler := HJoin r reason\<rparr>"
| "handler_step P (HJoin r reason) s = (case xs_monitors s ! rn_id r of
       MDone \<Rightarrow> s\<lparr>xs_handler := HShut r reason\<rparr> | _ \<Rightarrow> s)"
| "handler_step P (HShut r reason) s = (shut_down P r s)\<lparr>xs_handler := (case reason of
       ForStop reply \<Rightarrow> HReply reply (Some (rn_id r)) | ForGone \<Rightarrow> HEndTransaction (rn_id r) True)\<rparr>"
| "handler_step P (HReply reply ended) s = (send_to_peer ended reply s)\<lparr>xs_handler := (case ended of
       Some run \<Rightarrow> HSendStopped run | None \<Rightarrow> HIdle)\<rparr>"
| "handler_step P (HSendStopped run) s =
     (send_to_peer (Some run) (stopped_message REASON_REQUESTED) s)\<lparr>xs_handler := HEndTransaction run False\<rparr>"
| "handler_step P (HEndTransaction run gone) s =
     s\<lparr>xs_transactions := xs_transactions s - 1, xs_handler := (if gone then HForget else HIdle),
       xs_silent := (if gone then xs_silent s @ [run] else xs_silent s)\<rparr>"
| "handler_step P HForget s = s\<lparr>xs_peer := None, xs_handler := HIdle\<rparr>"

text \<open>The next step of the monitor number \<open>i\<close>.\<close>

definition set_monitor :: "nat \<Rightarrow> 's monitor \<Rightarrow> 's service \<Rightarrow> 's service" where
  "set_monitor i m s = s\<lparr>xs_monitors := (xs_monitors s)[i := m]\<rparr>"

fun monitor_step ::
  "('s, 'conn, 'l, 'k) service_env \<Rightarrow> nat \<Rightarrow> 's monitor \<Rightarrow> 's service \<Rightarrow> 's service" where
  "monitor_step P i MCheck s = set_monitor i (if xs_stop s ! i then MDone else MSleep) s"
| "monitor_step P i MSleep s = set_monitor i (if xs_stop s ! i then MDone else MLock) s"
| "monitor_step P i MLock s = (case xs_run s of
       None \<Rightarrow> set_monitor i MDone s
     | Some r \<Rightarrow> (case engine_failure (ap_state (rn_app r)) of (state, failure) \<Rightarrow>
         let r = r\<lparr>rn_app := (rn_app r)\<lparr>ap_state := state\<rparr>\<rparr> in
         case failure of
           None \<Rightarrow> set_monitor i MCheck (s\<lparr>xs_run := Some r\<rparr>)
         | Some e \<Rightarrow> set_monitor i (MFailed r e) (s\<lparr>xs_run := None\<rparr>)))"
| "monitor_step P i (MFailed r e) s =
     set_monitor i (MShut r) (send_to_peer (Some (rn_id r)) (error_message P e) s)"
| "monitor_step P i (MShut r) s = set_monitor i MSendStopped (shut_down P r s)"
| "monitor_step P i MSendStopped s =
     set_monitor i MEndTransaction (send_to_peer (Some i) (stopped_message REASON_FAILED) s)"
| "monitor_step P i MEndTransaction s =
     set_monitor i MDone (s\<lparr>xs_transactions := xs_transactions s - 1\<rparr>)"
| "monitor_step P i MDone s = s"

text \<open>An input of the running engine's other threads.\<close>

definition engine_input :: "run_input \<Rightarrow> 's service \<Rightarrow> 's service" where
  "engine_input i s = s\<lparr>xs_run := map_option (\<lambda>r. r\<lparr>rn_app := (rn_app r)\<lparr>ap_state :=
     rv_state (apply_input i \<lparr>rv_state = ap_state (rn_app r), rv_shutdown_requested = False,
       rv_stdin_closed = False\<rparr>)\<rparr>\<rparr>) (xs_run s)\<rparr>"

text \<open>
  The interleavings. The handler's events come one at a time, on the peer's connection: a message, or
  the end of the connection.
\<close>

inductive service_step ::
  "('s, 'conn, 'l, 'k) service_env \<Rightarrow> 's service \<Rightarrow> 's service \<Rightarrow> bool" for P where
  peer_connects: "service_step P s (accept_peer connection s)"
| message_arrives: "xs_handler s = HIdle \<Longrightarrow> xs_peer s \<noteq> None \<Longrightarrow> handle_message P msg s = Some s' \<Longrightarrow>
     service_step P s s'"
| peer_gone: "xs_handler s = HIdle \<Longrightarrow> xs_peer s \<noteq> None \<Longrightarrow>
     service_step P s (s\<lparr>xs_handler := HTake ForGone\<rparr>)"
| handler_runs: "service_step P s (handler_step P (xs_handler s) s)"
| monitor_runs: "i < length (xs_monitors s) \<Longrightarrow> service_step P s (monitor_step P i (xs_monitors s ! i) s)"
| engine_runs: "service_step P s (engine_input i s)"

end
