(* ===== verification/Xpc_Runs.thy ===== *)
theory Xpc_Runs
  imports Xpc_Service
begin

text \<open>
  The life of the runs of the XPC service, over all interleavings of the client's connection, the
  handler and the monitors: who holds a run, who ends it, what the client is told, and what a
  handler waits for.
\<close>

section \<open>Who ends a run\<close>

fun looping :: "'s monitor \<Rightarrow> bool" where
  "looping MCheck = True"
| "looping MSleep = True"
| "looping MLock = True"
| "looping m = False"

fun monitor_run :: "'s monitor \<Rightarrow> nat option" where
  "monitor_run (MFailed r e) = Some (rn_id r)"
| "monitor_run (MShut r) = Some (rn_id r)"
| "monitor_run m = None"

fun monitor_ending :: "'s monitor \<Rightarrow> bool" where
  "monitor_ending (MFailed r e) = True"
| "monitor_ending (MShut r) = True"
| "monitor_ending MSendStopped = True"
| "monitor_ending MEndTransaction = True"
| "monitor_ending m = False"

fun handler_run :: "'s handler \<Rightarrow> nat option" where
  "handler_run (HSignal r reason) = Some (rn_id r)"
| "handler_run (HJoin r reason) = Some (rn_id r)"
| "handler_run (HShut r reason) = Some (rn_id r)"
| "handler_run h = None"

fun handler_waits :: "'s handler \<Rightarrow> nat option" where
  "handler_waits (HSignal r reason) = Some (rn_id r)"
| "handler_waits (HJoin r reason) = Some (rn_id r)"
| "handler_waits h = None"

fun handler_ending :: "'s handler \<Rightarrow> nat option" where
  "handler_ending (HSignal r reason) = Some (rn_id r)"
| "handler_ending (HJoin r reason) = Some (rn_id r)"
| "handler_ending (HShut r reason) = Some (rn_id r)"
| "handler_ending (HReply reply ended) = ended"
| "handler_ending (HSendStopped run) = Some run"
| "handler_ending (HEndTransaction run gone) = Some run"
| "handler_ending h = None"

definition active_run :: "'s service \<Rightarrow> nat option" where
  "active_run s = map_option rn_id (xs_run s)"

definition one_if :: "bool \<Rightarrow> nat" where
  "one_if b = (if b then 1 else 0)"

text \<open>
  How often the run number \<open>i\<close> is held, by the mutex, the handler or its monitor, or has been shut
  down; and the number of runs whose transaction has not ended.
\<close>

definition owners :: "'s service \<Rightarrow> nat \<Rightarrow> nat" where
  "owners s i = one_if (active_run s = Some i) + one_if (handler_run (xs_handler s) = Some i) +
     one_if (monitor_run (xs_monitors s ! i) = Some i) + count_list (xs_down s) i"

definition open_runs :: "'s service \<Rightarrow> nat" where
  "open_runs s = one_if (active_run s \<noteq> None) + one_if (handler_ending (xs_handler s) \<noteq> None) +
     length (filter monitor_ending (xs_monitors s))"

fun handler_fits :: "'s handler \<Rightarrow> 's monitor list \<Rightarrow> bool list \<Rightarrow> bool" where
  "handler_fits (HSignal r reason) ms stops = (rn_id r < length ms \<and> (looping (ms ! rn_id r) \<or> ms ! rn_id r = MDone))"
| "handler_fits (HJoin r reason) ms stops =
     (rn_id r < length ms \<and> stops ! rn_id r \<and> (looping (ms ! rn_id r) \<or> ms ! rn_id r = MDone))"
| "handler_fits (HShut r reason) ms stops = (rn_id r < length ms \<and> ms ! rn_id r = MDone)"
| "handler_fits h ms stops = True"

definition handler_good :: "'s service \<Rightarrow> bool" where
  "handler_good s = handler_fits (xs_handler s) (xs_monitors s) (xs_stop s)"

definition active_good :: "'s service \<Rightarrow> bool" where
  "active_good s \<longleftrightarrow> (\<forall>i. active_run s = Some i \<longrightarrow> i < length (xs_monitors s) \<and>
     looping (xs_monitors s ! i) \<and> \<not> xs_stop s ! i \<and> handler_ending (xs_handler s) = None)"

definition monitors_good :: "'s service \<Rightarrow> bool" where
  "monitors_good s \<longleftrightarrow> (\<forall>i < length (xs_monitors s).
     (looping (xs_monitors s ! i) \<longrightarrow> active_run s = Some i \<or> handler_waits (xs_handler s) = Some i) \<and>
     (monitor_run (xs_monitors s ! i) = None \<or> monitor_run (xs_monitors s ! i) = Some i))"

definition owned_once :: "'s service \<Rightarrow> bool" where
  "owned_once s \<longleftrightarrow> (\<forall>i < length (xs_monitors s). owners s i = 1) \<and>
     set (xs_down s) \<subseteq> {..< length (xs_monitors s)}"

definition service_inv :: "'s service \<Rightarrow> bool" where
  "service_inv s \<longleftrightarrow> length (xs_stop s) = length (xs_monitors s) \<and> active_good s \<and> handler_good s \<and>
     monitors_good s \<and> owned_once s \<and> xs_transactions s = int (open_runs s)"

lemmas service_inv_defs = service_inv_def active_good_def monitors_good_def owned_once_def owners_def open_runs_def

lemma one_if_simps [simp]: "one_if True = 1" "one_if False = 0"
  by (simp_all add: one_if_def)

lemma active_run_simps [simp]:
  "active_run (s\<lparr>xs_run := x\<rparr>) = map_option rn_id x" "active_run (s\<lparr>xs_handler := h\<rparr>) = active_run s"
  "active_run (s\<lparr>xs_monitors := ms\<rparr>) = active_run s" "active_run (s\<lparr>xs_stop := f\<rparr>) = active_run s"
  "active_run (s\<lparr>xs_transactions := t\<rparr>) = active_run s" "active_run (s\<lparr>xs_peer := p\<rparr>) = active_run s"
  "active_run (s\<lparr>xs_clock := c\<rparr>) = active_run s" "active_run (s\<lparr>xs_down := d\<rparr>) = active_run s"
  "active_run (s\<lparr>xs_outbox := b\<rparr>) = active_run s" "active_run (s\<lparr>xs_said := m\<rparr>) = active_run s"
  "active_run (s\<lparr>xs_silent := l\<rparr>) = active_run s"
  by (simp_all add: active_run_def)

lemma send_simps [simp]:
  "active_run (send_to_peer a m s) = active_run s" "xs_handler (send_to_peer a m s) = xs_handler s"
  "xs_monitors (send_to_peer a m s) = xs_monitors s" "xs_stop (send_to_peer a m s) = xs_stop s"
  "xs_transactions (send_to_peer a m s) = xs_transactions s" "xs_down (send_to_peer a m s) = xs_down s"
  "xs_run (send_to_peer a m s) = xs_run s" "xs_silent (send_to_peer a m s) = xs_silent s"
  "xs_said (send_to_peer a m s) = xs_said s @ [(xs_peer s, a, m)]"
  by (auto simp: send_to_peer_def Let_def split: option.split)

lemma shut_down_simps [simp]:
  "active_run (shut_down P r s) = active_run s" "xs_handler (shut_down P r s) = xs_handler s"
  "xs_monitors (shut_down P r s) = xs_monitors s" "xs_stop (shut_down P r s) = xs_stop s"
  "xs_transactions (shut_down P r s) = xs_transactions s" "xs_down (shut_down P r s) = xs_down s @ [rn_id r]"
  "xs_run (shut_down P r s) = xs_run s" "xs_said (shut_down P r s) = xs_said s"
  "xs_silent (shut_down P r s) = xs_silent s" "xs_peer (shut_down P r s) = xs_peer s"
  by (auto simp: shut_down_def split: prod.split)

lemma length_filter_update:
  "i < length xs \<Longrightarrow> length (filter p (xs[i := x])) + one_if (p (xs ! i)) = length (filter p xs) + one_if (p x)"
proof (induction xs arbitrary: i)
  case (Cons y ys)
  then show ?case by (cases i) (auto simp: one_if_def)
qed simp

lemma service_new_inv: "service_inv (service_new clk)"
  by (simp add: service_inv_defs service_new_def handler_good_def active_run_def)

text \<open>What neither thread looks at, and a move of the handler that keeps what it holds.\<close>

lemma service_inv_other [simp]:
  "service_inv (s\<lparr>xs_peer := p\<rparr>) = service_inv s" "service_inv (s\<lparr>xs_clock := c\<rparr>) = service_inv s"
  "service_inv (send_to_peer a m s) = service_inv s" "service_inv (s\<lparr>xs_silent := l\<rparr>) = service_inv s"
  by (simp_all add: service_inv_defs handler_good_def)

lemma handler_move:
  assumes "service_inv s" "handler_run h = handler_run (xs_handler s)"
    "handler_ending h = handler_ending (xs_handler s)" "handler_waits h = handler_waits (xs_handler s)"
    "handler_good (s\<lparr>xs_handler := h\<rparr>)"
  shows "service_inv (s\<lparr>xs_handler := h\<rparr>)"
  using assms by (simp add: service_inv_defs)

lemma handler_good_other [simp]:
  "handler_good (s\<lparr>xs_handler := HIdle\<rparr>)" "handler_good (s\<lparr>xs_handler := HTake reason\<rparr>)"
  "handler_good (s\<lparr>xs_handler := HReply reply ended\<rparr>)" "handler_good (s\<lparr>xs_handler := HSendStopped run\<rparr>)"
  "handler_good (s\<lparr>xs_handler := HEndTransaction run gone\<rparr>)" "handler_good (s\<lparr>xs_handler := HForget\<rparr>)"
  by (simp_all add: handler_good_def)

lemma take_inv:
  assumes "service_inv s" "xs_handler s = HTake reason" "xs_run s = Some r"
  shows "service_inv (s\<lparr>xs_run := None, xs_handler := HSignal r reason\<rparr>)"
proof -
  let ?s = "s\<lparr>xs_run := None, xs_handler := HSignal r reason\<rparr>"
  have act: "active_run s = Some (rn_id r)" using assms(3) by (simp add: active_run_def)
  have "owners ?s i = owners s i" for i
    using assms(2) act by (simp add: owners_def)
  moreover have "open_runs ?s = open_runs s" using assms(2) act by (simp add: open_runs_def)
  moreover have "handler_good ?s" "monitors_good ?s"
    using assms act by (auto simp: handler_good_def service_inv_def monitors_good_def active_good_def)
  ultimately show ?thesis
    using assms(1) by (simp add: service_inv_def active_good_def owned_once_def)
qed

lemma signal_inv:
  assumes "service_inv s" "xs_handler s = HSignal r reason"
  shows "service_inv (s\<lparr>xs_stop := (xs_stop s)[rn_id r := True], xs_handler := HJoin r reason\<rparr>)"
proof -
  have "active_run s = None"
    using assms by (cases "active_run s") (auto simp: service_inv_def active_good_def)
  with assms show ?thesis
    by (simp add: service_inv_defs handler_good_def)
qed

lemma joined_inv:
  assumes "service_inv s" "xs_handler s = HJoin r reason" "xs_monitors s ! rn_id r = MDone"
  shows "service_inv (s\<lparr>xs_handler := HShut r reason\<rparr>)"
proof -
  have "monitors_good (s\<lparr>xs_handler := HShut r reason\<rparr>)"
    using assms by (auto simp: service_inv_def monitors_good_def)
  moreover have "owners (s\<lparr>xs_handler := HShut r reason\<rparr>) i = owners s i" for i
    using assms(2) by (simp add: owners_def)
  moreover have "open_runs (s\<lparr>xs_handler := HShut r reason\<rparr>) = open_runs s"
    using assms(2) by (simp add: open_runs_def)
  ultimately show ?thesis
    using assms by (simp add: service_inv_def active_good_def owned_once_def handler_good_def)
qed

lemma shut_inv:
  assumes "service_inv s" "xs_handler s = HShut r reason" "handler_ending h = Some (rn_id r)"
    "handler_run h = None" "handler_waits h = None" "handler_good ((shut_down P r s)\<lparr>xs_handler := h\<rparr>)"
  shows "service_inv ((shut_down P r s)\<lparr>xs_handler := h\<rparr>)"
  using assms by (auto simp: service_inv_defs handler_good_def one_if_def)

lemma end_transaction_inv:
  assumes "service_inv s" "xs_handler s = HEndTransaction run gone" "handler_ending h = None"
    "handler_run h = None" "handler_waits h = None" "\<And>t. handler_good (t\<lparr>xs_handler := h\<rparr>)"
  shows "service_inv (s\<lparr>xs_transactions := xs_transactions s - 1, xs_handler := h\<rparr>)"
proof -
  let ?t = "s\<lparr>xs_transactions := xs_transactions s - 1, xs_handler := h\<rparr>"
  have act: "active_run s = None"
    using assms(1,2) by (cases "active_run s") (auto simp: service_inv_def active_good_def)
  have "owners ?t i = owners s i" for i using assms(2,4) by (simp add: owners_def)
  moreover have "open_runs ?t + 1 = open_runs s" using assms(2,3) by (simp add: open_runs_def)
  moreover have "monitors_good ?t" using assms(1,2,5) by (simp add: service_inv_def monitors_good_def)
  moreover have "active_good ?t" using act by (simp add: active_good_def)
  ultimately show ?thesis
    using assms(1,6) by (simp add: service_inv_def owned_once_def)
qed

lemma handler_step_inv:
  assumes "service_inv s"
  shows "service_inv (handler_step P (xs_handler s) s)"
proof (cases "xs_handler s")
  case (HTake reason)
  show ?thesis
  proof (cases "xs_run s")
    case None
    with HTake show ?thesis
      by (cases reason) (simp_all add: handler_move [OF assms])
  next
    case (Some r)
    with HTake take_inv [OF assms HTake Some] show ?thesis by simp
  qed
next
  case (HSignal r reason)
  with signal_inv [OF assms HSignal] show ?thesis by simp
next
  case (HJoin r reason)
  with joined_inv [OF assms HJoin] assms show ?thesis by (simp split: monitor.split)
next
  case (HShut r reason)
  then show ?thesis by (cases reason) (simp_all add: shut_inv [OF assms HShut])
next
  case (HReply reply ended)
  then show ?thesis by (cases ended) (simp_all add: handler_move assms)
next
  case (HSendStopped run)
  then show ?thesis by (simp add: handler_move assms)
next
  case (HEndTransaction run gone)
  then show ?thesis by (simp add: end_transaction_inv [OF assms HEndTransaction])
qed (simp_all add: handler_move assms)


text \<open>The monitors.\<close>

lemma set_monitor_simps [simp]:
  "active_run (set_monitor i m s) = active_run s" "xs_handler (set_monitor i m s) = xs_handler s"
  "xs_monitors (set_monitor i m s) = (xs_monitors s)[i := m]" "xs_stop (set_monitor i m s) = xs_stop s"
  "xs_transactions (set_monitor i m s) = xs_transactions s" "xs_down (set_monitor i m s) = xs_down s"
  "xs_run (set_monitor i m s) = xs_run s" "xs_said (set_monitor i m s) = xs_said s"
  "xs_silent (set_monitor i m s) = xs_silent s" "xs_peer (set_monitor i m s) = xs_peer s"
  by (simp_all add: set_monitor_def)

lemma owners_set_monitor:
  assumes "i < length (xs_monitors s)"
  shows "owners (set_monitor i m s) j = (if j = i
     then one_if (active_run s = Some i) + one_if (handler_run (xs_handler s) = Some i) +
       one_if (monitor_run m = Some i) + count_list (xs_down s) i
     else owners s j)"
  by (cases "j = i") (simp_all add: owners_def assms)

lemma owners_same_monitor:
  assumes "i < length (xs_monitors s)" "monitor_run m = monitor_run (xs_monitors s ! i)"
  shows "owners (set_monitor i m s) j = owners s j"
  by (cases "j = i") (simp_all add: owners_set_monitor assms owners_def)

lemma open_runs_set_monitor:
  "i < length (xs_monitors s) \<Longrightarrow> open_runs (set_monitor i m s) + one_if (monitor_ending (xs_monitors s ! i)) =
     open_runs s + one_if (monitor_ending m)"
  using length_filter_update [of i "xs_monitors s" monitor_ending m] by (simp add: open_runs_def)

text \<open>What the invariant asks when one monitor moves.\<close>

lemma handler_good_set_monitor:
  assumes "handler_good s" "xs_monitors s ! i \<noteq> MDone" "i < length (xs_monitors s)"
    "handler_waits (xs_handler s) = Some i \<Longrightarrow> looping m \<or> m = MDone"
  shows "handler_good (set_monitor i m s)"
  using assms by (cases "xs_handler s") (auto simp: handler_good_def nth_list_update)

lemma monitors_good_set_monitor:
  assumes "monitors_good s" "i < length (xs_monitors s)"
    "looping m \<Longrightarrow> active_run s = Some i \<or> handler_waits (xs_handler s) = Some i"
    "monitor_run m = None \<or> monitor_run m = Some i"
  shows "monitors_good (set_monitor i m s)"
  using assms unfolding monitors_good_def by (simp add: nth_list_update)

lemma active_good_set_monitor:
  assumes "active_good s" "i < length (xs_monitors s)" "active_run s = Some i \<Longrightarrow> looping m"
  shows "active_good (set_monitor i m s)"
  using assms unfolding active_good_def by (auto simp: nth_list_update)

lemma looping_facts:
  "looping m \<Longrightarrow> monitor_run m = None \<and> \<not> monitor_ending m \<and> m \<noteq> MDone"
  "monitor_ending m \<Longrightarrow> \<not> looping m \<and> m \<noteq> MDone"
  by (cases m; simp)+

text \<open>A monitor that holds nothing before and after its step.\<close>

lemma monitor_move:
  assumes "service_inv s" "i < length (xs_monitors s)" "looping (xs_monitors s ! i)"
    "looping m \<or> m = MDone \<and> (xs_stop s ! i \<or> xs_run s = None)"
  shows "service_inv (set_monitor i m s)"
proof -
  have m: "monitor_run m = None" "\<not> monitor_ending m"
    using assms(4) looping_facts(1) [of m] by auto
  have ms: "monitor_run (xs_monitors s ! i) = None" "\<not> monitor_ending (xs_monitors s ! i)"
      "xs_monitors s ! i \<noteq> MDone"
    using looping_facts(1) [OF assms(3)] by auto
  have held: "active_run s = Some i \<or> handler_waits (xs_handler s) = Some i"
    using assms(1,2,3) by (simp add: service_inv_def monitors_good_def)
  have "handler_good (set_monitor i m s)"
    using assms(1,2,4) ms(3) by (intro handler_good_set_monitor) (auto simp: service_inv_def)
  moreover have "monitors_good (set_monitor i m s)"
    using assms(1,2) m(1) held by (intro monitors_good_set_monitor) (simp_all add: service_inv_def)
  moreover have "active_good (set_monitor i m s)"
    using assms(1,2,4) by (intro active_good_set_monitor) (auto simp: service_inv_def active_good_def active_run_def)
  moreover have "owners (set_monitor i m s) j = owners s j" for j
    using m ms by (simp add: owners_same_monitor assms(2))
  moreover have "open_runs (set_monitor i m s) = open_runs s"
    using open_runs_set_monitor [OF assms(2), of m] m ms by simp
  ultimately show ?thesis
    using assms(1) by (simp add: service_inv_def owned_once_def)
qed

lemma take_failed_inv:
  assumes "service_inv s" "i < length (xs_monitors s)" "xs_monitors s ! i = MLock" "xs_run s = Some r"
    "rn_id r' = rn_id r"
  shows "service_inv (set_monitor i (MFailed r' e) (s\<lparr>xs_run := None\<rparr>))"
proof -
  let ?t = "s\<lparr>xs_run := None\<rparr>" and ?m = "MFailed r' e"
  have act: "active_run s = Some (rn_id r)" using assms(4) by (simp add: active_run_def)
  have none: "handler_ending (xs_handler s) = None"
    using assms(1) act by (simp add: service_inv_def active_good_def)
  then have waits: "handler_waits (xs_handler s) = None" "handler_run (xs_handler s) = None"
    by (cases "xs_handler s"; simp)+
  have only: "looping (xs_monitors s ! j) \<Longrightarrow> j < length (xs_monitors s) \<Longrightarrow> j = rn_id r" for j
    using assms(1) act waits by (auto simp: service_inv_def monitors_good_def)
  have i: "rn_id r = i" using only [of i] assms(2,3) by simp
  have "owners (set_monitor i ?m ?t) j = owners s j" for j
    using assms(2,3,5) act waits i by (cases "j = i") (simp_all add: owners_def)
  moreover have "open_runs (set_monitor i ?m ?t) = open_runs s"
    using open_runs_set_monitor [of i ?t ?m] assms(2,3) act by (simp add: open_runs_def)
  moreover have "handler_good (set_monitor i ?m ?t)"
    using none by (cases "xs_handler s") (simp_all add: handler_good_def)
  moreover have "monitors_good (set_monitor i ?m ?t)"
    using assms(1,2,5) i only unfolding monitors_good_def service_inv_def
    by (auto simp: nth_list_update)
  ultimately show ?thesis
    using assms(1) by (simp add: service_inv_def active_good_def owned_once_def)
qed

lemma update_active_inv:
  assumes "service_inv s" "xs_run s = Some r" "rn_id r' = rn_id r"
  shows "service_inv (s\<lparr>xs_run := Some r'\<rparr>)"
  using assms by (simp add: service_inv_defs handler_good_def active_run_def)

text \<open>A monitor on its way from the message of a failed run to its end.\<close>

lemma ending_free:
  assumes "service_inv s" "i < length (xs_monitors s)" "monitor_ending (xs_monitors s ! i)"
  shows "active_run s \<noteq> Some i" "handler_waits (xs_handler s) \<noteq> Some i"
    "monitor_run (xs_monitors s ! i) = None \<or> monitor_run (xs_monitors s ! i) = Some i"
proof -
  note e = looping_facts(2) [OF assms(3)]
  show "active_run s \<noteq> Some i" using assms(1) e by (auto simp: service_inv_def active_good_def)
  show "handler_waits (xs_handler s) \<noteq> Some i"
    using assms(1) e by (cases "xs_handler s") (auto simp: service_inv_def handler_good_def)
  show "monitor_run (xs_monitors s ! i) = None \<or> monitor_run (xs_monitors s ! i) = Some i"
    using assms(1,2) by (simp add: service_inv_def monitors_good_def)
qed

lemma ending_move_good:
  assumes "service_inv s" "i < length (xs_monitors s)" "monitor_ending (xs_monitors s ! i)"
    "\<not> looping m" "monitor_run m = None \<or> monitor_run m = Some i"
  shows "handler_good (set_monitor i m s) \<and> monitors_good (set_monitor i m s) \<and> active_good (set_monitor i m s)"
proof (intro conjI)
  show "handler_good (set_monitor i m s)"
    using assms(1,2) ending_free [OF assms(1-3)] looping_facts(2) [OF assms(3)]
    by (intro handler_good_set_monitor) (simp_all add: service_inv_def)
  show "monitors_good (set_monitor i m s)"
    using assms by (intro monitors_good_set_monitor) (simp_all add: service_inv_def)
  show "active_good (set_monitor i m s)"
    using assms(1,2) ending_free [OF assms(1-3)] by (intro active_good_set_monitor) (simp_all add: service_inv_def)
qed

lemma monitor_ending_move:
  assumes "service_inv s" "i < length (xs_monitors s)" "monitor_ending (xs_monitors s ! i)"
    "monitor_ending m" "monitor_run m = monitor_run (xs_monitors s ! i)"
  shows "service_inv (set_monitor i m s)"
proof -
  have "open_runs (set_monitor i m s) = open_runs s"
    using open_runs_set_monitor [OF assms(2), of m] assms(3,4) by simp
  moreover have "owners (set_monitor i m s) j = owners s j" for j
    by (rule owners_same_monitor [OF assms(2,5)])
  moreover have "handler_good (set_monitor i m s) \<and> monitors_good (set_monitor i m s) \<and> active_good (set_monitor i m s)"
    using ending_free(3) [OF assms(1-3)] looping_facts(2) [OF assms(4)]
    by (intro ending_move_good assms(1-3)) (simp_all add: assms(5))
  ultimately show ?thesis
    using assms(1) by (simp add: service_inv_def owned_once_def)
qed

lemma shut_failed_inv:
  assumes "service_inv s" "i < length (xs_monitors s)" "xs_monitors s ! i = MShut r"
  shows "service_inv (set_monitor i MSendStopped (shut_down P r s))"
proof -
  let ?t = "shut_down P r s"
  have i: "rn_id r = i" using assms by (auto simp: service_inv_def monitors_good_def)
  have "owners (set_monitor i MSendStopped ?t) j = owners s j" for j
    using assms(2,3) i by (cases "j = i") (simp_all add: owners_def)
  moreover have "open_runs (set_monitor i MSendStopped ?t) = open_runs s"
    using open_runs_set_monitor [of i ?t MSendStopped] assms(2,3) by (simp add: open_runs_def)
  moreover have "handler_good (set_monitor i MSendStopped s) \<and> monitors_good (set_monitor i MSendStopped s) \<and>
      active_good (set_monitor i MSendStopped s)"
    by (rule ending_move_good [OF assms(1,2)]) (simp_all add: assms(3))
  ultimately show ?thesis
    using assms(1,2) i by (simp add: service_inv_def owned_once_def handler_good_def monitors_good_def active_good_def)
qed

lemma monitor_end_inv:
  assumes "service_inv s" "i < length (xs_monitors s)" "xs_monitors s ! i = MEndTransaction"
  shows "service_inv (set_monitor i MDone (s\<lparr>xs_transactions := xs_transactions s - 1\<rparr>))"
proof -
  let ?t = "s\<lparr>xs_transactions := xs_transactions s - 1\<rparr>"
  have "open_runs (set_monitor i MDone ?t) + 1 = open_runs s"
    using open_runs_set_monitor [of i ?t MDone] assms(2,3) by (simp add: open_runs_def)
  moreover have "owners (set_monitor i MDone ?t) j = owners s j" for j
    using assms(2,3) by (cases "j = i") (simp_all add: owners_def)
  moreover have "handler_good (set_monitor i MDone s) \<and> monitors_good (set_monitor i MDone s) \<and>
      active_good (set_monitor i MDone s)"
    by (rule ending_move_good [OF assms(1,2)]) (simp_all add: assms(3))
  ultimately show ?thesis
    using assms(1) by (simp add: service_inv_def owned_once_def handler_good_def monitors_good_def active_good_def)
qed

lemma monitor_step_inv:
  assumes "service_inv s" "i < length (xs_monitors s)"
  shows "service_inv (monitor_step P i (xs_monitors s ! i) s)"
proof (cases "xs_monitors s ! i")
  case MCheck
  then show ?thesis by (auto simp: monitor_move [OF assms])
next
  case MSleep
  then show ?thesis by (auto simp: monitor_move [OF assms])
next
  case MLock
  show ?thesis
  proof (cases "xs_run s")
    case None
    with MLock show ?thesis by (simp add: monitor_move [OF assms])
  next
    case (Some r)
    obtain st failure where f: "engine_failure (ap_state (rn_app r)) = (st, failure)"
      by (cases "engine_failure (ap_state (rn_app r))")
    let ?r = "r\<lparr>rn_app := (rn_app r)\<lparr>ap_state := st\<rparr>\<rparr>"
    show ?thesis
    proof (cases failure)
      case None
      have "service_inv (s\<lparr>xs_run := Some ?r\<rparr>)" by (rule update_active_inv [OF assms(1) Some]) simp
      then have "service_inv (set_monitor i MCheck (s\<lparr>xs_run := Some ?r\<rparr>))"
        by (rule monitor_move) (use MLock assms in simp_all)
      with None MLock Some f show ?thesis by (simp add: Let_def)
    next
      case e: (Some e)
      have "service_inv (set_monitor i (MFailed ?r e) (s\<lparr>xs_run := None\<rparr>))"
        by (rule take_failed_inv [OF assms MLock Some]) simp
      with e MLock Some f show ?thesis by (simp add: Let_def)
    qed
  qed
next
  case (MFailed r e)
  then show ?thesis
    by (auto intro!: monitor_ending_move simp: assms)
next
  case (MShut r)
  with shut_failed_inv [OF assms MShut] show ?thesis by simp
next
  case MSendStopped
  then show ?thesis by (auto intro!: monitor_ending_move simp: assms)
next
  case MEndTransaction
  with monitor_end_inv [OF assms MEndTransaction] show ?thesis by simp
next
  case MDone
  with assms show ?thesis by simp
qed


text \<open>The other steps.\<close>

lemma accept_peer_inv: "service_inv s \<Longrightarrow> service_inv (accept_peer c s)"
  by (simp add: accept_peer_def split: option.split)

lemma engine_input_inv:
  assumes "service_inv s"
  shows "service_inv (engine_input i s)"
proof (cases "xs_run s")
  case None
  then have "engine_input i s = s" by (cases s) (simp add: engine_input_def)
  with assms show ?thesis by simp
qed (simp add: engine_input_def update_active_inv assms)

lemma idle_move:
  assumes "service_inv s" "xs_handler s = HIdle" "handler_run h = None" "handler_ending h = None"
    "handler_waits h = None" "handler_good (s\<lparr>xs_handler := h\<rparr>)"
  shows "service_inv (s\<lparr>xs_handler := h\<rparr>)"
  using assms by (simp add: handler_move)

text \<open>A new run, under a number that no monitor had.\<close>

lemma new_run_inv:
  assumes "service_inv s" "handler_run (xs_handler s) = None" "handler_ending (xs_handler s) = None"
    "handler_waits (xs_handler s) = None" "xs_run s = None" "rn_id r = length (xs_monitors s)"
  shows "service_inv (s\<lparr>xs_transactions := xs_transactions s + 1, xs_monitors := xs_monitors s @ [MCheck],
     xs_stop := xs_stop s @ [False], xs_run := Some r\<rparr>)"
proof -
  let ?n = "length (xs_monitors s)"
  let ?t = "s\<lparr>xs_transactions := xs_transactions s + 1, xs_monitors := xs_monitors s @ [MCheck],
     xs_stop := xs_stop s @ [False], xs_run := Some r\<rparr>"
  have len: "length (xs_stop s) = ?n" and down: "set (xs_down s) \<subseteq> {..< ?n}"
    using assms(1) by (simp_all add: service_inv_def owned_once_def)
  have act: "active_run s = None" using assms(5) by (simp add: active_run_def)
  have idle: "\<not> looping (xs_monitors s ! j)" "monitor_run (xs_monitors s ! j) = None \<or> monitor_run (xs_monitors s ! j) = Some j"
    if "j < ?n" for j
    using assms(1,4) act that by (auto simp: service_inv_def monitors_good_def)
  have "owners ?t j = 1" if "j < Suc ?n" for j
  proof (cases "j = ?n")
    case True
    with down have "count_list (xs_down s) j = 0" by (auto simp: count_list_0_iff)
    with True assms(2,6) show ?thesis by (simp add: owners_def)
  next
    case False
    with that have "j < ?n" by simp
    with assms(1) have "owners s j = 1" by (simp add: service_inv_def owned_once_def)
    with \<open>j < ?n\<close> act assms(6) show ?thesis by (simp add: owners_def nth_append)
  qed
  moreover have "open_runs ?t = open_runs s + 1" using act by (simp add: open_runs_def)
  moreover have "monitors_good ?t"
    unfolding monitors_good_def using idle assms(6) by (auto simp: nth_append less_Suc_eq)
  moreover have "active_good ?t"
    using assms(3,6) len by (simp add: active_good_def nth_append)
  moreover have "handler_good ?t"
    using assms(3) by (cases "xs_handler s") (simp_all add: handler_good_def)
  ultimately show ?thesis
    using assms(1) down len by (auto simp: service_inv_def owned_once_def)
qed

lemma service_start_cases:
  assumes "service_start P start reply s = Some s'"
  obtains reply' clk where "s' = s\<lparr>xs_clock := clk, xs_handler := HReply reply' None\<rparr>"
  | reply' clk r t where "xs_run s = None" "rn_id r = length (xs_monitors s)"
      "t = s\<lparr>xs_clock := clk, xs_handler := HReply reply' None\<rparr>"
      "s' = t\<lparr>xs_transactions := xs_transactions t + 1, xs_monitors := xs_monitors t @ [MCheck],
         xs_stop := xs_stop t @ [False], xs_run := Some r\<rparr>"
proof (cases "xs_run s")
  case (Some r)
  with assms have "s' = s\<lparr>xs_clock := xs_clock s, xs_handler := HReply (fail_reply (link_error_code AlreadyRunning)
      (link_error_text AlreadyRunning) reply) None\<rparr>"
    by (auto simp: service_start_def)
  then show thesis by (rule that(1))
next
  case None
  from assms None obtain reply' started clk where
    e: "start_engine P start (length (xs_monitors s)) (xs_clock s) reply = Some (reply', started, clk)"
    and s': "s' = (let s = s\<lparr>xs_clock := clk, xs_handler := HReply reply' None\<rparr> in
          case started of
            None \<Rightarrow> s
          | Some (app, region) \<Rightarrow> s\<lparr>xs_transactions := xs_transactions s + 1,
              xs_monitors := xs_monitors s @ [MCheck], xs_stop := xs_stop s @ [False],
              xs_run := Some \<lparr>rn_id = length (xs_monitors s), rn_app = app, rn_region = region\<rparr>\<rparr>)"
    by (auto simp: service_start_def bind_eq_Some_conv Let_def split: option.splits)
  show thesis
  proof (cases started)
    case None
    with s' show thesis by (auto simp: Let_def intro: that(1))
  next
    case (Some a)
    obtain app region where "a = (app, region)" by (cases a)
    with s' Some \<open>xs_run s = None\<close> show thesis
      by (auto simp: Let_def intro!: that(2) [of "\<lparr>rn_id = length (xs_monitors s), rn_app = app, rn_region = region\<rparr>"
        "s\<lparr>xs_clock := clk, xs_handler := HReply reply' None\<rparr>" reply' clk])
  qed
qed

lemma service_start_inv:
  assumes "service_inv s" "xs_handler s = HIdle" "service_start P start reply s = Some s'"
  shows "service_inv s'"
proof -
  have i: "service_inv (s\<lparr>xs_clock := clk, xs_handler := HReply reply' None\<rparr>)" for clk reply'
    using idle_move [of "s\<lparr>xs_clock := clk\<rparr>" "HReply reply' None"] assms(1,2) by simp
  from assms(3) show ?thesis
  proof (cases rule: service_start_cases)
    case (2 reply' clk r t)
    show ?thesis unfolding 2(4) by (rule new_run_inv) (simp_all add: 2 i)
  qed (simp add: i)
qed

lemma handle_message_inv:
  assumes "service_inv s" "xs_handler s = HIdle" "handle_message P msg s = Some s'"
  shows "service_inv s'"
proof (cases "\<exists>start. parse_request msg = Inr (Start start)")
  case True
  then obtain start where "parse_request msg = Inr (Start start)" ..
  with assms(3) have "service_start P start (set_i64 KEY_VERSION CONTRACT_VERSION []) s = Some s'"
    by (simp add: handle_message_def)
  then show ?thesis by (rule service_start_inv [OF assms(1,2)])
next
  case False
  with assms show ?thesis
    by (auto simp: handle_message_def Let_def idle_move split: sum.splits request.splits)
qed

lemma service_step_inv: "service_step P s t \<Longrightarrow> service_inv s \<Longrightarrow> service_inv t"
  by (induction rule: service_step.induct)
    (simp_all add: accept_peer_inv engine_input_inv handle_message_inv idle_move handler_step_inv monitor_step_inv)

interpretation xpc: transition_system "\<lambda>s. \<exists>clk. s = service_new clk" "service_step P" service_inv
  for P by unfold_locales (auto simp: service_new_inv intro: service_step_inv)

abbreviation service_reaches :: "('s, 'conn, 'l, 'k) service_env \<Rightarrow> 's service \<Rightarrow> bool" where
  "service_reaches P \<equiv> reach (\<lambda>s. \<exists>clk. s = service_new clk) (service_step P)"

text \<open>No run is active and nobody is ending one.\<close>

definition at_rest :: "'s service \<Rightarrow> bool" where
  "at_rest s \<longleftrightarrow> xs_run s = None \<and> handler_ending (xs_handler s) = None \<and>
     list_all (\<lambda>m. \<not> monitor_ending m) (xs_monitors s)"

lemma owners_shut: "owners s i = 1 \<Longrightarrow> count_list (xs_down s) i \<le> 1"
  by (simp add: owners_def)

lemma count_list_1_distinct:
  "(\<And>x. x \<in> set xs \<Longrightarrow> count_list xs x \<le> 1) \<Longrightarrow> distinct xs"
proof (induction xs)
  case (Cons y ys)
  then have "count_list ys y = 0" using Cons.prems [of y] by simp
  moreover have "count_list ys x \<le> 1" if "x \<in> set ys" for x
    using Cons.prems [of x] that by (simp split: if_splits)
  ultimately show ?case using Cons.IH by (simp add: count_list_0_iff)
qed simp

lemma at_rest_simps:
  assumes "at_rest s"
  shows "active_run s = None" "handler_run (xs_handler s) = None" "open_runs s = 0"
    "i < length (xs_monitors s) \<Longrightarrow> monitor_run (xs_monitors s ! i) = None"
proof -
  show act: "active_run s = None" using assms by (simp add: at_rest_def active_run_def)
  have e: "handler_ending (xs_handler s) = None" using assms by (simp add: at_rest_def)
  then show "handler_run (xs_handler s) = None" by (cases "xs_handler s") simp_all
  show "monitor_run (xs_monitors s ! i) = None" if "i < length (xs_monitors s)"
  proof -
    have "\<not> monitor_ending (xs_monitors s ! i)" using assms that by (simp add: at_rest_def list_all_length)
    then show ?thesis by (cases "xs_monitors s ! i") simp_all
  qed
  have "filter monitor_ending (xs_monitors s) = []"
    using assms by (auto simp: at_rest_def list_all_iff filter_empty_conv)
  with act e show "open_runs s = 0" by (simp add: open_runs_def)
qed

text \<open>
  Claim C26. Every run is ended by one thread, once: at any moment each run that was started is held
  by exactly one of the mutex, the handler and its own monitor, or was shut down exactly once; the
  transactions that keep the process alive are the runs that are active or being ended; an active run
  has its monitor in the loop, with the flag clear; and when the service is at rest every run was
  shut down and no transaction is left.
\<close>

theorem service_run_ended_once:
  assumes "service_reaches P s"
  shows "(\<forall>i < length (xs_monitors s). owners s i = 1) \<and> distinct (xs_down s) \<and>
    xs_transactions s = int (open_runs s) \<and>
    (\<forall>r. xs_run s = Some r \<longrightarrow> rn_id r < length (xs_monitors s) \<and> looping (xs_monitors s ! rn_id r) \<and>
       \<not> xs_stop s ! rn_id r \<and> rn_id r \<notin> set (xs_down s)) \<and>
    (at_rest s \<longrightarrow> xs_transactions s = 0 \<and> set (xs_down s) = {..<length (xs_monitors s)})"
proof -
  have inv: "service_inv s" by (rule xpc.reachable_inv [OF assms])
  then have own: "owners s i = 1" if "i < length (xs_monitors s)" for i
    using that by (simp add: service_inv_def owned_once_def)
  have down: "set (xs_down s) \<subseteq> {..<length (xs_monitors s)}"
    using inv by (simp add: service_inv_def owned_once_def)
  have dist: "distinct (xs_down s)"
    by (rule count_list_1_distinct) (use own down owners_shut in blast)
  have act: "i < length (xs_monitors s) \<and> looping (xs_monitors s ! i) \<and> \<not> xs_stop s ! i"
    if "active_run s = Some i" for i
    using inv that by (simp add: service_inv_def active_good_def)
  have run: "rn_id r < length (xs_monitors s) \<and> looping (xs_monitors s ! rn_id r) \<and>
       \<not> xs_stop s ! rn_id r \<and> rn_id r \<notin> set (xs_down s)" if "xs_run s = Some r" for r
  proof -
    have a: "active_run s = Some (rn_id r)" using that by (simp add: active_run_def)
    have "count_list (xs_down s) (rn_id r) = 0"
      using own [of "rn_id r"] act [OF a] a by (simp add: owners_def)
    with act [OF a] show ?thesis by (simp add: count_list_0_iff)
  qed
  have rest: "xs_transactions s = 0 \<and> set (xs_down s) = {..<length (xs_monitors s)}" if "at_rest s"
  proof -
    have "i \<in> set (xs_down s)" if i: "i < length (xs_monitors s)" for i
      using own [OF i] at_rest_simps [OF \<open>at_rest s\<close>] i
      by (auto simp: owners_def intro: ccontr)
    with down have "set (xs_down s) = {..<length (xs_monitors s)}" by blast
    moreover have "xs_transactions s = 0"
      using inv at_rest_simps(3) [OF that] by (simp add: service_inv_def)
    ultimately show ?thesis by simp
  qed
  have "xs_transactions s = int (open_runs s)" using inv by (simp add: service_inv_def)
  with own dist run rest show ?thesis by blast
qed

section \<open>The handler is never stuck\<close>

text \<open>The turns the handler still needs, one of them the joined monitor's.\<close>

fun handler_left :: "'s handler \<Rightarrow> 's monitor list \<Rightarrow> nat" where
  "handler_left HIdle ms = 0"
| "handler_left HForget ms = 1"
| "handler_left (HEndTransaction run gone) ms = 2"
| "handler_left (HSendStopped run) ms = 3"
| "handler_left (HReply reply ended) ms = 4"
| "handler_left (HShut r reason) ms = 5"
| "handler_left (HJoin r reason) ms = (if ms ! rn_id r = MDone then 6 else 7)"
| "handler_left (HSignal r reason) ms = 8"
| "handler_left (HTake reason) ms = 9"

definition left_of :: "'s service \<Rightarrow> nat" where
  "left_of s = handler_left (xs_handler s) (xs_monitors s)"

text \<open>The turn that is due: the handler's own, or that of the monitor it waits for.\<close>

definition due_turn :: "('s, 'conn, 'l, 'k) service_env \<Rightarrow> 's service \<Rightarrow> 's service" where
  "due_turn P s = (case xs_handler s of
       HJoin r reason \<Rightarrow> (if xs_monitors s ! rn_id r = MDone then handler_step P (xs_handler s) s
         else monitor_step P (rn_id r) (xs_monitors s ! rn_id r) s)
     | h \<Rightarrow> handler_step P h s)"

text \<open>A monitor in its loop leaves it at its next turn once its flag is set and its run is taken.\<close>

lemma signalled_monitor:
  assumes "service_inv s" "xs_handler s = HJoin r reason" "xs_monitors s ! rn_id r \<noteq> MDone"
  shows "monitor_step P (rn_id r) (xs_monitors s ! rn_id r) s = set_monitor (rn_id r) MDone s"
    "rn_id r < length (xs_monitors s)"
proof -
  have run: "xs_run s = None"
    using assms(1,2) by (cases "xs_run s") (auto simp: service_inv_def active_good_def active_run_def)
  have "looping (xs_monitors s ! rn_id r)" "xs_stop s ! rn_id r"
    using assms by (auto simp: service_inv_def handler_good_def)
  with run show "monitor_step P (rn_id r) (xs_monitors s ! rn_id r) s = set_monitor (rn_id r) MDone s"
    by (cases "xs_monitors s ! rn_id r") simp_all
  show "rn_id r < length (xs_monitors s)" using assms(1,2) by (simp add: service_inv_def handler_good_def)
qed

lemma due_turn_step:
  assumes "service_inv s"
  shows "service_step P s (due_turn P s)"
proof (cases "\<exists>r reason. xs_handler s = HJoin r reason \<and> xs_monitors s ! rn_id r \<noteq> MDone")
  case True
  then obtain r reason where h: "xs_handler s = HJoin r reason" "xs_monitors s ! rn_id r \<noteq> MDone" by blast
  with monitor_runs [OF signalled_monitor(2) [OF assms h], of P] show ?thesis by (simp add: due_turn_def)
next
  case False
  then have "due_turn P s = handler_step P (xs_handler s) s"
    by (auto simp: due_turn_def split: handler.splits)
  then show ?thesis using handler_runs by metis
qed

lemma due_turn_progress:
  assumes "service_inv s" "xs_handler s \<noteq> HIdle"
  shows "left_of (due_turn P s) < left_of s"
proof (cases "xs_handler s")
  case (HJoin r reason)
  then show ?thesis
    using signalled_monitor(2) [OF assms(1) HJoin]
    by (cases "xs_monitors s ! rn_id r = MDone")
      (simp_all add: due_turn_def left_of_def signalled_monitor(1) [OF assms(1) HJoin])
qed (use assms(2) in \<open>auto simp: due_turn_def left_of_def split: option.split end_reason.split\<close>)

text \<open>The other threads' turns in between cost nothing.\<close>

lemma left_of_simps [simp]:
  "left_of (s\<lparr>xs_peer := p\<rparr>) = left_of s" "left_of (s\<lparr>xs_run := r\<rparr>) = left_of s"
  "left_of (send_to_peer a m s) = left_of s" "left_of (shut_down P r' s) = left_of s"
  "left_of (s\<lparr>xs_transactions := n\<rparr>) = left_of s"
  by (simp_all add: left_of_def)

lemma left_of_set_monitor:
  assumes "i < length (xs_monitors s)" "xs_monitors s ! i \<noteq> MDone"
  shows "left_of (set_monitor i m s) \<le> left_of s"
  using assms by (cases "xs_handler s") (auto simp: left_of_def nth_list_update)

lemma left_of_monitor_step:
  assumes "i < length (xs_monitors s)"
  shows "left_of (monitor_step P i (xs_monitors s ! i) s) \<le> left_of s"
proof (cases "xs_monitors s ! i = MDone")
  case False
  have upd: "left_of (set_monitor i m t) \<le> left_of s"
    if "left_of t = left_of s" "xs_monitors t = xs_monitors s" for m t
    using left_of_set_monitor [of i t m] that assms False by simp
  show ?thesis
    by (cases "xs_monitors s ! i") (auto intro!: upd simp: Let_def split: option.split prod.split)
qed simp

lemma left_of_handler_step: "left_of (handler_step P (xs_handler s) s) \<le> left_of s"
  by (cases "xs_handler s") (auto simp: left_of_def split: option.split end_reason.split monitor.split)

text \<open>
  Claim C27. The client's connection never hangs: in whatever state the handler of a message or of the
  end of the connection is, a turn is due that can be taken at once, its own or that of the monitor
  it joins, and takes it closer to the end; no turn of any other thread takes it back; so after at
  most nine due turns it is idle again.
\<close>

theorem handler_never_stuck:
  assumes "service_reaches P s" "xs_handler s \<noteq> HIdle"
  shows "service_step P s (due_turn P s) \<and> left_of (due_turn P s) < left_of s \<and> left_of s \<le> 9 \<and>
    (service_step P s t \<longrightarrow> left_of t \<le> left_of s) \<and> (left_of t = 0 \<longleftrightarrow> xs_handler t = HIdle)"
proof -
  have inv: "service_inv s" by (rule xpc.reachable_inv [OF assms(1)])
  have "left_of t \<le> left_of s" if "service_step P s t"
    using that assms(2)
  proof cases
    case (peer_connects c)
    then show ?thesis by (simp add: accept_peer_def split: option.split)
  next
    case handler_runs
    then show ?thesis using left_of_handler_step [of P s] by simp
  next
    case (monitor_runs i)
    then show ?thesis using left_of_monitor_step [of i s P] by simp
  next
    case (engine_runs i)
    then show ?thesis by (simp add: engine_input_def)
  qed simp_all
  moreover have "left_of s \<le> 9" "left_of t = 0 \<longleftrightarrow> xs_handler t = HIdle"
    by (cases "xs_handler s"; simp add: left_of_def) (cases "xs_handler t"; simp add: left_of_def)
  ultimately show ?thesis
    using due_turn_step [OF inv] due_turn_progress [OF inv assms(2)] by blast
qed

text \<open>The reply to a stop.\<close>

definition stop_reply :: dictionary where
  "stop_reply = set_bool KEY_OK True (set_i64 KEY_VERSION CONTRACT_VERSION [])"

lemma parse_encoded: "parse_request (encode_request w) = Inr (request_of w)"
  by (rule parse_request_encode) simp

section \<open>A failed run\<close>

text \<open>A link to the demonstration host, with a client that starts two of a device's channels.\<close>

definition demo_link :: "(unit, unit, unit, (u8 list \<times> socket_addr) list) service_env" where
  "demo_link = \<lparr>en_host = demo_host open_listener, en_parse = (\<lambda>t. Inr file_config_default), en_delay = (\<lambda>k. 5),
     en_show_error = (\<lambda>e. []), en_package_version = lit ''1.0.0'', en_audio_devices = Inr [],
     en_midi_devices = Inr [], en_shmem_ok = True\<rparr>"

definition duet_link_start :: wire_request where
  "duet_link_start = WireStart (WireDevice (lit ''Duet'') (Some [1, 3])) None None"

definition duet_link_config :: app_config where
  "duet_link_config = duet_config\<lparr>ac_outputs := [FrameRegion 0]\<rparr>"

lemma duet_link_resolves:
  "to_app_config demo_env parse \<lparr>sr_source = SourceDevice (lit ''Duet'') (Some [1, 3]), sr_midi = None,
     sr_config_yaml = None\<rparr> 0 = Inr duet_link_config"
  by (simp add: to_app_config_def resolve_with_outputs_def resolve_input_def
      resolve_midi_input_def Let_def start_args_def file_config_default_def file_network_default_def
      normalise_channel_selection_def config_bits default_vocoder_valid config_outputs_new_def
      and_then_Inr opt_or_def ok_or_def duet_link_config_def duet_config_def demo_config_def trim_duet opt_filter_def)

lemma duet_link_resolve: "boot_resolve (demo_host L) duet_link_config = Inr (duet_input, None)"
  by (simp add: boot_resolve_def and_then_Inr duet_link_config_def duet_config_def demo_config_def demo_host_def
      validate_app_config_def demo_env_def vocoder_config_default_bits default_vocoder_valid
     resolve_audio_hardware_def get_device_def build_device_specs_def ok_or_def device_name_def unwrap_or_def
     resolve_midi_hardware_def validate_channel_selection_def bandpass_coefficients_def silent_loop
     default_rate_valid trim_duet duet_input_def duet_format_def)

lemma start_worker_slots [simp]:
  "bw_slots (start_worker h k w) = bw_slots w"
  "bw_slots (boot_workers h config specs m w) = bw_slots w"
  by (simp_all add: start_worker_def boot_workers_def Let_def)

lemma duet_link_boots:
  "\<exists>w b. bootstrap delay (demo_host L) duet_link_config (fresh_world (\<lambda>s. None) clk) = Some (w, Inr b) \<and>
     bw_slots w 0 \<noteq> None \<and> bw_clock w = clk"
proof -
  obtain region where region: "frame_region_new (ho_page_size (demo_host L)) (ho_mmap_ok (demo_host L)) 2 48000 False
      = Inr region"
    by (simp add: frame_region_new_def demo_host_def Let_def)
  show ?thesis
    unfolding bootstrap_def duet_link_resolve
    by (simp add: duet_mode duet_audio Let_def duet_link_config_def region slot_fill_def fresh_world_def
        with_context_def with_context_text_def from_error_def)
qed

lemma duet_link_starts:
  "\<exists>reply' app region. start_engine demo_link \<lparr>sr_source = SourceDevice (lit ''Duet'') (Some [1, 3]), sr_midi = None,
     sr_config_yaml = None\<rparr> run clk reply = Some (reply', Some (app, region), clk)"
proof -
  obtain w b where w: "bootstrap (\<lambda>k. 5) (demo_host open_listener) duet_link_config (fresh_world (\<lambda>s. None) clk) =
      Some (w, Inr b)" "bw_slots w 0 \<noteq> None" "bw_clock w = clk"
    using duet_link_boots by blast
  then show ?thesis
    by (auto simp: start_engine_def demo_link_def duet_link_resolves demo_host_def app_new_headless_def app_build_def
        slot_region_def and_then_Inr)
qed

lemmas service_moves = reach_step [where step = "service_step P" for P, OF _ peer_connects]
  reach_step [where step = "service_step P" for P, OF _ handler_runs]
  reach_step [where step = "service_step P" for P, OF _ monitor_runs]
  reach_step [where step = "service_step P" for P, OF _ engine_runs]

text \<open>
  A start, two records of the failing stream, and the monitor's turns up to the shutdown it is about to
  do: the client has been sent the reply and the error event.
\<close>

lemma failed_link:
  "\<exists>s r. service_reaches demo_link s \<and> xs_handler s = HIdle \<and> xs_peer s = Some 7 \<and> xs_run s = None \<and>
     xs_monitors s = [MShut r] \<and> length (xs_outbox s) = 2 \<and> rn_id r = 0 \<and>
     (\<exists>reply e. xs_outbox s = [(7, None, reply), (7, Some 0, error_message demo_link e)]) \<and>
     xs_said s = map (\<lambda>m. (Some (fst m), snd m)) (xs_outbox s)"
proof -
  let ?msg = "encode_request duet_link_start" and ?reply = "set_i64 KEY_VERSION CONTRACT_VERSION []"
  let ?P = demo_link
  obtain reply app region where start: "start_engine ?P \<lparr>sr_source = SourceDevice (lit ''Duet'') (Some [1, 3]),
      sr_midi = None, sr_config_yaml = None\<rparr> 0 (0, 0) ?reply = Some (reply, Some (app, region), (0, 0))"
    using duet_link_starts by blast
  define s1 :: "unit service" where "s1 = (service_new (0, 0))\<lparr>xs_peer := Some 7\<rparr>"
  have "service_reaches ?P (service_new (0, 0))" by (rule reach_init) blast
  from service_moves(1) [OF this, of 7] have r1: "service_reaches ?P s1"
    by (simp add: accept_peer_def s1_def service_new_def)
  let ?run = "\<lparr>rn_id = 0, rn_app = app, rn_region = region\<rparr>"
  define s2 where "s2 = s1\<lparr>xs_handler := HReply reply None, xs_transactions := 1, xs_monitors := [MCheck],
    xs_stop := [False], xs_run := Some ?run\<rparr>"
  have "request_of duet_link_start = Start \<lparr>sr_source = SourceDevice (lit ''Duet'') (Some [1, 3]), sr_midi = None,
      sr_config_yaml = None\<rparr>"
    by (simp add: duet_link_start_def)
  then have "handle_message ?P ?msg s1 = Some s2"
    by (simp add: handle_message_def parse_encoded Let_def service_start_def s1_def s2_def service_new_def start)
  then have "service_step ?P s1 s2" by (rule message_arrives [rotated 2]) (simp_all add: s1_def service_new_def)
  then have r2: "service_reaches ?P s2" by (rule reach_step [OF r1])
  define s3 where "s3 = s2\<lparr>xs_handler := HIdle, xs_outbox := [(7, None, reply)], xs_said := [(Some 7, None, reply)]\<rparr>"
  from service_moves(2) [OF r2] have r3: "service_reaches ?P s3"
    by (simp add: s3_def s2_def s1_def service_new_def send_to_peer_def)
  from service_moves(4) [OF this, of RunCleared] obtain run where
    run: "service_reaches ?P (s3\<lparr>xs_run := Some run\<rparr>)" "\<not> as_keep_running (ap_state (rn_app run))" "rn_id run = 0"
    by (simp add: engine_input_def s3_def s2_def)
  obtain st e where e: "engine_failure (ap_state (rn_app run)) = (st, Some e)"
    using run(2) by (cases "take_hardware_stream_error (ap_state (rn_app run))") (simp add: engine_failure_def)
  let ?r = "run\<lparr>rn_app := (rn_app run)\<lparr>ap_state := st\<rparr>\<rparr>"
  have ms: "xs_monitors s3 = [MCheck]" "xs_stop s3 = [False]" "xs_outbox s3 = [(7, None, reply)]"
    "xs_said s3 = [(Some 7, None, reply)]"
    "xs_handler s3 = HIdle" "xs_peer s3 = Some 7"
    by (simp_all add: s3_def s2_def s1_def)
  from service_moves(3) [OF run(1), of 0] have "service_reaches ?P (s3\<lparr>xs_run := Some run, xs_monitors := [MSleep]\<rparr>)"
    by (simp add: ms set_monitor_def)
  from service_moves(3) [OF this, of 0] have "service_reaches ?P (s3\<lparr>xs_run := Some run, xs_monitors := [MLock]\<rparr>)"
    by (simp add: ms set_monitor_def)
  from service_moves(3) [OF this, of 0] have "service_reaches ?P (s3\<lparr>xs_run := None, xs_monitors := [MFailed ?r e]\<rparr>)"
    by (simp add: ms set_monitor_def e Let_def)
  note r4 = service_moves(3) [OF this, of 0]
  define s5 where "s5 = s3\<lparr>xs_run := None,
    xs_said := [(Some 7, None, reply), (Some 7, Some (rn_id ?r), error_message ?P e)],
    xs_outbox := [(7, None, reply), (7, Some (rn_id ?r), error_message ?P e)], xs_monitors := [MShut ?r]\<rparr>"
  have "service_reaches ?P s5"
    using r4 by (simp add: ms set_monitor_def send_to_peer_def s5_def)
  moreover have "xs_handler s5 = HIdle" "xs_peer s5 = Some 7" "xs_run s5 = None" "xs_monitors s5 = [MShut ?r]"
      "length (xs_outbox s5) = 2" "rn_id ?r = 0"
      "xs_outbox s5 = [(7, None, reply), (7, Some 0, error_message demo_link e)]"
      "xs_said s5 = map (\<lambda>m. (Some (fst m), snd m)) (xs_outbox s5)"
    by (simp_all add: s5_def ms run(3))
  ultimately show ?thesis by blast
qed

text \<open>
  A stop can overtake the shutdown of a run that failed: when the monitor has taken the run
  and sent the error event, but has not shut its engine down yet, a stop is answered as done at once,
  while the run's workers have not been joined.
\<close>

lemma stop_overtakes_failed_shutdown:
  assumes "service_reaches P s" "xs_handler s = HIdle" "xs_peer s = Some p" "xs_run s = None"
    "i < length (xs_monitors s)" "xs_monitors s ! i = MShut r" "parse_request msg = Inr Stop"
  shows "\<exists>t. service_reaches P t \<and> xs_handler t = HIdle \<and>
    xs_outbox t = xs_outbox s @ [(p, None, stop_reply)] \<and>
    xs_monitors t ! i = MShut r \<and> rn_id r = i \<and> i \<notin> set (xs_down t)"
proof -
  have inv: "service_inv s" by (rule xpc.reachable_inv [OF assms(1)])
  have i: "rn_id r = i" using inv assms(5,6) by (auto simp: service_inv_def monitors_good_def)
  have "owners s i = 1" using inv assms(5) by (simp add: service_inv_def owned_once_def)
  with assms(6) i have down: "i \<notin> set (xs_down s)" by (simp add: owners_def count_list_0_iff)
  let ?t1 = "s\<lparr>xs_handler := HTake (ForStop stop_reply)\<rparr>"
  have "service_step P s ?t1"
    by (rule message_arrives [where msg = msg])
      (simp_all add: assms handle_message_def stop_reply_def Let_def)
  then have "service_reaches P ?t1" by (rule reach_step [OF assms(1)])
  from service_moves(2) [OF this] have "service_reaches P (s\<lparr>xs_handler := HReply stop_reply None\<rparr>)"
    by (simp add: assms(4))
  from service_moves(2) [OF this] have "service_reaches P
      (s\<lparr>xs_said := xs_said s @ [(Some p, None, stop_reply)],
         xs_outbox := xs_outbox s @ [(p, None, stop_reply)], xs_handler := HIdle\<rparr>)"
    by (simp add: send_to_peer_def assms(3))
  with i down assms(6) show ?thesis
    by (intro exI [of _ "s\<lparr>xs_said := xs_said s @ [(Some p, None, stop_reply)],
         xs_outbox := xs_outbox s @ [(p, None, stop_reply)], xs_handler := HIdle\<rparr>"]) simp
qed

lemma stop_overtakes_failed_shutdown_witness:
  "\<exists>(t :: unit service) r reply error. service_reaches demo_link t \<and>
     xs_outbox t = [reply, error, (7, None, stop_reply)] \<and> xs_monitors t ! 0 = MShut r \<and> 0 \<notin> set (xs_down t)"
proof -
  obtain s r where s: "service_reaches demo_link s" "xs_handler s = HIdle" "xs_peer s = Some 7" "xs_run s = None"
    "xs_monitors s = [MShut r]" "length (xs_outbox s) = 2"
    using failed_link by blast
  obtain a b where "xs_outbox s = [a, b]" using s(6) by (auto simp: numeral_2_eq_2 length_Suc_conv)
  moreover have "parse_request (encode_request WireStop) = Inr Stop"
    by (simp add: parse_encoded del: encode_request.simps)
  ultimately obtain t where "service_reaches demo_link t" "xs_outbox t = [a, b, (7, None, stop_reply)]"
      "xs_monitors t ! 0 = MShut r" "0 \<notin> set (xs_down t)"
    using stop_overtakes_failed_shutdown [OF s(1-4), of 0 r "encode_request WireStop"] s(5) by auto
  then show ?thesis by blast
qed

theorem service_run_ended_once_witness:
  "\<exists>(s :: unit service) r. service_reaches demo_link s \<and> xs_monitors s = [MShut r] \<and> owners s 0 = 1 \<and>
     xs_transactions s = 1 \<and> 0 \<notin> set (xs_down s)"
proof -
  obtain s r where s: "service_reaches demo_link s" "xs_handler s = HIdle" "xs_run s = None"
    "xs_monitors s = [MShut r]" "rn_id r = 0"
    using failed_link by blast
  from service_run_ended_once [OF s(1)] s(4) have own: "owners s 0 = 1" "xs_transactions s = int (open_runs s)"
    by simp_all
  have "count_list (xs_down s) 0 = 0" using own(1) s(4,5) by (simp add: owners_def)
  moreover have "open_runs s = 1" using s(2-4) by (simp add: open_runs_def active_run_def)
  ultimately show ?thesis using s own by (auto simp: count_list_0_iff)
qed

theorem handler_never_stuck_witness:
  "\<exists>s :: unit service. service_reaches demo_link s \<and> xs_handler s = HTake ForGone \<and> left_of s = 9 \<and>
     service_step demo_link s (due_turn demo_link s) \<and> left_of (due_turn demo_link s) < 9"
proof -
  obtain s where s: "service_reaches demo_link s" "xs_handler s = HIdle" "xs_peer s = Some 7"
    using failed_link by blast
  let ?t = "s\<lparr>xs_handler := HTake ForGone\<rparr>"
  have "service_step demo_link s ?t" by (rule peer_gone) (simp_all add: s)
  then have "service_reaches demo_link ?t" by (rule reach_step [OF s(1)])
  with handler_never_stuck [OF this, of s] show ?thesis by (intro exI [of _ ?t]) (simp add: left_of_def)
qed

end
