(* ===== verification/Xpc_Events.thy ===== *)
theory Xpc_Events
  imports Xpc_Runs
begin

text \<open>
  The messages of the XPC service about a run, over all interleavings: which ones the client is sent,
  and in which order.
\<close>

section \<open>What the client is told of a run\<close>

text \<open>
  \<open>says i s\<close> are the messages about run \<open>i\<close> in the order in which they were given to \<open>send_to_peer\<close>;
  \<open>delivered\<close> keeps those of a record for which there was a peer.
\<close>

definition says :: "nat \<Rightarrow> 's service \<Rightarrow> dictionary list" where
  "says i s = map (\<lambda>m. snd (snd m)) (filter (\<lambda>m. fst (snd m) = Some i) (xs_said s))"

definition delivered :: "(nat option \<times> nat option \<times> dictionary) list \<Rightarrow> (nat \<times> nat option \<times> dictionary) list" where
  "delivered said = map (\<lambda>m. (the (fst m), snd m)) (filter (\<lambda>m. fst m \<noteq> None) said)"

text \<open>The two ways a run is reported as over.\<close>

definition told_failed :: "('s, 'conn, 'l, 'k) service_env \<Rightarrow> dictionary list \<Rightarrow> bool" where
  "told_failed P ms \<longleftrightarrow> (\<exists>e. ms = [error_message P e, stopped_message REASON_FAILED])"

definition told_stopped :: "dictionary list \<Rightarrow> bool" where
  "told_stopped ms \<longleftrightarrow> ms = [stop_reply, stopped_message REASON_REQUESTED]"

text \<open>What has been said of a run, from who holds it; \<open>silent\<close> is that it was ended for a gone client.\<close>

fun told_by_handler :: "'s handler \<Rightarrow> nat \<Rightarrow> dictionary list option" where
  "told_by_handler (HSignal r reason) i = (if rn_id r = i then Some [] else None)"
| "told_by_handler (HJoin r reason) i = (if rn_id r = i then Some [] else None)"
| "told_by_handler (HShut r reason) i = (if rn_id r = i then Some [] else None)"
| "told_by_handler (HReply reply ended) i = (if ended = Some i then Some [] else None)"
| "told_by_handler (HSendStopped run) i = (if run = i then Some [stop_reply] else None)"
| "told_by_handler (HEndTransaction run gone) i = (if run = i
     then Some (if gone then [] else [stop_reply, stopped_message REASON_REQUESTED]) else None)"
| "told_by_handler h i = None"

definition told_over :: "('s, 'conn, 'l, 'k) service_env \<Rightarrow> bool \<Rightarrow> dictionary list \<Rightarrow> bool" where
  "told_over P silent ms = (if silent then ms = [] else told_failed P ms \<or> told_stopped ms)"

fun told_by_monitor :: "('s, 'conn, 'l, 'k) service_env \<Rightarrow> bool \<Rightarrow> 's monitor \<Rightarrow> dictionary list \<Rightarrow> bool" where
  "told_by_monitor P silent (MFailed r e) ms = (ms = [] \<and> \<not> silent)"
| "told_by_monitor P silent (MShut r) ms = ((\<exists>e. ms = [error_message P e]) \<and> \<not> silent)"
| "told_by_monitor P silent MSendStopped ms = ((\<exists>e. ms = [error_message P e]) \<and> \<not> silent)"
| "told_by_monitor P silent MEndTransaction ms = (told_failed P ms \<and> \<not> silent)"
| "told_by_monitor P silent m ms = told_over P silent ms"

text \<open>
  The same for a state, from the parts it depends on: the active run, the handler and the monitors.
\<close>

definition may_say :: "('s, 'conn, 'l, 'k) service_env \<Rightarrow> nat \<Rightarrow> bool \<Rightarrow> nat option \<Rightarrow> 's handler
    \<Rightarrow> 's monitor list \<Rightarrow> dictionary list \<Rightarrow> bool" where
  "may_say P i silent act h ms xs = (if length ms \<le> i \<or> act = Some i then xs = [] \<and> \<not> silent
     else case told_by_handler h i of
       Some ys \<Rightarrow> xs = ys \<and> \<not> silent
     | None \<Rightarrow> told_by_monitor P silent (ms ! i) xs)"

definition told :: "('s, 'conn, 'l, 'k) service_env \<Rightarrow> nat \<Rightarrow> 's service \<Rightarrow> bool" where
  "told P i s = may_say P i (i \<in> set (xs_silent s)) (active_run s) (xs_handler s) (xs_monitors s) (says i s)"

text \<open>The reply a handler carries to the end of a stop.\<close>

fun carries_stop_reply :: "'s handler \<Rightarrow> bool" where
  "carries_stop_reply (HTake (ForStop reply)) = (reply = stop_reply)"
| "carries_stop_reply (HSignal r (ForStop reply)) = (reply = stop_reply)"
| "carries_stop_reply (HJoin r (ForStop reply)) = (reply = stop_reply)"
| "carries_stop_reply (HShut r (ForStop reply)) = (reply = stop_reply)"
| "carries_stop_reply (HReply reply ended) = (ended = None \<or> reply = stop_reply)"
| "carries_stop_reply h = True"

text \<open>A handler past the shutdown has joined the monitor of its run.\<close>

fun ended_done :: "'s handler \<Rightarrow> 's monitor list \<Rightarrow> bool" where
  "ended_done (HReply reply (Some i)) ms = (i < length ms \<and> ms ! i = MDone)"
| "ended_done (HSendStopped i) ms = (i < length ms \<and> ms ! i = MDone)"
| "ended_done (HEndTransaction i gone) ms = (i < length ms \<and> ms ! i = MDone)"
| "ended_done h ms = True"

definition told_inv :: "('s, 'conn, 'l, 'k) service_env \<Rightarrow> 's service \<Rightarrow> bool" where
  "told_inv P s \<longleftrightarrow> service_inv s \<and> carries_stop_reply (xs_handler s) \<and>
     ended_done (xs_handler s) (xs_monitors s) \<and> xs_outbox s = delivered (xs_said s) \<and> (\<forall>i. told P i s)"

lemma says_simps [simp]:
  "says i (s\<lparr>xs_peer := p\<rparr>) = says i s" "says i (s\<lparr>xs_run := r\<rparr>) = says i s"
  "says i (s\<lparr>xs_handler := h\<rparr>) = says i s" "says i (s\<lparr>xs_monitors := ms\<rparr>) = says i s"
  "says i (s\<lparr>xs_stop := f\<rparr>) = says i s" "says i (s\<lparr>xs_transactions := n\<rparr>) = says i s"
  "says i (s\<lparr>xs_clock := c\<rparr>) = says i s" "says i (shut_down P r' s) = says i s"
  "says i (set_monitor j m s) = says i s" "says i (s\<lparr>xs_silent := l\<rparr>) = says i s"
  by (simp_all add: says_def)

lemma says_send [simp]:
  "says i (send_to_peer a m s) = says i s @ (if a = Some i then [m] else [])"
  by (simp add: says_def)

lemma told_other [simp]:
  "told P i (s\<lparr>xs_peer := p\<rparr>) = told P i s" "told P i (s\<lparr>xs_clock := c\<rparr>) = told P i s"
  "told P i (s\<lparr>xs_stop := f\<rparr>) = told P i s" "told P i (s\<lparr>xs_transactions := n\<rparr>) = told P i s"
  "told P i (shut_down P' r s) = told P i s"
  by (simp_all add: told_def)

lemma may_say_same:
  "may_say P i silent act h ms xs \<Longrightarrow> told_by_handler h' i = told_by_handler h i \<Longrightarrow> may_say P i silent act h' ms xs"
  by (simp add: may_say_def)

lemma told_by_ending: "told_by_handler h i \<noteq> None \<Longrightarrow> handler_ending h = Some i"
  by (cases h) (auto split: if_splits)

lemma active_untold:
  assumes "service_inv s" "active_run s = Some i"
  shows "told_by_handler (xs_handler s) j = None"
proof (rule ccontr)
  assume "told_by_handler (xs_handler s) j \<noteq> None"
  from told_by_ending [OF this] assms show False by (simp add: service_inv_def active_good_def)
qed

text \<open>The messages that had a peer are the ones sent.\<close>

lemma delivered_append: "delivered (xs @ ys) = delivered xs @ delivered ys"
  by (simp add: delivered_def)

lemma send_delivered:
  "xs_outbox s = delivered (xs_said s) \<Longrightarrow>
     xs_outbox (send_to_peer a m s) = delivered (xs_said (send_to_peer a m s))"
  by (cases "xs_peer s"; simp add: delivered_append) (simp_all add: send_to_peer_def delivered_def Let_def)

lemma outbox_other [simp]:
  "xs_outbox (shut_down P r s) = xs_outbox s" "xs_outbox (set_monitor i m s) = xs_outbox s"
  by (simp_all add: shut_down_def set_monitor_def split: prod.split)

lemma handler_step_delivered:
  "xs_outbox s = delivered (xs_said s) \<Longrightarrow>
     xs_outbox (handler_step P h s) = delivered (xs_said (handler_step P h s))"
  by (cases h) (simp_all add: send_delivered del: send_simps split: option.split monitor.split)

lemma monitor_step_delivered:
  "xs_outbox s = delivered (xs_said s) \<Longrightarrow>
     xs_outbox (monitor_step P i m s) = delivered (xs_said (monitor_step P i m s))"
  by (cases m) (simp_all add: send_delivered Let_def del: send_simps split: option.split prod.split)

lemma handle_message_sends:
  "handle_message P msg s = Some s' \<Longrightarrow> xs_outbox s' = xs_outbox s \<and> xs_said s' = xs_said s"
  by (auto simp: handle_message_def service_start_def Let_def bind_eq_Some_conv
      split: sum.splits request.splits if_splits option.splits)

text \<open>The handler's steps.\<close>

lemma told_handler_step:
  assumes "told_inv P s"
  shows "told P i (handler_step P (xs_handler s) s)"
proof -
  have t: "may_say P i (i \<in> set (xs_silent s)) (active_run s) (xs_handler s) (xs_monitors s) (says i s)"
    using assms by (simp add: told_inv_def told_def)
  have c: "carries_stop_reply (xs_handler s)" "ended_done (xs_handler s) (xs_monitors s)"
    and inv: "service_inv s"
    using assms by (simp_all add: told_inv_def)
  have act: "handler_ending (xs_handler s) = None" if "active_run s = Some i"
    using inv that by (auto simp: service_inv_def active_good_def)
  show ?thesis
  proof (cases "xs_handler s")
    case (HTake reason)
    show ?thesis
    proof (cases "xs_run s")
      case None
      with HTake t show ?thesis
        by (auto simp: told_def may_say_def split: end_reason.split)
    next
      case (Some r)
      moreover have "active_run s = Some (rn_id r)" using Some by (simp add: active_run_def)
      ultimately show ?thesis using HTake t by (auto simp: told_def may_say_def split: if_splits)
    qed
  next
    case (HJoin r reason)
    with t show ?thesis by (auto simp: told_def may_say_def split: monitor.split)
  next
    case (HShut r reason)
    with t act show ?thesis
      by (auto simp: told_def may_say_def split: end_reason.split if_splits)
  next
    case (HReply reply ended)
    with t c act show ?thesis
      by (auto simp: told_def may_say_def split: option.splits if_splits)
  next
    case (HSendStopped run)
    with t c act show ?thesis
      by (auto simp: told_def may_say_def split: if_splits)
  next
    case (HEndTransaction run gone)
    with t c act show ?thesis
      by (auto simp: told_def may_say_def told_over_def told_stopped_def split: if_splits)
  qed (use t in \<open>auto simp: told_def may_say_def\<close>)
qed

lemma carries_handler_step:
  assumes "service_inv s" "carries_stop_reply (xs_handler s)" "ended_done (xs_handler s) (xs_monitors s)"
  shows "carries_stop_reply (xs_handler (handler_step P (xs_handler s) s)) \<and>
    ended_done (xs_handler (handler_step P (xs_handler s) s)) (xs_monitors (handler_step P (xs_handler s) s))"
proof (cases "xs_handler s")
  case (HTake reason)
  with assms show ?thesis by (cases reason) (auto split: option.split)
next
  case (HSignal r reason)
  with assms show ?thesis by (cases reason) auto
next
  case (HJoin r reason)
  with assms show ?thesis by (cases reason) (auto split: monitor.split)
next
  case (HShut r reason)
  with assms show ?thesis by (cases reason) (auto simp: service_inv_def handler_good_def)
qed (use assms in \<open>auto split: option.split\<close>)

text \<open>The monitors' steps.\<close>

lemma ended_done_set_monitor:
  "ended_done h ms \<Longrightarrow> ms ! i \<noteq> MDone \<Longrightarrow> ended_done h (ms[i := m])"
proof (induction h ms rule: ended_done.induct)
  case (1 reply j ms)
  then show ?case by (cases "i = j") auto
next
  case (2 j ms)
  then show ?case by (cases "i = j") auto
next
  case (3 j gone ms)
  then show ?case by (cases "i = j") auto
qed auto

lemma told_by_handler_ending:
  assumes "told_inv P s" "i < length (xs_monitors s)" "monitor_ending (xs_monitors s ! i)"
  shows "told_by_handler (xs_handler s) i = None"
  using assms looping_facts(2) [OF assms(3)]
  by (cases "xs_handler s") (auto simp: told_inv_def service_inv_def handler_good_def)

lemma told_set_monitor:
  assumes "told P j t" "j \<noteq> i"
  shows "told P j (set_monitor i m t)"
  using assms by (simp add: told_def may_say_def split: option.splits)

lemma told_other_run:
  assumes "told P j s" "a \<noteq> Some j"
  shows "told P j (send_to_peer a m s)"
  using assms by (simp add: told_def)

lemma locked_run:
  assumes "service_inv s" "i < length (xs_monitors s)" "xs_monitors s ! i = MLock" "xs_run s = Some r"
  shows "rn_id r = i"
proof -
  have "active_run s = Some (rn_id r)" using assms(4) by (simp add: active_run_def)
  with assms show ?thesis
    by (cases "xs_handler s") (auto simp: service_inv_def monitors_good_def active_good_def)
qed

lemma told_own_step:
  assumes "told_inv P s" "i < length (xs_monitors s)"
  shows "told P i (monitor_step P i (xs_monitors s ! i) s)"
proof (cases "monitor_ending (xs_monitors s ! i)")
  case True
  have t: "told P i s" and none: "told_by_handler (xs_handler s) i = None" and inv: "service_inv s"
    using assms told_by_handler_ending [OF assms True] by (simp_all add: told_inv_def)
  have act: "active_run s \<noteq> Some i" by (rule ending_free [OF inv assms(2) True])
  have own: "monitor_run (xs_monitors s ! i) = None \<or> monitor_run (xs_monitors s ! i) = Some i"
    by (rule ending_free [OF inv assms(2) True])
  show ?thesis
    using True t own none act assms(2)
    by (cases "xs_monitors s ! i")
      (auto simp: told_def may_say_def told_failed_def told_over_def)
next
  case False
  have t: "told P i s" and inv: "service_inv s" using assms(1) by (simp_all add: told_inv_def)
  show ?thesis
  proof (cases "xs_monitors s ! i")
    case MLock
    show ?thesis
    proof (cases "xs_run s")
      case None
      with MLock t assms(2) show ?thesis by (auto simp: told_def may_say_def split: option.splits)
    next
      case (Some r)
      then have act: "active_run s = Some i" "rn_id r = i"
        using locked_run [OF inv assms(2) MLock Some] by (simp_all add: active_run_def)
      with t have "says i s = []" "i \<notin> set (xs_silent s)" by (simp_all add: told_def may_say_def)
      with MLock Some act assms(2) active_untold [OF inv act(1), of i] show ?thesis
        by (simp add: told_def may_say_def Let_def split: prod.split option.split)
    qed
  qed (use t assms(2) False in \<open>auto simp: told_def may_say_def split: option.splits\<close>)
qed

lemma told_others_step:
  assumes "told_inv P s" "i < length (xs_monitors s)" "j \<noteq> i"
  shows "told P j (monitor_step P i (xs_monitors s ! i) s)"
proof -
  have t: "told P j s" and inv: "service_inv s" using assms(1) by (simp_all add: told_inv_def)
  note move = told_set_monitor [OF _ assms(3)]
  show ?thesis
  proof (cases "xs_monitors s ! i")
    case MLock
    show ?thesis
    proof (cases "xs_run s")
      case None
      with MLock move [OF t] show ?thesis by simp
    next
      case (Some r)
      have i: "rn_id r = i" by (rule locked_run [OF inv assms(2) MLock Some])
      with t Some have "told P j (s\<lparr>xs_run := None\<rparr>)"
        using assms(3) by (simp add: told_def may_say_def active_run_def split: option.splits if_splits)
      moreover have "told P j (s\<lparr>xs_run := Some r'\<rparr>)" if "rn_id r' = i" for r'
        using t Some i that assms(3) by (simp add: told_def may_say_def active_run_def split: option.splits if_splits)
      ultimately show ?thesis
        by (simp add: MLock Some i move Let_def split: prod.split option.split)
    qed
  next
    case (MFailed r e)
    have "rn_id r = i" using inv assms(2) MFailed by (auto simp: service_inv_def monitors_good_def)
    with t assms(3) show ?thesis by (simp add: MFailed move told_other_run)
  qed (use t assms(3) in \<open>auto intro!: move told_other_run\<close>)
qed

lemma ended_done_monitor_step:
  assumes "ended_done (xs_handler s) (xs_monitors s)"
  shows "ended_done (xs_handler (monitor_step P i (xs_monitors s ! i) s))
    (xs_monitors (monitor_step P i (xs_monitors s ! i) s))"
  using assms
  by (cases "xs_monitors s ! i")
    (auto intro!: ended_done_set_monitor simp: Let_def split: prod.split option.split)

lemma handler_monitor_step [simp]:
  "xs_handler (monitor_step P i m s) = xs_handler s"
  by (cases m) (auto simp: Let_def split: prod.split option.split)

text \<open>A message.\<close>

lemma told_new_run:
  assumes "told P i s" "xs_run s = None" "rn_id r = length (xs_monitors s)"
    "told_by_handler (xs_handler s) i = None"
  shows "told P i (s\<lparr>xs_transactions := xs_transactions s + 1, xs_monitors := xs_monitors s @ [MCheck],
     xs_stop := xs_stop s @ [False], xs_run := Some r\<rparr>)"
proof (cases "i < length (xs_monitors s)")
  case True
  with assms show ?thesis by (simp add: told_def may_say_def active_run_def nth_append)
next
  case False
  with assms(1) have "says i s = []" "i \<notin> set (xs_silent s)" by (simp_all add: told_def may_say_def)
  with False assms(3) show ?thesis by (auto simp: told_def may_say_def active_run_def)
qed

lemma told_idle:
  assumes "told P i s" "xs_handler s = HIdle" "told_by_handler h i = None"
  shows "told P i (s\<lparr>xs_handler := h\<rparr>)"
  using assms by (simp add: told_def may_say_def split: option.splits)

lemma told_service_start:
  assumes "told_inv P s" "xs_handler s = HIdle" "service_start P start reply s = Some s'"
  shows "told_inv P s'"
proof -
  have inv: "service_inv s'" using assms service_start_inv by (auto simp: told_inv_def)
  have t: "told P i s" for i using assms(1) by (simp add: told_inv_def)
  have out: "xs_outbox s = delivered (xs_said s)" using assms(1) by (simp add: told_inv_def)
  have h: "told P i (s\<lparr>xs_clock := clk, xs_handler := HReply r None\<rparr>)" for i clk r
    using told_idle [of P i "s\<lparr>xs_clock := clk\<rparr>" "HReply r None"] t assms(2) by simp
  from assms(3) show ?thesis
  proof (cases rule: service_start_cases)
    case (1 reply' clk)
    with inv h out show ?thesis by (simp add: told_inv_def)
  next
    case (2 reply' clk r u)
    have "told P i s'" for i
      unfolding 2(4) by (rule told_new_run) (simp_all add: 2 h)
    moreover have "xs_handler s' = HReply reply' None" "xs_outbox s' = delivered (xs_said s')"
      using 2 out by simp_all
    ultimately show ?thesis using inv by (simp add: told_inv_def)
  qed
qed

lemma told_handle_message:
  assumes "told_inv P s" "xs_handler s = HIdle" "handle_message P msg s = Some s'"
  shows "told_inv P s'"
proof (cases "\<exists>start. parse_request msg = Inr (Start start)")
  case True
  then obtain start where "parse_request msg = Inr (Start start)" ..
  with assms(3) have "service_start P start (set_i64 KEY_VERSION CONTRACT_VERSION []) s = Some s'"
    by (simp add: handle_message_def)
  then show ?thesis by (rule told_service_start [OF assms(1,2)])
next
  case False
  have t: "told P i s" for i using assms(1) by (simp add: told_inv_def)
  have "service_inv s'" using assms handle_message_inv by (auto simp: told_inv_def)
  moreover from False assms(3) obtain h where "s' = s\<lparr>xs_handler := h\<rparr>"
      "(\<exists>r. h = HReply r None) \<or> h = HTake (ForStop stop_reply)"
    by (auto simp: handle_message_def Let_def stop_reply_def split: sum.splits request.splits)
  moreover have "xs_outbox s = delivered (xs_said s)" using assms(1) by (simp add: told_inv_def)
  ultimately show ?thesis
    using told_idle [OF t assms(2)] by (auto simp: told_inv_def)
qed

lemma told_monitor_step:
  assumes "told_inv P s" "i < length (xs_monitors s)"
  shows "told_inv P (monitor_step P i (xs_monitors s ! i) s)"
proof -
  have "told P j (monitor_step P i (xs_monitors s ! i) s)" for j
    using told_own_step [OF assms] told_others_step [OF assms] by (cases "j = i") auto
  moreover have "service_inv (monitor_step P i (xs_monitors s ! i) s)"
    by (rule monitor_step_inv) (use assms in \<open>simp_all add: told_inv_def\<close>)
  moreover have "ended_done (xs_handler (monitor_step P i (xs_monitors s ! i) s))
      (xs_monitors (monitor_step P i (xs_monitors s ! i) s))"
    by (rule ended_done_monitor_step) (use assms in \<open>simp add: told_inv_def\<close>)
  moreover have "xs_outbox (monitor_step P i (xs_monitors s ! i) s) =
      delivered (xs_said (monitor_step P i (xs_monitors s ! i) s))"
    by (rule monitor_step_delivered) (use assms in \<open>simp add: told_inv_def\<close>)
  ultimately show ?thesis using assms(1) by (simp add: told_inv_def)
qed

lemma told_engine_input:
  assumes "told_inv P s"
  shows "told_inv P (engine_input i s)"
proof -
  have act: "active_run (engine_input i s) = active_run s"
    by (simp add: engine_input_def active_run_def option.map_comp comp_def)
  have same: "xs_handler (engine_input i s) = xs_handler s" "xs_monitors (engine_input i s) = xs_monitors s"
    "says j (engine_input i s) = says j s" "xs_silent (engine_input i s) = xs_silent s"
    "xs_outbox (engine_input i s) = xs_outbox s" "xs_said (engine_input i s) = xs_said s" for j
    by (simp_all add: engine_input_def)
  have "service_inv (engine_input i s)"
    by (rule engine_input_inv) (use assms in \<open>simp add: told_inv_def\<close>)
  then show ?thesis using assms by (simp add: told_inv_def told_def act same)
qed

lemma told_step_inv: "service_step P s t \<Longrightarrow> told_inv P s \<Longrightarrow> told_inv P t"
proof (induction rule: service_step.induct)
  case (peer_connects s c)
  then show ?case
    by (auto simp: accept_peer_def told_inv_def split: option.split)
next
  case (message_arrives s msg s')
  show ?case by (rule told_handle_message [OF message_arrives(4,1,3)])
next
  case (peer_gone s)
  then show ?case using idle_move [of s "HTake ForGone"] told_idle [of P _ s "HTake ForGone"]
    by (simp add: told_inv_def)
next
  case (handler_runs s)
  then show ?case
    using told_handler_step [OF handler_runs] carries_handler_step [of s P] handler_step_inv [of s P]
      handler_step_delivered [of s P]
    by (simp add: told_inv_def)
next
  case (monitor_runs i s)
  show ?case by (rule told_monitor_step [OF monitor_runs(2,1)])
next
  case (engine_runs s i)
  then show ?case by (rule told_engine_input)
qed

lemma told_init: "told_inv P (service_new clk)"
  by (simp add: told_inv_def service_new_inv told_def may_say_def)
    (simp add: service_new_def says_def delivered_def)

interpretation report: transition_system "\<lambda>s. \<exists>clk. s = service_new clk" "service_step P" "told_inv P"
  for P by unfold_locales (auto simp: told_init intro: told_step_inv)

text \<open>
  A run is over when its monitor has ended and neither the mutex nor the handler holds it any more.
\<close>

definition run_over :: "nat \<Rightarrow> 's service \<Rightarrow> bool" where
  "run_over i s \<longleftrightarrow> i < length (xs_monitors s) \<and> xs_monitors s ! i = MDone \<and>
     active_run s \<noteq> Some i \<and> handler_ending (xs_handler s) \<noteq> Some i"

definition told_prefix :: "('s, 'conn, 'l, 'k) service_env \<Rightarrow> dictionary list \<Rightarrow> bool" where
  "told_prefix P ms \<longleftrightarrow> (\<exists>e. prefix ms [error_message P e, stopped_message REASON_FAILED]) \<or>
     prefix ms [stop_reply, stopped_message REASON_REQUESTED]"

lemma told_prefix_simps:
  "told_prefix P []" "told_prefix P [error_message P e]" "told_prefix P [stop_reply]"
  "told_failed P ms \<Longrightarrow> told_prefix P ms" "told_stopped ms \<Longrightarrow> told_prefix P ms"
  by (auto simp: told_prefix_def told_failed_def told_stopped_def)

lemma told_by_prefix:
  "told_by_monitor P silent m ms \<Longrightarrow> told_prefix P ms"
  "told_by_handler h i = Some ms \<Longrightarrow> told_prefix P ms"
  by (cases m; auto simp: told_over_def told_prefix_simps split: if_splits)
    (cases h; auto simp: told_prefix_simps told_stopped_def split: if_splits)

lemma told_over_monitor: "told_by_monitor P silent MDone ms \<longleftrightarrow> told_over P silent ms"
  by simp

text \<open>
  Claim C28. What the client is told of a run, whatever the interleaving. The messages sent are exactly
  those the service said while it had a peer, so that only messages without a peer are missing. About
  a run, it has said nothing while the run is active, and at every moment a prefix of one of two
  pairs: the error event and the stopped event with the reason failed, or the reply to the stop and
  the stopped event with the reason requested. When the run is over, the pair is complete, unless the
  run was ended for a client that had gone, of which nothing is said at all.
\<close>

theorem run_events_in_order:
  assumes "service_reaches P s"
  shows "xs_outbox s = delivered (xs_said s) \<and> (active_run s = Some i \<longrightarrow> says i s = []) \<and>
    ((\<exists>e. prefix (says i s) [error_message P e, stopped_message REASON_FAILED]) \<or>
      prefix (says i s) [stop_reply, stopped_message REASON_REQUESTED]) \<and>
    (run_over i s \<longrightarrow> (if i \<in> set (xs_silent s) then says i s = []
       else (\<exists>e. says i s = [error_message P e, stopped_message REASON_FAILED]) \<or>
         says i s = [stop_reply, stopped_message REASON_REQUESTED]))"
proof -
  have inv: "told P i s" "xs_outbox s = delivered (xs_said s)"
    using report.reachable_inv [OF assms] by (simp_all add: told_inv_def)
  have "told_prefix P (says i s)"
    using inv(1) told_by_prefix
    by (auto simp: told_def may_say_def told_prefix_simps split: option.splits if_splits)
  moreover have "told_over P (i \<in> set (xs_silent s)) (says i s)" if "run_over i s"
    using inv(1) that told_by_ending [of "xs_handler s" i]
    by (auto simp: told_def may_say_def run_over_def split: option.splits if_splits)
  ultimately show ?thesis
    using inv by (auto simp: told_def may_say_def told_over_def told_prefix_def told_failed_def told_stopped_def)
qed

theorem run_events_in_order_witness:
  "\<exists>(s :: unit service) reply e. service_reaches demo_link s \<and> run_over 0 s \<and>
     says 0 s = [error_message demo_link e, stopped_message REASON_FAILED] \<and>
     xs_outbox s = [(7, None, reply), (7, Some 0, error_message demo_link e),
       (7, Some 0, stopped_message REASON_FAILED)]"
proof -
  obtain s r reply e where s: "service_reaches demo_link s" "xs_handler s = HIdle" "xs_peer s = Some 7" "xs_run s = None"
    "xs_monitors s = [MShut r]" "xs_outbox s = [(7, None, reply), (7, Some 0, error_message demo_link e)]"
    "xs_said s = map (\<lambda>m. (Some (fst m), snd m)) (xs_outbox s)"
    using failed_link by blast
  let ?s1 = "set_monitor 0 MSendStopped (shut_down demo_link r s)"
  let ?s2 = "set_monitor 0 MEndTransaction (send_to_peer (Some 0) (stopped_message REASON_FAILED) ?s1)"
  let ?s3 = "set_monitor 0 MDone (?s2\<lparr>xs_transactions := xs_transactions ?s2 - 1\<rparr>)"
  from service_moves(3) [OF s(1), of 0] s(5) have "service_reaches demo_link ?s1" by simp
  from service_moves(3) [OF this, of 0] s(5) have "service_reaches demo_link ?s2" by simp
  from service_moves(3) [OF this, of 0] s(5) have s3: "service_reaches demo_link ?s3" by simp
  have "xs_said ?s3 = [(Some 7, None, reply), (Some 7, Some 0, error_message demo_link e),
      (Some 7, Some 0, stopped_message REASON_FAILED)]"
    by (simp add: s)
  moreover from this have "says 0 ?s3 = [error_message demo_link e, stopped_message REASON_FAILED]"
    by (simp add: says_def)
  moreover have "run_over 0 ?s3" by (simp add: run_over_def s active_run_def)
  ultimately show ?thesis
    using run_events_in_order [OF s3, THEN conjunct1] s3
    by (intro exI [of _ ?s3] exI [of _ reply] exI [of _ e]) (simp add: delivered_def)
qed

end
