(* ===== verification/Xpc_Races.thy ===== *)
theory Xpc_Races
  imports Xpc_Events
begin

text \<open>
  What the threads of the XPC service can do between the error event of a run that failed and the end
  of its shutdown: the races that the order of the monitor's calls in \<^verbatim>\<open>src/src/xpc/service.rs\<close> leaves
  open, besides the one of a stop.
\<close>

section \<open>After an error event\<close>

text \<open>
  A run that failed: its monitor has taken it out of the mutex and sent the error event, and is about
  to shut its engine down.
\<close>

definition failed_open :: "'s service \<Rightarrow> nat \<Rightarrow> bool" where
  "failed_open s i \<longleftrightarrow> i < length (xs_monitors s) \<and> (\<exists>r. xs_monitors s ! i = MShut r)"

lemma failed_open_up:
  assumes "service_inv s" "failed_open s i"
  shows "i \<notin> set (xs_down s)" "active_run s \<noteq> Some i"
proof -
  obtain r where r: "xs_monitors s ! i = MShut r" "i < length (xs_monitors s)"
    using assms(2) by (auto simp: failed_open_def)
  with assms(1) have i: "rn_id r = i" by (auto simp: service_inv_def monitors_good_def)
  have "owners s i = 1" using assms(1) r(2) by (simp add: service_inv_def owned_once_def)
  with r i show "i \<notin> set (xs_down s)" by (simp add: owners_def count_list_0_iff)
  show "active_run s \<noteq> Some i" using ending_free(1) [OF assms(1) r(2)] r(1) by simp
qed

text \<open>Its two next turns shut the engine down and report it, to the peer of that moment.\<close>

lemma failed_run_reported:
  assumes "service_reaches P s" "failed_open s i" "xs_peer s = Some q"
  shows "\<exists>t. service_reaches P t \<and> xs_outbox t = xs_outbox s @ [(q, Some i, stopped_message REASON_FAILED)] \<and>
    xs_run t = xs_run s \<and> xs_handler t = xs_handler s \<and> xs_peer t = Some q \<and> i \<in> set (xs_down t)"
proof -
  obtain r where r: "xs_monitors s ! i = MShut r" "i < length (xs_monitors s)"
    using assms(2) by (auto simp: failed_open_def)
  have id: "rn_id r = i"
    using xpc.reachable_inv [OF assms(1)] r by (auto simp: service_inv_def monitors_good_def)
  let ?t = "set_monitor i MSendStopped (shut_down P r s)"
  have "service_reaches P ?t" using service_moves(3) [OF assms(1) r(2)] by (simp add: r(1))
  from service_moves(3) [OF this, of i] r(2) have "service_reaches P
      (set_monitor i MEndTransaction (send_to_peer (Some i) (stopped_message REASON_FAILED) ?t))"
    by simp
  moreover have "xs_peer ?t = Some q" "xs_outbox ?t = xs_outbox s"
    by (simp_all add: set_monitor_def shut_down_def assms(3) split: prod.split)
  ultimately show ?thesis
    by (intro exI [of _ "set_monitor i MEndTransaction (send_to_peer (Some i) (stopped_message REASON_FAILED) ?t)"])
      (simp add: send_to_peer_def set_monitor_def id split: option.split)
qed

text \<open>
  Claim C32. A start can overtake the shutdown of a run that failed: after the error event a start is
  accepted while the failed run's engine still runs, so that two engines are up; and the stopped event
  of the failed run then follows the reply to that start, while the new run is active.
\<close>

theorem start_overtakes_failed_shutdown:
  assumes "service_reaches P s" "xs_handler s = HIdle" "xs_peer s = Some p" "xs_run s = None"
    "failed_open s i" "parse_request msg = Inr (Start start)"
    "start_engine P start (length (xs_monitors s)) (xs_clock s) (set_i64 KEY_VERSION CONTRACT_VERSION []) =
      Some (reply, Some (app, region), clk)"
  shows "\<exists>t u. service_reaches P t \<and> active_run t = Some (length (xs_monitors s)) \<and> i < length (xs_monitors s) \<and>
    i \<notin> set (xs_down t) \<and> xs_outbox t = xs_outbox s @ [(p, None, reply)] \<and>
    service_reaches P u \<and> active_run u = active_run t \<and>
    xs_outbox u = xs_outbox t @ [(p, Some i, stopped_message REASON_FAILED)]"
proof -
  define n where "n = length (xs_monitors s)"
  define s1 where "s1 = s\<lparr>xs_clock := clk, xs_handler := HReply reply None,
    xs_transactions := xs_transactions s + 1, xs_monitors := xs_monitors s @ [MCheck],
    xs_stop := xs_stop s @ [False], xs_run := Some \<lparr>rn_id = n, rn_app = app, rn_region = region\<rparr>\<rparr>"
  have "handle_message P msg s = Some s1"
    by (simp add: handle_message_def assms(4,6,7) service_start_def Let_def s1_def n_def)
  then have "service_step P s s1" by (rule message_arrives [rotated 2]) (simp_all add: assms(2,3))
  then have "service_reaches P s1" by (rule reach_step [OF assms(1)])
  from service_moves(2) [OF this] have t: "service_reaches P
      (s1\<lparr>xs_said := xs_said s @ [(Some p, None, reply)], xs_outbox := xs_outbox s @ [(p, None, reply)],
         xs_handler := HIdle\<rparr>)" (is "service_reaches P ?t")
    by (simp add: s1_def send_to_peer_def assms(3))
  have open_t: "failed_open ?t i" using assms(5) by (simp add: failed_open_def s1_def nth_append)
  have "xs_peer ?t = Some p" by (simp add: s1_def assms(3))
  from failed_run_reported [OF t open_t this] obtain u where u: "service_reaches P u"
      "xs_outbox u = xs_outbox ?t @ [(p, Some i, stopped_message REASON_FAILED)]" "xs_run u = xs_run ?t"
    by blast
  have "active_run ?t = Some n" by (simp add: s1_def active_run_def)
  moreover have "active_run u = active_run ?t" using u(3) by (simp add: active_run_def)
  moreover have "i \<notin> set (xs_down ?t)" by (rule failed_open_up [OF xpc.reachable_inv [OF t] open_t])
  ultimately show ?thesis using t u assms(5) by (intro exI [of _ ?t] exI [of _ u]) (simp add: n_def failed_open_def)
qed

text \<open>
  Claim C33. A run that failed outlives its client: when the client goes after the error event, its
  connection is forgotten while the monitor still shuts the engine down, and the next client is sent
  the stopped event of a run that it has not started.
\<close>

theorem stopped_reaches_next_client:
  assumes "service_reaches P s" "xs_handler s = HIdle" "xs_peer s = Some p" "xs_run s = None" "failed_open s i"
  shows "\<exists>t. service_reaches P t \<and> xs_peer t = Some q \<and> xs_run t = None \<and>
    xs_outbox t = xs_outbox s @ [(q, Some i, stopped_message REASON_FAILED)]"
proof -
  have "service_reaches P (s\<lparr>xs_handler := HTake ForGone\<rparr>)"
    by (rule reach_step [OF assms(1) peer_gone]) (simp_all add: assms(2,3))
  from service_moves(2) [OF this] have "service_reaches P (s\<lparr>xs_handler := HForget\<rparr>)"
    by (simp add: assms(4))
  from service_moves(2) [OF this] have "service_reaches P (s\<lparr>xs_peer := None, xs_handler := HIdle\<rparr>)" by simp
  from service_moves(1) [OF this, of q] have t: "service_reaches P (s\<lparr>xs_handler := HIdle, xs_peer := Some q\<rparr>)"
    by (simp add: accept_peer_def)
  with failed_run_reported [OF t, of i q] assms(4,5) show ?thesis by (auto simp: failed_open_def)
qed

theorem start_overtakes_failed_shutdown_witness:
  "\<exists>(t :: unit service) (u :: unit service) first second error.
     service_reaches demo_link t \<and> active_run t = Some 1 \<and> 0 \<notin> set (xs_down t) \<and>
     xs_outbox t = [first, error, (7, None, second)] \<and> service_reaches demo_link u \<and> active_run u = Some 1 \<and>
     xs_outbox u = [first, error, (7, None, second), (7, Some 0, stopped_message REASON_FAILED)]"
proof -
  obtain s r where s: "service_reaches demo_link s" "xs_handler s = HIdle" "xs_peer s = Some 7" "xs_run s = None"
    "xs_monitors s = [MShut r]" "length (xs_outbox s) = 2"
    using failed_link by blast
  obtain a b where ab: "xs_outbox s = [a, b]" using s(6) by (auto simp: numeral_2_eq_2 length_Suc_conv)
  let ?start = "\<lparr>sr_source = SourceDevice (lit ''Duet'') (Some [1, 3]), sr_midi = None, sr_config_yaml = None\<rparr>"
  have msg: "parse_request (encode_request duet_link_start) = Inr (Start ?start)"
    by (simp add: parse_encoded duet_link_start_def del: encode_request.simps)
  obtain reply app region where "start_engine demo_link ?start (length (xs_monitors s)) (xs_clock s)
      (set_i64 KEY_VERSION CONTRACT_VERSION []) = Some (reply, Some (app, region), xs_clock s)"
    using duet_link_starts by blast
  from start_overtakes_failed_shutdown [OF s(1-4) _ msg this, of 0] s(5) ab show ?thesis
    by (fastforce simp: failed_open_def)
qed

theorem stopped_reaches_next_client_witness:
  "\<exists>(t :: unit service) first error. service_reaches demo_link t \<and> xs_peer t = Some 8 \<and>
     xs_outbox t = [first, error, (8, Some 0, stopped_message REASON_FAILED)]"
proof -
  obtain s r where s: "service_reaches demo_link s" "xs_handler s = HIdle" "xs_peer s = Some 7" "xs_run s = None"
    "xs_monitors s = [MShut r]" "length (xs_outbox s) = 2"
    using failed_link by blast
  obtain a b where "xs_outbox s = [a, b]" using s(6) by (auto simp: numeral_2_eq_2 length_Suc_conv)
  with stopped_reaches_next_client [OF s(1-4), of 0 8] s(5) show ?thesis
    by (fastforce simp: failed_open_def)
qed

end
