(* ===== verification/Xpc_Contract.thy ===== *)
theory Xpc_Contract
  imports Xpc_Runs
begin

text \<open>
  The message types of the link contract, \<^verbatim>\<open>src/docs/xpc.md\<close>, and that everything the service of
  \<^verbatim>\<open>src/src/xpc/service.rs\<close> sends has one of them: each reply the type of its request, each event its own.
\<close>

section \<open>Contract types\<close>

text \<open>
  The type of a value: a constant, one of some strings, or a type of XPC. A dictionary has the fields
  listed and no others; an optional field is left out when it has no value.
\<close>

datatype contract_type =
    TIs xpc
  | TOneOf "string list"
  | TInt
  | TBool
  | TString
  | TShmem
  | TArray contract_type
  | TDict fields
and fields =
    NoField
  | Required string contract_type fields
  | Optional string contract_type fields

definition dict_remove :: "string \<Rightarrow> dictionary \<Rightarrow> dictionary" where
  "dict_remove key d = filter (\<lambda>e. fst e \<noteq> key) d"

primrec has_type :: "contract_type \<Rightarrow> xpc \<Rightarrow> bool" and has_fields :: "fields \<Rightarrow> dictionary \<Rightarrow> bool" where
  "has_type (TIs c) v = (v = c)"
| "has_type (TOneOf ss) v = list_ex (\<lambda>s. v = XString (Some (lit s))) ss"
| "has_type TInt v = (case v of XInt n \<Rightarrow> True | _ \<Rightarrow> False)"
| "has_type TBool v = (case v of XBool b \<Rightarrow> True | _ \<Rightarrow> False)"
| "has_type TString v = (case v of XString s \<Rightarrow> s \<noteq> None | _ \<Rightarrow> False)"
| "has_type TShmem v = (case v of XShmem r \<Rightarrow> True | _ \<Rightarrow> False)"
| "has_type (TArray t) v = (case v of XArray xs \<Rightarrow> list_all (has_type t) xs | _ \<Rightarrow> False)"
| "has_type (TDict fs) v = (case v of XDict d \<Rightarrow> has_fields fs d | _ \<Rightarrow> False)"
| "has_fields NoField d = (d = [])"
| "has_fields (Required key t fs) d = (case get_value key d of
     Some v \<Rightarrow> has_type t v \<and> has_fields fs (dict_remove key d) | None \<Rightarrow> False)"
| "has_fields (Optional key t fs) d = (case get_value key d of
     Some v \<Rightarrow> has_type t v \<and> has_fields fs (dict_remove key d) | None \<Rightarrow> has_fields fs d)"

text \<open>The stable codes: those of the link and those of the headless mode.\<close>

definition contract_codes :: "string list" where
  "contract_codes = [''ContractMismatch'', ''InvalidRequest'', ''AlreadyRunning''] @
     UNKNOWN_EVENT_CODE # map (\<lambda>r. error_code (any_of r)) typed_roots"

definition error_type :: contract_type where
  "error_type = TDict (Required KEY_CODE (TOneOf contract_codes) (Required KEY_MESSAGE TString NoField))"

text \<open>A reply carries the version and \<open>ok\<close>, and on success the fields of its request.\<close>

definition reply_type :: "bool \<Rightarrow> fields \<Rightarrow> contract_type" where
  "reply_type succeeded fs = TDict (Required KEY_VERSION (TIs (XInt 1)) (Required KEY_OK (TIs (XBool succeeded)) fs))"

definition failed_type :: contract_type where
  "failed_type = reply_type False (Required KEY_ERROR error_type NoField)"

definition hello_type :: contract_type where
  "hello_type = reply_type True (Required KEY_ENGINE_VERSION TString (Required KEY_CONTRACT_VERSION TInt
     (Required KEY_BAND_COUNT (TIs (XInt 32)) NoField)))"

definition audio_devices_type :: contract_type where
  "audio_devices_type = reply_type True (Required KEY_DEVICES (TArray (TDict (Required KEY_NAME TString
     (Optional KEY_SAMPLE_RATE TInt (Optional KEY_CHANNELS TInt (Required KEY_SUPPORTED TBool NoField)))))) NoField)"

definition midi_devices_type :: contract_type where
  "midi_devices_type = reply_type True
     (Required KEY_DEVICES (TArray (TDict (Required KEY_NAME TString NoField))) NoField)"

definition started_type :: contract_type where
  "started_type = reply_type True (Optional KEY_AUDIO_DEVICE TString (Required KEY_SAMPLE_RATE TInt
     (Required KEY_CHANNELS (TArray TInt) (Optional KEY_MIDI_DEVICE TString
     (Required KEY_FRAMES TShmem (Required KEY_FRAME_BYTES TInt NoField))))))"

definition stop_type :: contract_type where
  "stop_type = reply_type True NoField"

definition event_type :: "string \<Rightarrow> fields \<Rightarrow> contract_type" where
  "event_type name fs = TDict (Required KEY_VERSION (TIs (XInt 1)) (Required KEY_TYPE (TOneOf [name]) fs))"

definition event_types :: "contract_type list" where
  "event_types =
     [event_type EVENT_ERROR (Required KEY_CODE (TOneOf contract_codes) (Required KEY_MESSAGE TString NoField)),
      event_type EVENT_STOPPED (Required KEY_REASON (TOneOf [REASON_REQUESTED, REASON_FAILED]) NoField)]"

text \<open>The types a reply may have, from what its message was parsed to.\<close>

fun reply_types :: "link_error + request \<Rightarrow> contract_type list" where
  "reply_types (Inl e) = [failed_type]"
| "reply_types (Inr Hello) = [hello_type]"
| "reply_types (Inr ListAudioDevices) = [audio_devices_type, failed_type]"
| "reply_types (Inr ListMidiDevices) = [midi_devices_type, failed_type]"
| "reply_types (Inr (Start start)) = [started_type, failed_type]"
| "reply_types (Inr Stop) = [stop_type]"

definition any_reply :: "contract_type list" where
  "any_reply = [failed_type, hello_type, audio_devices_type, midi_devices_type, started_type, stop_type]"

definition one_of_types :: "contract_type list \<Rightarrow> dictionary \<Rightarrow> bool" where
  "one_of_types ts d = list_ex (\<lambda>t. has_type t (XDict d)) ts"

section \<open>The builders\<close>

lemma map_of_removed: "map_of (filter (\<lambda>e. fst e \<noteq> key) d) = (map_of d)(key := None)"
  by (induction d) auto

lemma get_value_set [simp]:
  "get_value key (dict_set key' v d) = (if key = key' then Some v else get_value key d)"
  by (simp add: get_value_def dict_set_def map_of_removed map_add_def split: option.split)

lemma get_value_empty [simp]: "get_value key [] = None"
  by (simp add: get_value_def)

lemma remove_set [simp]:
  "dict_remove key (dict_set key' v d) = (if key = key' then dict_remove key d else dict_set key' v (dict_remove key d))"
  by (auto simp: dict_remove_def dict_set_def conj_commute intro: filter_cong)

lemma remove_Nil [simp]: "dict_remove key [] = []"
  by (simp add: dict_remove_def)

lemma dict_set_not_Nil [simp]: "dict_set key v d \<noteq> []"
  by (simp add: dict_set_def)

lemmas build_simps = set_str_def set_bool_def set_i64_def fail_reply_def

lemma error_code_contract: "error_code e \<in> set contract_codes"
proof (cases e)
  case (fields cs r)
  then show ?thesis using event_codes_identify [of cs r] by (simp add: contract_codes_def)
qed

lemma link_code_contract: "link_error_code e \<in> set contract_codes"
  by (cases e) (simp_all add: contract_codes_def)

lemma unknown_code_contract: "UNKNOWN_EVENT_CODE \<in> set contract_codes"
  by (simp add: contract_codes_def)

lemma lit_no_nul: "0 \<notin> set (lit s) \<Longrightarrow> c_string (lit s) = lit s"
  by (induction s) (auto simp: c_string_def lit_def)

lemma contract_codes_no_nul: "code \<in> set contract_codes \<Longrightarrow> c_string (lit code) = lit code"
  by (rule lit_no_nul) (auto simp: contract_codes_def typed_roots_def config_variants_def error_code_def any_of_def
      lit_def UNKNOWN_EVENT_CODE_def)

lemma c_string_names:
  "c_string (lit EVENT_ERROR) = lit EVENT_ERROR" "c_string (lit EVENT_STOPPED) = lit EVENT_STOPPED"
  "c_string (lit REASON_REQUESTED) = lit REASON_REQUESTED" "c_string (lit REASON_FAILED) = lit REASON_FAILED"
  by (simp_all add: c_string_def lit_def)

text \<open>The start of every reply.\<close>

abbreviation new_reply :: dictionary where
  "new_reply \<equiv> set_i64 KEY_VERSION CONTRACT_VERSION []"

lemma fail_reply_typed:
  assumes "code \<in> set contract_codes"
  shows "has_type failed_type (XDict (fail_reply code msg new_reply))"
  using assms contract_codes_no_nul [OF assms]
  by (auto simp: failed_type_def reply_type_def error_type_def build_simps CONTRACT_VERSION_def list_ex_iff)

lemma hello_reply_typed: "has_type hello_type (XDict (hello_reply P new_reply))"
  by (simp add: hello_type_def reply_type_def hello_reply_def build_simps CONTRACT_VERSION_def contract_int_def
      BAND_COUNT_def)

lemma audio_devices_typed:
  "one_of_types [audio_devices_type, failed_type] (list_audio_devices P new_reply)"
proof (cases "en_audio_devices P")
  case (Inl e)
  then show ?thesis
    by (simp add: one_of_types_def list_audio_devices_def fail_any_def fail_reply_typed error_code_contract)
next
  case (Inr entries)
  then show ?thesis
    by (simp add: one_of_types_def list_audio_devices_def audio_devices_type_def reply_type_def build_simps
      CONTRACT_VERSION_def audio_device_entry_def Let_def list_all_iff split: option.split)
qed

lemma midi_devices_typed:
  "one_of_types [midi_devices_type, failed_type] (list_midi_devices P new_reply)"
proof (cases "en_midi_devices P")
  case (Inl e)
  then show ?thesis
    by (simp add: one_of_types_def list_midi_devices_def fail_any_def fail_reply_typed error_code_contract)
next
  case (Inr entries)
  then show ?thesis
    by (simp add: one_of_types_def list_midi_devices_def midi_devices_type_def reply_type_def build_simps
      CONTRACT_VERSION_def list_all_iff)
qed

lemma start_reply_typed: "has_type started_type (XDict (start_reply ready region run new_reply))"
  by (simp add: start_reply_def started_type_def reply_type_def build_simps CONTRACT_VERSION_def Let_def
    list_all_iff split: option.split)

lemma start_engine_typed:
  assumes "start_engine P start run clk new_reply = Some (reply, started, clk')"
  shows "one_of_types [started_type, failed_type] reply"
proof (cases "to_app_config (ho_runtime (en_host P)) (en_parse P) start 0")
  case (Inl e)
  with assms show ?thesis
    by (auto simp: start_engine_def one_of_types_def fail_any_def fail_reply_typed error_code_contract)
next
  case (Inr config)
  with assms obtain w built where
    "app_new_headless (en_delay P) (en_host P) config (fresh_world (\<lambda>s. None) clk) = Some (w, built)"
    by (auto simp: start_engine_def bind_eq_Some_conv)
  with assms Inr show ?thesis
    by (cases built; cases "slot_region (bw_slots w 0)")
      (auto simp: start_engine_def one_of_types_def fail_any_def fail_reply_typed error_code_contract
        unknown_code_contract start_reply_typed split: if_splits prod.splits)
qed

lemma stop_reply_typed: "one_of_types [stop_type] (set_bool KEY_OK True new_reply)"
  by (simp add: one_of_types_def stop_type_def reply_type_def build_simps CONTRACT_VERSION_def)

section \<open>Everything that is sent\<close>

text \<open>The reply that a handler still has to send.\<close>

fun pending_of :: "end_reason \<Rightarrow> dictionary option" where
  "pending_of (ForStop reply) = Some reply"
| "pending_of ForGone = None"

fun pending_reply :: "'s handler \<Rightarrow> dictionary option" where
  "pending_reply (HTake reason) = pending_of reason"
| "pending_reply (HSignal r reason) = pending_of reason"
| "pending_reply (HJoin r reason) = pending_of reason"
| "pending_reply (HShut r reason) = pending_of reason"
| "pending_reply (HReply reply ended) = Some reply"
| "pending_reply h = None"

definition typed_inv :: "'s service \<Rightarrow> bool" where
  "typed_inv s \<longleftrightarrow> (\<forall>reply. pending_reply (xs_handler s) = Some reply \<longrightarrow> one_of_types any_reply reply) \<and>
     (\<forall>(peer, about, msg) \<in> set (xs_outbox s). one_of_types (any_reply @ event_types) msg)"

lemma one_of_types_mono: "one_of_types ts d \<Longrightarrow> set ts \<subseteq> set us \<Longrightarrow> one_of_types us d"
  by (auto simp: one_of_types_def list_ex_iff)

lemma reply_types_any: "set (reply_types r) \<subseteq> set any_reply"
  by (cases r rule: reply_types.cases) (simp_all add: any_reply_def)

lemma service_start_typed:
  assumes "service_start P start new_reply s = Some s'"
  shows "\<exists>reply. xs_handler s' = HReply reply None \<and> one_of_types [started_type, failed_type] reply"
  using assms
  by (auto simp: service_start_def Let_def one_of_types_def
      fail_reply_typed [OF link_code_contract [of AlreadyRunning], simplified]
      bind_eq_Some_conv dest!: start_engine_typed split: if_split_asm option.split_asm)

lemma handle_message_typed:
  assumes "handle_message P msg s = Some s'"
  shows "\<exists>reply. pending_reply (xs_handler s') = Some reply \<and> one_of_types (reply_types (parse_request msg)) reply"
proof (cases "parse_request msg")
  case (Inl e)
  with assms show ?thesis
    by (auto simp: handle_message_def Let_def one_of_types_def fail_reply_typed link_code_contract)
next
  case (Inr r)
  with assms show ?thesis
    by (cases r) (auto simp: handle_message_def Let_def hello_reply_typed audio_devices_typed midi_devices_typed
      one_of_types_def [of "[hello_type]"] stop_reply_typed dest!: service_start_typed)
qed

lemma event_typed:
  "one_of_types (any_reply @ event_types) (error_message P e)"
  "reason \<in> {REASON_REQUESTED, REASON_FAILED} \<Longrightarrow> one_of_types (any_reply @ event_types) (stopped_message reason)"
  by (auto simp: one_of_types_def event_types_def event_type_def event_message_def error_message_def
      stopped_message_def build_simps CONTRACT_VERSION_def list_ex_iff error_code_contract
      contract_codes_no_nul [OF error_code_contract] c_string_names)

lemma typed_send:
  assumes "typed_inv s" "one_of_types (any_reply @ event_types) msg"
  shows "typed_inv (send_to_peer a msg s)"
  using assms by (auto simp: typed_inv_def send_to_peer_def Let_def split: option.split)

lemma typed_other [simp]:
  "typed_inv (s\<lparr>xs_peer := p\<rparr>) = typed_inv s" "typed_inv (s\<lparr>xs_run := r\<rparr>) = typed_inv s"
  "typed_inv (s\<lparr>xs_monitors := ms\<rparr>) = typed_inv s" "typed_inv (s\<lparr>xs_stop := f\<rparr>) = typed_inv s"
  "typed_inv (s\<lparr>xs_transactions := n\<rparr>) = typed_inv s" "typed_inv (s\<lparr>xs_clock := c\<rparr>) = typed_inv s"
  "typed_inv (s\<lparr>xs_silent := l\<rparr>) = typed_inv s"
  "typed_inv (shut_down P r' s) = typed_inv s" "typed_inv (set_monitor i m s) = typed_inv s"
  by (simp_all add: typed_inv_def shut_down_def set_monitor_def split: prod.split)

lemma typed_handler:
  assumes "typed_inv s" "\<And>reply. pending_reply h = Some reply \<Longrightarrow> one_of_types any_reply reply"
  shows "typed_inv (s\<lparr>xs_handler := h\<rparr>)"
  using assms by (auto simp: typed_inv_def)

lemma typed_handler_step:
  assumes "typed_inv s"
  shows "typed_inv (handler_step P (xs_handler s) s)"
proof -
  have sent: "one_of_types (any_reply @ event_types) reply" if "pending_reply (xs_handler s) = Some reply" for reply
    using assms that one_of_types_mono [of any_reply] by (auto simp: typed_inv_def)
  have keep: "typed_inv (t\<lparr>xs_handler := h\<rparr>)"
    if "typed_inv t" "pending_reply h = None \<or> pending_reply h = pending_reply (xs_handler s)" for t h
    using that assms by (intro typed_handler) (auto simp: typed_inv_def)
  show ?thesis
    using assms
    by (cases "xs_handler s")
      (auto intro!: keep typed_send sent event_typed split: option.split end_reason.split monitor.split)
qed

lemma typed_monitor_step: "typed_inv s \<Longrightarrow> typed_inv (monitor_step P i m s)"
  by (cases m) (auto simp: Let_def intro!: typed_send event_typed split: option.split prod.split)

lemma typed_handle_message:
  assumes "typed_inv s" "handle_message P msg s = Some s'"
  shows "typed_inv s'"
proof -
  have "xs_outbox s' = xs_outbox s"
    using assms(2) service_start_cases
    by (auto simp: handle_message_def Let_def split: sum.splits request.splits elim: service_start_cases)
  moreover obtain reply where "pending_reply (xs_handler s') = Some reply" "one_of_types any_reply reply"
    using handle_message_typed [OF assms(2)] one_of_types_mono [OF _ reply_types_any] by blast
  ultimately show ?thesis using assms(1) by (auto simp: typed_inv_def)
qed

lemma typed_step_inv: "service_step P s t \<Longrightarrow> typed_inv s \<Longrightarrow> typed_inv t"
  by (induction rule: service_step.induct)
    (auto simp: accept_peer_def engine_input_def intro: typed_handler_step typed_monitor_step typed_handler
      typed_handle_message split: option.split)

lemma typed_init: "typed_inv (service_new clk)"
  by (simp add: typed_inv_def service_new_def)

interpretation typed: transition_system "\<lambda>s. \<exists>clk. s = service_new clk" "service_step P" typed_inv
  for P by unfold_locales (auto simp: typed_init intro: typed_step_inv)

text \<open>
  Claim C30. Everything the client is sent is typed as the contract says: at any moment every message
  that was sent is a reply or an event of the contract, with its version, all its required fields, no
  others, and a stable code in every error; and the reply that a message is answered with has the
  type of its request, or is the failed reply where the request may fail.
\<close>

theorem service_messages_typed:
  assumes "service_reaches P s"
  shows "(\<forall>(peer, about, msg) \<in> set (xs_outbox s). one_of_types (any_reply @ event_types) msg) \<and>
    (\<forall>msg s'. handle_message P msg s = Some s' \<longrightarrow> (\<exists>reply. pending_reply (xs_handler s') = Some reply \<and>
       one_of_types (reply_types (parse_request msg)) reply))"
  using typed.reachable_inv [OF assms] handle_message_typed [of P _ s] by (auto simp: typed_inv_def)

theorem service_messages_typed_witness:
  "\<exists>(s :: unit service) first error. service_reaches demo_link s \<and> map (\<lambda>m. snd (snd m)) (xs_outbox s) = [first, error] \<and>
     one_of_types (any_reply @ event_types) first \<and> one_of_types (any_reply @ event_types) error \<and>
     (\<exists>s' reply. handle_message demo_link (encode_request WireHello) s = Some s' \<and>
        pending_reply (xs_handler s') = Some reply \<and> one_of_types [hello_type] reply)"
proof -
  obtain s where s: "service_reaches demo_link s" "length (xs_outbox s) = 2"
    using failed_link by blast
  then obtain p q first p' q' error where "xs_outbox s = [(p, q, first), (p', q', error)]"
    by (auto simp: numeral_2_eq_2 length_Suc_conv)
  moreover have "parse_request (encode_request WireHello) = Inr Hello"
    by (simp add: parse_encoded del: encode_request.simps)
  moreover from this obtain s' where "handle_message demo_link (encode_request WireHello) s = Some s'"
    by (simp add: handle_message_def Let_def)
  ultimately show ?thesis using service_messages_typed [OF s(1)] s(1)
    by (intro exI [of _ s] exI [of _ first] exI [of _ error]) fastforce
qed

end
