(* ===== verification/Xpc_Objects.thy ===== *)
theory Xpc_Objects
  imports Xpc_Protocol
begin

text \<open>
  The typed reads of \<^verbatim>\<open>src/src/xpc/ffi.rs\<close> on objects of libxpc, and the request parser of
  \<^verbatim>\<open>src/src/xpc/protocol.rs\<close> over them. Objects are pointers; what libxpc answers about them is a
  parameter, and a pointer represents a value when the answers are those its documentation gives for
  an object with that content.
\<close>

section \<open>Text\<close>

text \<open>\<^verbatim>\<open>CStr::to_str\<close>: the bytes as UTF-8, where overlong forms, surrogates and values past the last code point are errors.\<close>

definition continuation :: "nat \<Rightarrow> bool" where
  "continuation b \<longleftrightarrow> 0x80 \<le> b \<and> b < 0xC0"

fun to_str :: "nat list \<Rightarrow> rstring option" where
  "to_str [] = Some []"
| "to_str (a # rest) =
     (if a < 0x80 then map_option (Cons a) (to_str rest)
      else case rest of
        [] \<Rightarrow> None
      | b # rest \<Rightarrow>
          if \<not> continuation b then None
          else if 0xC2 \<le> a \<and> a < 0xE0 then
            map_option (Cons ((a - 0xC0) * 64 + (b - 0x80))) (to_str rest)
          else (case rest of
            [] \<Rightarrow> None
          | c # rest \<Rightarrow>
              if \<not> continuation c then None
              else if 0xE0 \<le> a \<and> a < 0xF0 then
                (let n = (a - 0xE0) * 4096 + (b - 0x80) * 64 + (c - 0x80) in
                 if n < 0x800 \<or> 0xD800 \<le> n \<and> n < 0xE000 then None
                 else map_option (Cons n) (to_str rest))
              else (case rest of
                [] \<Rightarrow> None
              | d # rest \<Rightarrow>
                  let n = (a - 0xF0) * 262144 + (b - 0x80) * 4096 + (c - 0x80) * 64 + (d - 0x80) in
                  if \<not> continuation d \<or> \<not> (0xF0 \<le> a \<and> a < 0xF5) \<or> n < 0x10000 \<or> 0x110000 \<le> n then None
                  else map_option (Cons n) (to_str rest))))"

text \<open>The encoder, as a check of the decoder.\<close>

definition encode_char :: "nat \<Rightarrow> nat list" where
  "encode_char n =
     (if n < 0x80 then [n]
      else if n < 0x800 then [0xC0 + n div 64, 0x80 + n mod 64]
      else if n < 0x10000 then [0xE0 + n div 4096, 0x80 + n div 64 mod 64, 0x80 + n mod 64]
      else [0xF0 + n div 262144, 0x80 + n div 4096 mod 64, 0x80 + n div 64 mod 64, 0x80 + n mod 64])"

definition scalar :: "nat \<Rightarrow> bool" where
  "scalar n \<longleftrightarrow> n < 0xD800 \<or> 0xE000 \<le> n \<and> n < 0x110000"

lemma digits_64:
  fixes n :: nat
  shows "n div 64 * 64 + n mod 64 = n"
    "n div 4096 * 4096 + n div 64 mod 64 * 64 + n mod 64 = n"
    "n div 262144 * 262144 + n div 4096 mod 64 * 4096 + n div 64 mod 64 * 64 + n mod 64 = n"
proof -
  have step: "k div (64 * m) * (64 * m) + k div m mod 64 * m = k div m * m" for k m :: nat
  proof -
    have "k div (64 * m) = k div m div 64" by (metis div_mult2_eq mult.commute)
    then have "k div (64 * m) * 64 + k div m mod 64 = k div m" by simp
    then show ?thesis by (metis add_mult_distrib mult.assoc)
  qed
  show *: "n div 64 * 64 + n mod 64 = n" by simp
  show **: "n div 4096 * 4096 + n div 64 mod 64 * 64 + n mod 64 = n"
    using step [of n 64] * by simp
  show "n div 262144 * 262144 + n div 4096 mod 64 * 4096 + n div 64 mod 64 * 64 + n mod 64 = n"
    using step [of n 4096] ** by simp
qed

lemma to_str_char: "scalar n \<Longrightarrow> to_str (encode_char n @ bs) = map_option (Cons n) (to_str bs)"
  unfolding scalar_def encode_char_def
  by (auto simp: continuation_def Let_def digits_64 div_less_iff_less_mult)

lemma to_str_encode: "\<forall>n \<in> set s. scalar n \<Longrightarrow> to_str (concat (map encode_char s)) = Some s"
  by (induction s) (simp_all add: to_str_char)

section \<open>Objects\<close>

text \<open>
  What libxpc answers about the objects it has handed out: pointers are numbers, and zero is the null
  pointer. The types and the connection errors are global symbols, compared by address.
\<close>

type_synonym object = nat

record libxpc =
  type_dictionary :: nat
  type_array :: nat
  type_string :: nat
  type_int64 :: nat
  type_double :: nat
  type_bool :: nat
  type_shmem :: nat
  type_error :: nat
  type_connection :: nat
  error_connection_invalid :: object
  error_connection_interrupted :: object
  error_termination_imminent :: object
  get_type :: "object \<Rightarrow> nat"
  dictionary_get_value :: "object \<Rightarrow> string \<Rightarrow> object"
  array_get_count :: "object \<Rightarrow> nat"
  array_get_value :: "object \<Rightarrow> nat \<Rightarrow> object"
  int64_get_value :: "object \<Rightarrow> i64"
  double_get_value :: "object \<Rightarrow> f64"
  bool_get_value :: "object \<Rightarrow> bool"
  string_bytes :: "object \<Rightarrow> u8 list"

datatype kind =
    KDictionary
  | KArray
  | KString
  | KInt64
  | KDouble
  | KBool
  | KShmem
  | KError
  | KConnection
  | KOther

definition type_symbols :: "libxpc \<Rightarrow> (nat \<times> kind) list" where
  "type_symbols L =
     [(type_dictionary L, KDictionary), (type_array L, KArray), (type_string L, KString),
      (type_int64 L, KInt64), (type_double L, KDouble), (type_bool L, KBool),
      (type_shmem L, KShmem), (type_error L, KError), (type_connection L, KConnection)]"

definition kind_of :: "libxpc \<Rightarrow> object \<Rightarrow> kind" where
  "kind_of L p = (if p = 0 then KOther
     else case find (\<lambda>(symbol, k). get_type L p = symbol) (type_symbols L) of
       Some (symbol, k) \<Rightarrow> k | None \<Rightarrow> KOther)"

datatype conn_error = Invalid | Interrupted | TerminationImminent | OtherError

definition connection_error :: "libxpc \<Rightarrow> object \<Rightarrow> conn_error option" where
  "connection_error L event =
     (if kind_of L event \<noteq> KError then None
      else Some (if event = error_connection_invalid L then Invalid
        else if event = error_connection_interrupted L then Interrupted
        else if event = error_termination_imminent L then TerminationImminent
        else OtherError))"

text \<open>The views: a pointer that was found to be a dictionary or an array.\<close>

definition dictionary_ref :: "libxpc \<Rightarrow> object \<Rightarrow> object option" where
  "dictionary_ref L p = (if kind_of L p = KDictionary then Some p else None)"

definition array_ref :: "libxpc \<Rightarrow> object \<Rightarrow> object option" where
  "array_ref L p = (if kind_of L p = KArray then Some p else None)"

definition ref_value :: "libxpc \<Rightarrow> string \<Rightarrow> object \<Rightarrow> object option" where
  "ref_value L key d = (let v = dictionary_get_value L d key in if v \<noteq> 0 then Some v else None)"

definition ref_contains :: "libxpc \<Rightarrow> string \<Rightarrow> object \<Rightarrow> bool" where
  "ref_contains L key d \<longleftrightarrow> ref_value L key d \<noteq> None"

definition ref_i64 :: "libxpc \<Rightarrow> string \<Rightarrow> object \<Rightarrow> i64 option" where
  "ref_i64 L key d =
     map_option (int64_get_value L) (opt_filter (\<lambda>v. kind_of L v = KInt64) (ref_value L key d))"

definition ref_f64 :: "libxpc \<Rightarrow> string \<Rightarrow> object \<Rightarrow> f64 option" where
  "ref_f64 L key d =
     map_option (double_get_value L) (opt_filter (\<lambda>v. kind_of L v = KDouble) (ref_value L key d))"

definition ref_string :: "libxpc \<Rightarrow> string \<Rightarrow> object \<Rightarrow> rstring option" where
  "ref_string L key d =
     Option.bind (opt_filter (\<lambda>v. kind_of L v = KString) (ref_value L key d))
       (\<lambda>v. to_str (map unat (string_bytes L v)))"

definition ref_dictionary :: "libxpc \<Rightarrow> string \<Rightarrow> object \<Rightarrow> object option" where
  "ref_dictionary L key d = Option.bind (ref_value L key d) (dictionary_ref L)"

definition ref_array :: "libxpc \<Rightarrow> string \<Rightarrow> object \<Rightarrow> object option" where
  "ref_array L key d = Option.bind (ref_value L key d) (array_ref L)"

definition ref_index :: "libxpc \<Rightarrow> nat \<Rightarrow> object \<Rightarrow> object option" where
  "ref_index L index a =
     (if array_get_count L a \<le> index then None
      else let v = array_get_value L a index in if v \<noteq> 0 then Some v else None)"

definition ref_index_i64 :: "libxpc \<Rightarrow> nat \<Rightarrow> object \<Rightarrow> i64 option" where
  "ref_index_i64 L index a =
     map_option (int64_get_value L) (opt_filter (\<lambda>v. kind_of L v = KInt64) (ref_index L index a))"

section \<open>The parser over objects\<close>

definition ref_parse_channels :: "libxpc \<Rightarrow> object \<Rightarrow> link_error + u16 list option" where
  "ref_parse_channels L source =
     (if \<not> ref_contains L KEY_CHANNELS source then Inr None
      else and_then (ok_or (ref_array L KEY_CHANNELS source) (invalid KEY_CHANNELS)) (\<lambda>channels.
        and_then (collect_results (map (\<lambda>index.
            ok_or (Option.bind (ref_index_i64 L index channels) u16_try_from) (invalid KEY_CHANNELS))
          [0..<array_get_count L channels]))
        (\<lambda>cs. Inr (Some cs))))"

definition ref_parse_source :: "libxpc \<Rightarrow> object \<Rightarrow> link_error + source_request" where
  "ref_parse_source L source =
     and_then (ok_or (ref_string L KEY_KIND source) (invalid KEY_KIND)) (\<lambda>kind.
       if kind = lit SOURCE_DEVICE then
         and_then (ok_or (ref_string L KEY_DEVICE_NAME source) (invalid KEY_DEVICE_NAME)) (\<lambda>dev.
         and_then (ref_parse_channels L source) (\<lambda>channels. Inr (SourceDevice dev channels)))
       else if kind = lit SOURCE_TEST_TONE then
         and_then (ok_or (ref_f64 L KEY_HZ source) (invalid KEY_HZ)) (\<lambda>hz. Inr (TestTone (f32_of_f64 hz)))
       else if kind = lit SOURCE_TEST_SWEEP then
         and_then (ok_or (ref_f64 L KEY_RATE_HZ source) (invalid KEY_RATE_HZ))
           (\<lambda>rate_hz. Inr (TestSweep (f32_of_f64 rate_hz)))
       else Inl (is_not kind ''source kind''))"

definition ref_parse_midi :: "libxpc \<Rightarrow> object \<Rightarrow> link_error + midi_request" where
  "ref_parse_midi L midi =
     and_then (ok_or (ref_string L KEY_KIND midi) (invalid KEY_KIND)) (\<lambda>kind.
       if kind = lit MIDI_DEVICE then
         and_then (ok_or (ref_string L KEY_DEVICE_NAME midi) (invalid KEY_DEVICE_NAME))
           (\<lambda>dev. Inr (MidiRequestDevice dev))
       else if kind = lit MIDI_TEST_CLOCK then
         and_then (ok_or (ref_f64 L KEY_BPM midi) (invalid KEY_BPM))
           (\<lambda>bpm. Inr (MidiRequestClock (f32_of_f64 bpm)))
       else Inl (is_not kind ''MIDI kind''))"

definition ref_parse_start :: "libxpc \<Rightarrow> object \<Rightarrow> link_error + start_request" where
  "ref_parse_start L msg =
     and_then (and_then (ok_or (ref_dictionary L KEY_SOURCE msg) (invalid KEY_SOURCE)) (ref_parse_source L)) (\<lambda>source.
     and_then
       (if ref_contains L KEY_MIDI msg
        then and_then (ok_or (ref_dictionary L KEY_MIDI msg) (invalid KEY_MIDI))
          (\<lambda>midi. and_then (ref_parse_midi L midi) (\<lambda>m. Inr (Some m)))
        else Inr None) (\<lambda>midi.
     and_then
       (if ref_contains L KEY_CONFIG_YAML msg
        then and_then (ok_or (ref_string L KEY_CONFIG_YAML msg) (invalid KEY_CONFIG_YAML))
          (\<lambda>text. Inr (Some text))
        else Inr None) (\<lambda>config_yaml.
     Inr \<lparr>sr_source = source, sr_midi = midi, sr_config_yaml = config_yaml\<rparr>)))"

definition ref_parse_request :: "libxpc \<Rightarrow> object \<Rightarrow> link_error + request" where
  "ref_parse_request L msg =
     and_then (ok_or (ref_i64 L KEY_VERSION msg) (invalid KEY_VERSION)) (\<lambda>version.
     if version \<noteq> CONTRACT_VERSION then Inl (ContractMismatch version CONTRACT_VERSION)
     else and_then (ok_or (ref_string L KEY_TYPE msg) (invalid KEY_TYPE)) (\<lambda>request_type.
       if request_type = lit TYPE_HELLO then Inr Hello
       else if request_type = lit TYPE_LIST_AUDIO_DEVICES then Inr ListAudioDevices
       else if request_type = lit TYPE_LIST_MIDI_DEVICES then Inr ListMidiDevices
       else if request_type = lit TYPE_START then and_then (ref_parse_start L msg) (\<lambda>s. Inr (Start s))
       else if request_type = lit TYPE_STOP then Inr Stop
       else Inl (is_not request_type ''request type'')))"

text \<open>
  The handler's dispatch on an event of the connection: a message, the end of the connection, or one
  that is ignored.
\<close>

datatype peer_event = OnMessage "link_error + request" | OnGone | OnIgnored

definition handle_event :: "libxpc \<Rightarrow> object \<Rightarrow> peer_event" where
  "handle_event L event = (case kind_of L event of
       KDictionary \<Rightarrow> OnMessage (ref_parse_request L event)
     | KError \<Rightarrow> (case connection_error L event of
           Some Invalid \<Rightarrow> OnGone | Some TerminationImminent \<Rightarrow> OnGone | _ \<Rightarrow> OnIgnored)
     | _ \<Rightarrow> OnIgnored)"

section \<open>What an object represents\<close>

text \<open>
  The documented answers of libxpc for an object with a content: its type's symbol and the reads of
  its content; a missing key reads as null.
\<close>

inductive represents :: "libxpc \<Rightarrow> object \<Rightarrow> xpc \<Rightarrow> bool" for L where
  int64_object: "p \<noteq> 0 \<Longrightarrow> get_type L p = type_int64 L \<Longrightarrow> represents L p (XInt (int64_get_value L p))"
| double_object: "p \<noteq> 0 \<Longrightarrow> get_type L p = type_double L \<Longrightarrow> represents L p (XDouble (double_get_value L p))"
| boolean_object: "p \<noteq> 0 \<Longrightarrow> get_type L p = type_bool L \<Longrightarrow> represents L p (XBool (bool_get_value L p))"
| text_object: "p \<noteq> 0 \<Longrightarrow> get_type L p = type_string L \<Longrightarrow>
    represents L p (XString (to_str (map unat (string_bytes L p))))"
| shmem_object: "p \<noteq> 0 \<Longrightarrow> get_type L p = type_shmem L \<Longrightarrow> represents L p (XShmem n)"
| other_object: "p \<noteq> 0 \<Longrightarrow> get_type L p \<notin> {type_dictionary L, type_array L, type_string L, type_int64 L,
    type_double L, type_bool L, type_shmem L} \<Longrightarrow> represents L p (XOther n)"
| array_object: "p \<noteq> 0 \<Longrightarrow> get_type L p = type_array L \<Longrightarrow> array_get_count L p = length xs \<Longrightarrow>
    (\<And>i. i < length xs \<Longrightarrow> represents L (array_get_value L p i) (xs ! i)) \<Longrightarrow> represents L p (XArray xs)"
| dictionary_object: "p \<noteq> 0 \<Longrightarrow> get_type L p = type_dictionary L \<Longrightarrow>
    (\<And>key. map_of d key = None \<Longrightarrow> dictionary_get_value L p key = 0) \<Longrightarrow>
    (\<And>key v. map_of d key = Some v \<Longrightarrow> represents L (dictionary_get_value L p key) v) \<Longrightarrow>
    represents L p (XDict d)"

inductive_cases representsE:
  "represents L p (XInt n)" "represents L p (XDouble x)" "represents L p (XBool b)"
  "represents L p (XString s)" "represents L p (XShmem n)" "represents L p (XOther n)"
  "represents L p (XArray xs)" "represents L p (XDict d)"

text \<open>The symbols have addresses of their own.\<close>

definition symbols_apart :: "libxpc \<Rightarrow> bool" where
  "symbols_apart L \<longleftrightarrow> distinct (map fst (type_symbols L))"

fun kinds :: "xpc \<Rightarrow> kind set" where
  "kinds (XDict d) = {KDictionary}"
| "kinds (XArray xs) = {KArray}"
| "kinds (XString s) = {KString}"
| "kinds (XInt n) = {KInt64}"
| "kinds (XDouble x) = {KDouble}"
| "kinds (XBool b) = {KBool}"
| "kinds (XShmem n) = {KShmem}"
| "kinds (XOther n) = {KError, KConnection, KOther}"

lemma represents_kind:
  assumes "symbols_apart L" "represents L p v"
  shows "kind_of L p \<in> kinds v" "p \<noteq> 0"
  using assms(2,1) by (cases; auto simp: kind_of_def symbols_apart_def type_symbols_def)+

text \<open>One lemma for each read: over the object it is the read of the value.\<close>

lemma ref_value_read:
  assumes "symbols_apart L" "represents L p (XDict d)"
  shows "rel_option (represents L) (ref_value L key p) (get_value key d)"
  using assms(2)
proof (rule representsE(8))
  assume none: "\<And>key. map_of d key = None \<Longrightarrow> dictionary_get_value L p key = 0"
    and some: "\<And>key v. map_of d key = Some v \<Longrightarrow> represents L (dictionary_get_value L p key) v"
  show ?thesis
  proof (cases "map_of d key")
    case None
    with none show ?thesis by (simp add: ref_value_def get_value_def)
  next
    case (Some v)
    then have "represents L (dictionary_get_value L p key) v" by (rule some)
    with Some represents_kind(2) [OF assms(1) this] show ?thesis by (simp add: ref_value_def get_value_def)
  qed
qed

lemma represents_kinds:
  assumes "symbols_apart L" "represents L p v"
  shows "kind_of L p = KInt64 \<longleftrightarrow> (\<exists>n. v = XInt n)" "kind_of L p = KDouble \<longleftrightarrow> (\<exists>x. v = XDouble x)"
    "kind_of L p = KString \<longleftrightarrow> (\<exists>s. v = XString s)" "kind_of L p = KArray \<longleftrightarrow> (\<exists>xs. v = XArray xs)"
    "kind_of L p = KDictionary \<longleftrightarrow> (\<exists>d. v = XDict d)"
  using represents_kind(1) [OF assms] by (cases v; auto)+

lemma ref_reads:
  assumes "symbols_apart L" "represents L p (XDict d)"
  shows "ref_contains L key p = dict_contains key d" "ref_i64 L key p = get_i64 key d"
    "ref_f64 L key p = get_f64 key d" "ref_string L key p = get_string key d"
    "rel_option (\<lambda>q e. represents L q (XDict e)) (ref_dictionary L key p) (get_dictionary key d)"
    "rel_option (\<lambda>q xs. represents L q (XArray xs)) (ref_array L key p) (get_array key d)"
proof -
  note r = ref_value_read [OF assms, of key]
  show "ref_contains L key p = dict_contains key d"
    using r by (auto simp: ref_contains_def dict_contains_def rel_option_iff split: option.splits)
  show "ref_i64 L key p = get_i64 key d" "ref_f64 L key p = get_f64 key d" "ref_string L key p = get_string key d"
    using r
    by (cases "get_value key d"; cases "the (get_value key d)"; force simp: rel_option_iff ref_i64_def get_i64_def
      ref_f64_def get_f64_def ref_string_def get_string_def represents_kinds [OF assms(1)] elim: representsE
      split: option.splits)+
  show "rel_option (\<lambda>q e. represents L q (XDict e)) (ref_dictionary L key p) (get_dictionary key d)"
    "rel_option (\<lambda>q xs. represents L q (XArray xs)) (ref_array L key p) (get_array key d)"
    using r
    by (cases "get_value key d"; cases "the (get_value key d)"; force simp: rel_option_iff ref_dictionary_def get_dictionary_def
      dictionary_ref_def ref_array_def get_array_def array_ref_def represents_kinds [OF assms(1)]
      split: option.splits)+
qed

lemma ref_index_read:
  assumes "symbols_apart L" "represents L a (XArray xs)"
  shows "ref_index_i64 L index a = array_get_i64 index xs" "array_get_count L a = length xs"
proof -
  from assms(2) have a: "array_get_count L a = length xs"
    and elems: "\<And>i. i < length xs \<Longrightarrow> represents L (array_get_value L a i) (xs ! i)"
    by (auto elim: representsE(7))
  show "array_get_count L a = length xs" by (rule a)
  show "ref_index_i64 L index a = array_get_i64 index xs"
  proof (cases "index < length xs")
    case True
    with represents_kind(2) [OF assms(1) elems] represents_kinds [OF assms(1) elems] show ?thesis
      by (cases "xs ! index") (force simp: ref_index_i64_def ref_index_def array_get_i64_def a elim: representsE(1)
        dest: elems)+
  qed (simp add: ref_index_i64_def ref_index_def array_get_i64_def a)
qed

text \<open>A step of the parser into a part of the message.\<close>

lemma and_then_part:
  assumes "rel_option R a b" "\<And>x y. R x y \<Longrightarrow> f x = g y"
  shows "and_then (ok_or a e) f = and_then (ok_or b e) g"
  using assms by (cases a; cases b) auto

lemma ref_parse_channels_read:
  assumes "symbols_apart L" "represents L p (XDict d)"
  shows "ref_parse_channels L p = parse_channels d"
  unfolding ref_parse_channels_def parse_channels_def ref_reads(1) [OF assms]
  by (cases "dict_contains KEY_CHANNELS d")
    (auto intro!: and_then_part [OF ref_reads(6) [OF assms]] simp: ref_index_read [OF assms(1)])

lemma ref_parse_source_read:
  assumes "symbols_apart L" "represents L p (XDict d)"
  shows "ref_parse_source L p = parse_source d"
  unfolding ref_parse_source_def parse_source_def ref_reads(1-4) [OF assms] ref_parse_channels_read [OF assms] ..

lemma ref_parse_midi_read:
  assumes "symbols_apart L" "represents L p (XDict d)"
  shows "ref_parse_midi L p = parse_midi d"
  unfolding ref_parse_midi_def parse_midi_def ref_reads(1-4) [OF assms] ..

lemma ref_parse_start_read:
  assumes "symbols_apart L" "represents L p (XDict d)"
  shows "ref_parse_start L p = parse_start d"
proof -
  have source: "and_then (ok_or (ref_dictionary L KEY_SOURCE p) e) (ref_parse_source L) =
      and_then (ok_or (get_dictionary KEY_SOURCE d) e) parse_source" for e
    by (rule and_then_part [OF ref_reads(5) [OF assms]]) (rule ref_parse_source_read [OF assms(1)])
  have midi: "and_then (ok_or (ref_dictionary L KEY_MIDI p) e)
        (\<lambda>midi. and_then (ref_parse_midi L midi) (\<lambda>m. Inr (Some m))) =
      and_then (ok_or (get_dictionary KEY_MIDI d) e) (\<lambda>midi. and_then (parse_midi midi) (\<lambda>m. Inr (Some m)))" for e
    by (rule and_then_part [OF ref_reads(5) [OF assms]]) (simp add: ref_parse_midi_read [OF assms(1)])
  show ?thesis
    unfolding ref_parse_start_def parse_start_def ref_reads(1-4) [OF assms] source midi ..
qed

text \<open>
  Claim C31. Parsing through the C interface is parsing the content: on an object that libxpc's answers
  describe as a dictionary, at whatever addresses its parts are, the typed reads with their null and
  type checks make the request parser find exactly the request, or the error, that the content has;
  so the handler's dispatch on such an event is that of the message, and the end of the run follows
  from an invalid connection and from an imminent termination only.
\<close>

theorem ref_parse_request_content:
  assumes "symbols_apart L" "represents L p (XDict d)"
  shows "ref_parse_request L p = parse_request d \<and> handle_event L p = OnMessage (parse_request d) \<and>
    (handle_event L q = OnGone \<longleftrightarrow> kind_of L q = KError \<and> (q = error_connection_invalid L \<or>
       q = error_termination_imminent L \<and> q \<noteq> error_connection_interrupted L))"
proof -
  have parse: "ref_parse_request L p = parse_request d"
    unfolding ref_parse_request_def parse_request_def ref_reads(1-4) [OF assms] ref_parse_start_read [OF assms] ..
  moreover have "kind_of L p = KDictionary" using represents_kind(1) [OF assms] by simp
  moreover have "handle_event L q = OnGone \<longleftrightarrow> kind_of L q = KError \<and> (q = error_connection_invalid L \<or>
       q = error_termination_imminent L \<and> q \<noteq> error_connection_interrupted L)"
    by (auto simp: handle_event_def connection_error_def split: kind.split)
  ultimately show ?thesis by (simp add: handle_event_def)
qed

text \<open>A start of two channels of a device, with its objects at the addresses 10 to 80.\<close>

definition demo_xpc :: libxpc where
  "demo_xpc =
     \<lparr>type_dictionary = 1, type_array = 2, type_string = 3, type_int64 = 4, type_double = 5, type_bool = 6,
      type_shmem = 7, type_error = 8, type_connection = 9, error_connection_invalid = 100,
      error_connection_interrupted = 101, error_termination_imminent = 102,
      get_type = (\<lambda>p. if p \<in> {10, 40} then 1 else if p = 70 then 2 else if p \<in> {30, 50, 60} then 3
        else if p \<in> {20, 80, 81} then 4 else if p \<in> {100, 101, 102} then 8 else 0),
      dictionary_get_value = (\<lambda>p key.
        if p = 10 then (if key = KEY_VERSION then 20 else if key = KEY_TYPE then 30 else if key = KEY_SOURCE then 40 else 0)
        else if p = 40 then (if key = KEY_KIND then 50 else if key = KEY_DEVICE_NAME then 60
          else if key = KEY_CHANNELS then 70 else 0)
        else 0),
      array_get_count = (\<lambda>p. if p = 70 then 2 else 0),
      array_get_value = (\<lambda>p i. if p = 70 then 80 + i else 0),
      int64_get_value = (\<lambda>p. if p = 81 then 3 else 1),
      double_get_value = (\<lambda>p. 0), bool_get_value = (\<lambda>p. False),
      string_bytes = (\<lambda>p. map of_char (if p = 30 then TYPE_START else if p = 50 then SOURCE_DEVICE else ''Duet''))\<rparr>"

lemma unat_of_char: "unat (of_char c :: u8) = of_char c"
proof -
  have "unat (of_nat (of_char c) :: u8) = of_char c mod 256" by (simp add: unat_of_nat)
  then show ?thesis by (simp only: of_nat_of_char of_char_mod_256)
qed

lemma to_str_ascii:
  "\<forall>c \<in> set s. of_char c < (128 :: nat) \<Longrightarrow> to_str (map (unat \<circ> (of_char :: char \<Rightarrow> u8)) s) = Some (lit s)"
  by (induction s) (simp_all add: lit_def unat_of_char)

lemma demo_xpc_answers:
  "get_type demo_xpc 10 = 1" "get_type demo_xpc 40 = 1" "get_type demo_xpc 70 = 2" "get_type demo_xpc 30 = 3"
  "get_type demo_xpc 50 = 3" "get_type demo_xpc 60 = 3" "get_type demo_xpc 20 = 4" "get_type demo_xpc 80 = 4"
  "get_type demo_xpc 81 = 4" "type_dictionary demo_xpc = 1" "type_array demo_xpc = 2" "type_string demo_xpc = 3"
  "type_int64 demo_xpc = 4" "int64_get_value demo_xpc 20 = 1" "int64_get_value demo_xpc 80 = 1"
  "int64_get_value demo_xpc 81 = 3" "array_get_count demo_xpc 70 = 2" "array_get_value demo_xpc 70 i = 80 + i"
  "string_bytes demo_xpc 30 = map of_char TYPE_START" "string_bytes demo_xpc 50 = map of_char SOURCE_DEVICE"
  "string_bytes demo_xpc 60 = map of_char ''Duet''"
  by (simp_all add: demo_xpc_def)

lemma demo_xpc_entries:
  "dictionary_get_value demo_xpc 10 =
     (\<lambda>key. 0)(KEY_VERSION := 20, KEY_TYPE := 30, KEY_SOURCE := 40)"
  "dictionary_get_value demo_xpc 40 =
     (\<lambda>key. 0)(KEY_KIND := 50, KEY_DEVICE_NAME := 60, KEY_CHANNELS := 70)"
  by (simp_all add: demo_xpc_def fun_eq_iff)

theorem ref_parse_request_content_witness:
  "handle_event demo_xpc 10 = OnMessage (Inr (Start \<lparr>sr_source = SourceDevice (lit ''Duet'') (Some [1, 3]),
     sr_midi = None, sr_config_yaml = None\<rparr>))"
proof -
  let ?source = "encode_source (WireDevice (lit ''Duet'') (Some [1, 3]))"
  let ?msg = "encode_request (WireStart (WireDevice (lit ''Duet'') (Some [1, 3])) None None)"
  have apart: "symbols_apart demo_xpc" by (simp add: symbols_apart_def type_symbols_def demo_xpc_def)
  have ints: "represents demo_xpc 20 (XInt 1)" "represents demo_xpc 80 (XInt 1)" "represents demo_xpc 81 (XInt 3)"
    using int64_object [of 20 demo_xpc] int64_object [of 80 demo_xpc] int64_object [of 81 demo_xpc]
    by (simp_all add: demo_xpc_answers)
  have strings: "represents demo_xpc 30 (xstr TYPE_START)" "represents demo_xpc 50 (xstr SOURCE_DEVICE)"
    "represents demo_xpc 60 (xstr ''Duet'')"
    using text_object [of 30 demo_xpc] text_object [of 50 demo_xpc] text_object [of 60 demo_xpc]
    by (simp_all only: demo_xpc_answers xstr_def) (simp_all add: to_str_ascii del: list.map to_str.simps)
  have channels: "represents demo_xpc 70 (xchannels [1, 3])"
    unfolding xchannels_def
  proof (rule array_object)
    fix i :: nat
    assume "i < length (map (\<lambda>c. XInt (ucast c)) [1, 3 :: u16])"
    then consider "i = 0" | "i = 1" by fastforce
    then show "represents demo_xpc (array_get_value demo_xpc 70 i) (map (\<lambda>c. XInt (ucast c)) [1, 3 :: u16] ! i)"
      using ints(2,3) by cases (simp_all add: demo_xpc_answers)
  qed (simp_all add: demo_xpc_answers)
  have source: "represents demo_xpc 40 (XDict ?source)"
    using strings(2,3) channels
    by (intro dictionary_object) (auto simp: demo_xpc_answers demo_xpc_entries optional_def xstr_def split: if_split_asm)
  have msg: "represents demo_xpc 10 (XDict ?msg)"
    using ints(1) strings(1) source
    by (intro dictionary_object) (auto simp: demo_xpc_answers demo_xpc_entries optional_def message_def CONTRACT_VERSION_def
      split: if_split_asm)
  have "parse_request ?msg = Inr (request_of (WireStart (WireDevice (lit ''Duet'') (Some [1, 3])) None None))"
    by (rule parse_request_encode) simp
  with ref_parse_request_content [OF apart msg] show ?thesis by simp
qed

end
