(* ===== verification/Xpc_Refs.thy ===== *)
theory Xpc_Refs
  imports Xpc_Service Xpc_Objects
begin

text \<open>
  The references to XPC objects that the service owns, \<^verbatim>\<open>src/src/xpc/ffi.rs\<close>: an \<^verbatim>\<open>Owned\<close> value is one
  reference, made by a call that returns a retained object or by \<^verbatim>\<open>xpc_retain\<close>, and given back by its
  drop. The functions of \<^verbatim>\<open>src/src/xpc/service.rs\<close> are read as the sequences of those operations that
  they do, with the drops where the values' scopes end; threads interleave at each operation, and what
  libxpc answers is arbitrary.
\<close>

section \<open>Operations\<close>

text \<open>
  The operations on variables that hold a reference or nothing:

  \<^item> \<open>NewObject x\<close>: \<^verbatim>\<open>DictionaryBuilder::new\<close>, \<^verbatim>\<open>ArrayBuilder::new\<close>, which panic on a null answer;
  \<^item> \<open>NewOrNull x\<close>: \<^verbatim>\<open>DictionaryBuilder::reply_to\<close>, \<^verbatim>\<open>shmem_create\<close>: \<^verbatim>\<open>Owned::from_retained\<close> of an answer;
  \<^item> \<open>Retain x p\<close>: \<^verbatim>\<open>Owned::retain\<close> of a pointer that libxpc has handed in;
  \<^item> \<open>Access xs\<close>: a call of libxpc on objects that it only reads or changes: the setters, \<^verbatim>\<open>set_value\<close> and
    \<^verbatim>\<open>push\<close>, \<^verbatim>\<open>cancel\<close>, the two calls of \<^verbatim>\<open>activate\<close>;
  \<^item> \<open>ClonePeer x\<close>: the clone of the peer under its mutex; \<open>SendIf x y\<close>: \<^verbatim>\<open>send\<close> to it, when there is one;
  \<^item> \<open>IfNull x is\<close>: a \<^verbatim>\<open>let else\<close>: the rest is \<open>is\<close> when the variable holds nothing;
  \<^item> \<open>TakePeer x is\<close>: the peer becomes a clone of the variable, or the rest is \<open>is\<close> when there is one;
  \<^item> \<open>ForgetPeer\<close>: the peer is dropped;
  \<^item> \<open>Drop x\<close>: the variable's scope ends.
\<close>

datatype operation =
    NewObject string
  | NewOrNull string
  | Retain string object
  | Access "string list"
  | ClonePeer string
  | SendIf string string
  | IfNull string "operation list"
  | TakePeer string "operation list"
  | ForgetPeer
  | Drop string

type_synonym program = "operation list"

type_synonym scope = "(string \<times> object option) list"

record thread =
  th_scope :: scope
  th_program :: program

text \<open>
  The account: the references that the calls have made and not given back, per object; whether an
  object without one was touched or released; and whether a thread has panicked.
\<close>

record account =
  ac_refs :: "object \<Rightarrow> nat"
  ac_peer :: "object option"
  ac_fault :: bool
  ac_panic :: bool

definition live :: "scope \<Rightarrow> account \<Rightarrow> string \<Rightarrow> bool" where
  "live v a x = (case map_of v x of Some (Some p) \<Rightarrow> 0 < ac_refs a p | _ \<Rightarrow> False)"

definition acquire :: "object option \<Rightarrow> account \<Rightarrow> account" where
  "acquire v a = (case v of Some p \<Rightarrow> a\<lparr>ac_refs := (ac_refs a)(p := ac_refs a p + 1)\<rparr> | None \<Rightarrow> a)"

definition release :: "object option \<Rightarrow> account \<Rightarrow> account" where
  "release v a = (case v of
       Some p \<Rightarrow> if ac_refs a p = 0 then a\<lparr>ac_fault := True\<rparr>
         else a\<lparr>ac_refs := (ac_refs a)(p := ac_refs a p - 1)\<rparr>
     | None \<Rightarrow> a)"

definition require :: "bool \<Rightarrow> account \<Rightarrow> account" where
  "require ok a = (if ok then a else a\<lparr>ac_fault := True\<rparr>)"

definition from_retained :: "object \<Rightarrow> object option" where
  "from_retained p = (if p = 0 then None else Some p)"

definition value_of :: "scope \<Rightarrow> string \<Rightarrow> object option" where
  "value_of v x = (case map_of v x of Some w \<Rightarrow> w | None \<Rightarrow> None)"

text \<open>One operation, with libxpc's answer to it.\<close>

fun operate :: "object \<Rightarrow> operation \<Rightarrow> program \<Rightarrow> scope \<Rightarrow> account \<Rightarrow> thread \<times> account" where
  "operate answer (NewObject x) rest v a =
     (\<lparr>th_scope = (x, Some answer) # v, th_program = rest\<rparr>,
      if answer = 0 then a\<lparr>ac_panic := True\<rparr> else acquire (Some answer) a)"
| "operate answer (NewOrNull x) rest v a =
     (\<lparr>th_scope = (x, from_retained answer) # v, th_program = rest\<rparr>, acquire (from_retained answer) a)"
| "operate answer (Retain x p) rest v a =
     (\<lparr>th_scope = (x, from_retained p) # v, th_program = rest\<rparr>, acquire (from_retained p) a)"
| "operate answer (Access xs) rest v a =
     (\<lparr>th_scope = v, th_program = rest\<rparr>, require (list_all (live v a) xs) a)"
| "operate answer (ClonePeer x) rest v a =
     (\<lparr>th_scope = (x, ac_peer a) # v, th_program = rest\<rparr>,
      acquire (ac_peer a) (require (list_all (\<lambda>p. 0 < ac_refs a p) (case ac_peer a of Some p \<Rightarrow> [p] | None \<Rightarrow> [])) a))"
| "operate answer (SendIf x y) rest v a =
     (\<lparr>th_scope = v, th_program = rest\<rparr>, require (value_of v x = None \<or> live v a x \<and> live v a y) a)"
| "operate answer (IfNull x other) rest v a =
     (\<lparr>th_scope = v, th_program = (if value_of v x = None then other else rest)\<rparr>, a)"
| "operate answer (TakePeer x other) rest v a = (case ac_peer a of
       Some p \<Rightarrow> (\<lparr>th_scope = v, th_program = other\<rparr>, a)
     | None \<Rightarrow> (\<lparr>th_scope = v, th_program = rest\<rparr>,
         (acquire (value_of v x) (require (live v a x) a))\<lparr>ac_peer := value_of v x\<rparr>))"
| "operate answer ForgetPeer rest v a =
     (\<lparr>th_scope = v, th_program = rest\<rparr>, (release (ac_peer a) a)\<lparr>ac_peer := None\<rparr>)"
| "operate answer (Drop x) rest v a =
     (\<lparr>th_scope = filter (\<lambda>e. fst e \<noteq> x) v, th_program = rest\<rparr>, release (value_of v x) a)"

section \<open>The service's programs\<close>

definition fail_program :: program where
  "fail_program =
     [NewObject ''error'', Access [''error''], Access [''error''], Access [''reply''],
      Access [''reply'', ''error''], Drop ''error'']"

definition send_to_peer_program :: "string \<Rightarrow> program" where
  "send_to_peer_program msg = [ClonePeer ''peer'', SendIf ''peer'' msg, Drop ''peer'']"

text \<open>An event, with the number of fields that its closure sets.\<close>

definition event_program :: "nat \<Rightarrow> program" where
  "event_program n =
     [NewObject ''event'', Access [''event''], Access [''event'']] @ replicate n (Access [''event'']) @
     send_to_peer_program ''event'' @ [Drop ''event'']"

definition hello_program :: program where
  "hello_program = replicate 4 (Access [''reply''])"

definition audio_device_program :: "device_info \<Rightarrow> program" where
  "audio_device_program entry =
     [NewObject ''device'', Access [''device''], Access [''device'']] @
     (if di_sample_rate entry \<noteq> None then [Access [''device'']] else []) @
     (if di_channels entry \<noteq> None then [Access [''device'']] else []) @
     [Access [''devices'', ''device''], Drop ''device'']"

definition midi_device_program :: "midi_device_info \<Rightarrow> program" where
  "midi_device_program entry =
     [NewObject ''device'', Access [''device''], Access [''devices'', ''device''], Drop ''device'']"

definition list_program :: "program list \<Rightarrow> program" where
  "list_program entries =
     [NewObject ''devices''] @ concat entries @
     [Access [''reply''], Access [''reply'', ''devices''], Drop ''devices'']"

text \<open>A start whose engine came up with a region: the rest of the handler follows both of its ends.\<close>

definition start_program :: "ready_report \<Rightarrow> program \<Rightarrow> program" where
  "start_program ready rest =
     [NewOrNull ''frames'', IfNull ''frames'' (fail_program @ Drop ''frames'' # rest), NewObject ''channels''] @
     map (\<lambda>channel. Access [''channels'']) (ra_channels (rr_audio ready)) @
     [Access [''reply''], Access [''reply''], Access [''reply'', ''channels''],
      Access [''reply'', ''frames''], Access [''reply''], Drop ''channels''] @
     (if ra_device (rr_audio ready) \<noteq> None then [Access [''reply'']] else []) @
     (if rr_midi_device ready \<noteq> None then [Access [''reply'']] else []) @
     [Drop ''frames''] @ rest"

text \<open>
  What the service decides on a message: to refuse it; the answer to a greeting or a listing; a start
  that failed or came up; a stop, with whether there was a run.
\<close>

datatype decision =
    Refuse
  | Greet
  | ListAudio "device_info list"
  | ListMidi "midi_device_info list"
  | StartUp ready_report
  | StopRun bool

fun reply_program :: "decision \<Rightarrow> program \<Rightarrow> program" where
  "reply_program Refuse rest = fail_program @ rest"
| "reply_program Greet rest = hello_program @ rest"
| "reply_program (ListAudio entries) rest = list_program (map audio_device_program entries) @ rest"
| "reply_program (ListMidi entries) rest = list_program (map midi_device_program entries) @ rest"
| "reply_program (StartUp ready) rest = start_program ready rest"
| "reply_program (StopRun ended) rest = Access [''reply''] # rest"

definition after_program :: "decision \<Rightarrow> program" where
  "after_program d = (if d = StopRun True then event_program 1 else [])"

definition message_program :: "decision \<Rightarrow> program" where
  "message_program d =
     [NewOrNull ''reply'', IfNull ''reply'' [Drop ''reply''], Access [''reply'']] @
     reply_program d (send_to_peer_program ''reply'' @ [Drop ''reply''] @ after_program d)"

definition accept_program :: "object \<Rightarrow> program" where
  "accept_program connection =
     [Retain ''connection'' connection, IfNull ''connection'' [Drop ''connection''],
      TakePeer ''connection'' [Access [''connection''], Drop ''connection''],
      Access [''connection''], Access [''connection''], Drop ''connection'']"

definition gone_program :: program where
  "gone_program = [ForgetPeer]"

definition failure_program :: program where
  "failure_program = event_program 2 @ event_program 1"

definition service_programs :: "program set" where
  "service_programs = range message_program \<union> range accept_program \<union> {gone_program, failure_program}"

section \<open>The threads\<close>

record machine =
  ma_threads :: "thread list"
  ma_account :: account

inductive machine_step :: "machine \<Rightarrow> machine \<Rightarrow> bool" where
  starts: "program \<in> service_programs \<Longrightarrow>
    machine_step m (m\<lparr>ma_threads := ma_threads m @ [\<lparr>th_scope = [], th_program = program\<rparr>]\<rparr>)"
| runs: "i < length (ma_threads m) \<Longrightarrow> ma_threads m ! i = \<lparr>th_scope = v, th_program = op # rest\<rparr> \<Longrightarrow>
    \<not> ac_panic (ma_account m) \<Longrightarrow> operate answer op rest v (ma_account m) = (t, a) \<Longrightarrow>
    machine_step m (m\<lparr>ma_threads := (ma_threads m)[i := t], ma_account := a\<rparr>)"

definition machine_new :: machine where
  "machine_new = \<lparr>ma_threads = [],
     ma_account = \<lparr>ac_refs = (\<lambda>p. 0), ac_peer = None, ac_fault = False, ac_panic = False\<rparr>\<rparr>"

section \<open>Scopes\<close>

text \<open>
  A program is well scoped for the variables that hold a reference and those that may hold nothing:
  it uses only the former, declares no variable twice, and has dropped all at its end.
\<close>

fun scoped :: "string set \<Rightarrow> string set \<Rightarrow> program \<Rightarrow> bool" where
  "scoped K M [] = (K = {} \<and> M = {})"
| "scoped K M (NewObject x # rest) = (x \<notin> K \<union> M \<and> scoped (insert x K) M rest)"
| "scoped K M (NewOrNull x # rest) = (x \<notin> K \<union> M \<and> scoped K (insert x M) rest)"
| "scoped K M (Retain x p # rest) = (x \<notin> K \<union> M \<and> scoped K (insert x M) rest)"
| "scoped K M (Access xs # rest) = (set xs \<subseteq> K \<and> scoped K M rest)"
| "scoped K M (ClonePeer x # rest) = (x \<notin> K \<union> M \<and> scoped K (insert x M) rest)"
| "scoped K M (SendIf x y # rest) = (x \<in> M \<and> y \<in> K \<and> scoped K M rest)"
| "scoped K M (IfNull x other # rest) = (x \<in> M \<and> scoped K M other \<and> scoped (insert x K) (M - {x}) rest)"
| "scoped K M (TakePeer x other # rest) = (x \<in> K \<and> scoped K M other \<and> scoped K M rest)"
| "scoped K M (ForgetPeer # rest) = scoped K M rest"
| "scoped K M (Drop x # rest) = (x \<in> K \<union> M \<and> scoped (K - {x}) (M - {x}) rest)"

text \<open>What a scope that a program is well scoped for looks like.\<close>

definition fits :: "string set \<Rightarrow> string set \<Rightarrow> scope \<Rightarrow> bool" where
  "fits K M v \<longleftrightarrow> distinct (map fst v) \<and> fst ` set v = K \<union> M \<and> K \<inter> M = {} \<and>
     (\<forall>x \<in> K. value_of v x \<noteq> None)"

definition held :: "object \<Rightarrow> scope \<Rightarrow> nat" where
  "held p v = count_list (map snd v) (Some p)"

text \<open>The references that a thread's variables and the peer account for.\<close>

definition owners_of :: "machine \<Rightarrow> object \<Rightarrow> nat" where
  "owners_of m p = sum_list (map (\<lambda>t. held p (th_scope t)) (ma_threads m)) +
     (if ac_peer (ma_account m) = Some p then 1 else 0)"

definition well_scoped :: "thread \<Rightarrow> bool" where
  "well_scoped t \<longleftrightarrow> (\<exists>K M. fits K M (th_scope t) \<and> scoped K M (th_program t))"

definition balanced :: "machine \<Rightarrow> bool" where
  "balanced m \<longleftrightarrow> \<not> ac_fault (ma_account m) \<and> (\<not> ac_panic (ma_account m) \<longrightarrow>
     (\<forall>t \<in> set (ma_threads m). well_scoped t) \<and> (\<forall>p. ac_refs (ma_account m) p = owners_of m p))"

lemma held_simps [simp]:
  "held p [] = 0" "held p ((x, w) # v) = (if w = Some p then 1 else 0) + held p v"
  by (simp_all add: held_def)

lemma value_of_Some: "value_of v x = Some p \<longleftrightarrow> map_of v x = Some (Some p)"
  by (auto simp: value_of_def split: option.split)

lemma live_held:
  assumes "value_of v x = Some p" "\<forall>q. held q v \<le> ac_refs a q"
  shows "live v a x"
proof -
  have "Some p \<in> snd ` set v" using assms(1) map_of_SomeD by (force simp: value_of_Some)
  then have "0 < held p v" by (auto simp: held_def count_list_0_iff neq0_conv [symmetric] simp del: neq0_conv)
  with assms have "0 < ac_refs a p" by (metis less_le_trans)
  with assms(1) show ?thesis by (simp add: live_def value_of_Some)
qed

lemma held_drop:
  assumes "distinct (map fst v)"
  shows "held p (filter (\<lambda>e. fst e \<noteq> x) v) + (if value_of v x = Some p then 1 else 0) = held p v"
  using assms
proof (induction v)
  case (Cons e v)
  obtain y w where e: "e = (y, w)" by (cases e)
  show ?case
  proof (cases "y = x")
    case True
    with Cons.prems e have "filter (\<lambda>e. fst e \<noteq> x) v = v" by (force simp: filter_id_conv)
    with True e show ?thesis by (simp add: value_of_def)
  next
    case False
    with Cons e show ?thesis by (simp add: value_of_def)
  qed
qed (simp add: value_of_def)

text \<open>One operation of a well scoped program: it stays well scoped, faults nothing, and the account changes as its scope does.\<close>

lemma fits_new:
  assumes "fits K M v" "x \<notin> K \<union> M"
  shows "fits (insert x K) M ((x, Some p) # v)" "fits K (insert x M) ((x, w) # v)"
  using assms by (auto simp: fits_def value_of_def)

lemma map_of_dropped: "map_of (filter (\<lambda>e. fst e \<noteq> x) v) = (map_of v)(x := None)"
  by (induction v) auto

lemma value_of_dropped: "y \<noteq> x \<Longrightarrow> value_of (filter (\<lambda>e. fst e \<noteq> x) v) y = value_of v y"
  by (simp add: value_of_def map_of_dropped)

lemma fits_drop:
  assumes "fits K M v"
  shows "fits (K - {x}) (M - {x}) (filter (\<lambda>e. fst e \<noteq> x) v)"
  using assms by (auto simp: fits_def value_of_dropped distinct_map_filter)

definition accounts :: "(object \<Rightarrow> nat) \<Rightarrow> scope \<Rightarrow> account \<Rightarrow> bool" where
  "accounts others v a \<longleftrightarrow>
     (\<forall>p. ac_refs a p = held p v + others p + (if ac_peer a = Some p then 1 else 0))"

lemma accounts_live: "accounts others v a \<Longrightarrow> value_of v x \<noteq> None \<Longrightarrow> live v a x"
  by (auto simp: accounts_def intro!: live_held)

lemma accounts_new:
  "accounts others v a \<Longrightarrow> accounts others ((x, w) # v) (acquire w a)"
  by (auto simp: accounts_def acquire_def split: option.split)

lemma accounts_drop:
  assumes "accounts others v a" "distinct (map fst v)"
  shows "accounts others (filter (\<lambda>e. fst e \<noteq> x) v) (release (value_of v x) a)"
    "ac_fault (release (value_of v x) a) = ac_fault a"
proof -
  have h: "held p v = held p (filter (\<lambda>e. fst e \<noteq> x) v) + (if value_of v x = Some p then 1 else 0)" for p
    using held_drop [OF assms(2), of p x] by simp
  have pos: "0 < ac_refs a p" if "value_of v x = Some p" for p
    using assms(1) h [of p] that by (simp add: accounts_def)
  show "accounts others (filter (\<lambda>e. fst e \<noteq> x) v) (release (value_of v x) a)"
    using assms(1) h pos by (cases "value_of v x") (auto simp: accounts_def release_def)
  show "ac_fault (release (value_of v x) a) = ac_fault a"
    using pos by (cases "value_of v x") (simp_all add: release_def)
qed

lemma well_scopedI: "fits K M v \<Longrightarrow> scoped K M is \<Longrightarrow> well_scoped \<lparr>th_scope = v, th_program = is\<rparr>"
  by (auto simp: well_scoped_def)

lemma account_simps [simp]:
  "ac_fault (acquire w a) = ac_fault a" "ac_panic (acquire w a) = ac_panic a" "ac_peer (acquire w a) = ac_peer a"
  "ac_panic (release w a) = ac_panic a" "ac_peer (release w a) = ac_peer a" "require True a = a"
  by (simp_all add: acquire_def release_def require_def split: option.split)

lemma operate_scoped:
  assumes "fits K M v" "scoped K M (op # rest)" "accounts others v a" "\<not> ac_fault a"
    "operate answer op rest v a = (t, a')"
  shows "\<not> ac_fault a' \<and> (\<not> ac_panic a' \<longrightarrow> well_scoped t \<and> accounts others (th_scope t) a')"
proof (cases op)
  case (NewObject x)
  with assms show ?thesis
    by (auto intro!: well_scopedI fits_new(1) accounts_new split: if_splits)
next
  case (NewOrNull x)
  with assms show ?thesis by (auto intro!: well_scopedI fits_new accounts_new)
next
  case (Retain x p)
  with assms show ?thesis by (auto intro!: well_scopedI fits_new accounts_new)
next
  case (Access xs)
  have "live v a x" if "x \<in> set xs" for x
    using assms(1,2) Access that by (intro accounts_live [OF assms(3)]) (auto simp: fits_def)
  then have "list_all (live v a) xs" by (simp add: list_all_iff)
  with Access assms show ?thesis by (auto intro: well_scopedI)
next
  case (ClonePeer x)
  have "0 < ac_refs a p" if "ac_peer a = Some p" for p
    using assms(3) that by (simp add: accounts_def)
  then have "require (list_all (\<lambda>p. 0 < ac_refs a p) (case ac_peer a of Some p \<Rightarrow> [p] | None \<Rightarrow> [])) a = a"
    by (cases "ac_peer a") simp_all
  with ClonePeer assms show ?thesis by (auto intro!: well_scopedI fits_new accounts_new)
next
  case (SendIf x y)
  have "value_of v y \<noteq> None" using assms(1,2) SendIf by (auto simp: fits_def)
  then have "value_of v x = None \<or> live v a x \<and> live v a y"
    using accounts_live [OF assms(3)] by blast
  with SendIf assms show ?thesis by (auto intro: well_scopedI)
next
  case (IfNull x other)
  have sc: "scoped K M other" "scoped (insert x K) (M - {x}) rest" using assms(2) IfNull by simp_all
  have "well_scoped t"
  proof (cases "value_of v x = None")
    case True
    with well_scopedI [OF assms(1) sc(1)] IfNull assms(5) show ?thesis by auto
  next
    case False
    with assms(1,2) IfNull have "fits (insert x K) (M - {x}) v" by (auto simp: fits_def)
    from well_scopedI [OF this sc(2)] False IfNull assms(5) show ?thesis by auto
  qed
  with IfNull assms show ?thesis by auto
next
  case (TakePeer x other)
  have x: "value_of v x \<noteq> None" using assms(1,2) TakePeer by (auto simp: fits_def)
  then have "live v a x" by (rule accounts_live [OF assms(3)])
  moreover have "accounts others v ((acquire (value_of v x) a)\<lparr>ac_peer := value_of v x\<rparr>)" if "ac_peer a = None"
    using assms(3) that x by (auto simp: accounts_def acquire_def)
  ultimately show ?thesis using TakePeer assms by (auto intro: well_scopedI split: option.splits)
next
  case ForgetPeer
  have pos: "0 < ac_refs a p" if "ac_peer a = Some p" for p
    using assms(3) that by (simp add: accounts_def)
  have "accounts others v ((release (ac_peer a) a)\<lparr>ac_peer := None\<rparr>)" "\<not> ac_fault (release (ac_peer a) a)"
    using assms(3,4) pos by (cases "ac_peer a"; auto simp: accounts_def release_def)+
  with ForgetPeer assms show ?thesis by (auto intro: well_scopedI)
next
  case (Drop x)
  with assms accounts_drop [OF assms(3)] show ?thesis
    by (auto intro!: well_scopedI fits_drop simp: fits_def)
qed

section \<open>The programs are well scoped\<close>

lemma scoped_concat:
  assumes "\<And>is k. is \<in> set iss \<Longrightarrow> scoped K M k \<Longrightarrow> scoped K M (is @ k)" "scoped K M rest"
  shows "scoped K M (concat iss @ rest)"
  using assms by (induction iss) auto

lemma scoped_replicate: "set xs \<subseteq> K \<Longrightarrow> scoped K M rest \<Longrightarrow> scoped K M (replicate n (Access xs) @ rest)"
  by (induction n) auto

lemma scoped_map_access: "set xs \<subseteq> K \<Longrightarrow> scoped K M rest \<Longrightarrow> scoped K M (map (\<lambda>c. Access xs) cs @ rest)"
  by (induction cs) auto

lemma scoped_fail: "scoped K M rest \<Longrightarrow> ''reply'' \<in> K \<Longrightarrow> ''error'' \<notin> K \<union> M \<Longrightarrow> scoped K M (fail_program @ rest)"
  by (simp add: fail_program_def)

lemma scoped_send:
  "scoped K M rest \<Longrightarrow> msg \<in> K \<Longrightarrow> ''peer'' \<notin> K \<union> M \<Longrightarrow> scoped K M (send_to_peer_program msg @ rest)"
  by (auto simp: send_to_peer_program_def)

lemma scoped_event: "scoped {} {} rest \<Longrightarrow> scoped {} {} (event_program n @ rest)"
  unfolding event_program_def append_assoc
  by (auto intro!: scoped_replicate scoped_send)

lemma scoped_reply:
  assumes "scoped {''reply''} {} rest"
  shows "scoped {''reply''} {} (reply_program d rest)"
proof (cases d)
  case (ListAudio entries)
  have "scoped {''devices'', ''reply''} {} (concat (map audio_device_program entries) @ k)"
    if "scoped {''devices'', ''reply''} {} k" for k
    by (rule scoped_concat [OF _ that]) (auto simp: audio_device_program_def insert_Diff_if)
  with assms ListAudio show ?thesis by (simp add: list_program_def insert_Diff_if)
next
  case (ListMidi entries)
  have "scoped {''devices'', ''reply''} {} (concat (map midi_device_program entries) @ k)"
    if "scoped {''devices'', ''reply''} {} k" for k
    by (rule scoped_concat [OF _ that]) (auto simp: midi_device_program_def insert_Diff_if)
  with assms ListMidi show ?thesis by (simp add: list_program_def insert_Diff_if)
next
  case (StartUp ready)
  have "scoped {''channels'', ''frames'', ''reply''} {} (map (\<lambda>c. Access [''channels'']) (ra_channels (rr_audio ready)) @ k)"
    if "scoped {''channels'', ''frames'', ''reply''} {} k" for k
    by (rule scoped_map_access [OF _ that]) simp
  with assms StartUp show ?thesis
    by (simp add: start_program_def scoped_fail insert_Diff_if)
qed (use assms in \<open>auto simp: scoped_fail hello_program_def intro: scoped_replicate\<close>)

lemma scoped_service_program:
  assumes "program \<in> service_programs"
  shows "scoped {} {} program"
proof -
  have "scoped {} {} (after_program d)" for d
    using scoped_event [of "[]" 1] by (simp add: after_program_def)
  then have "scoped {''reply''} {} (send_to_peer_program ''reply'' @ [Drop ''reply''] @ after_program d)" for d
    by (intro scoped_send) simp_all
  then have "scoped {} {} (message_program d)" for d
    by (simp add: message_program_def scoped_reply)
  moreover have "scoped {} {} (accept_program connection)" for connection
    by (simp add: accept_program_def)
  moreover have "scoped {} {} gone_program" by (simp add: gone_program_def)
  moreover have "scoped {} {} failure_program"
    using scoped_event [OF scoped_event [of "[]" 1], of 2] by (simp add: failure_program_def)
  ultimately show ?thesis using assms by (auto simp: service_programs_def)
qed

section \<open>The account is balanced\<close>

lemma balanced_new: "balanced machine_new"
  by (simp add: balanced_def machine_new_def owners_of_def)

lemma balanced_starts:
  assumes "balanced m" "program \<in> service_programs"
  shows "balanced (m\<lparr>ma_threads := ma_threads m @ [\<lparr>th_scope = [], th_program = program\<rparr>]\<rparr>)"
proof -
  have "well_scoped \<lparr>th_scope = [], th_program = program\<rparr>"
    by (rule well_scopedI [OF _ scoped_service_program [OF assms(2)]]) (simp add: fits_def)
  with assms(1) show ?thesis by (auto simp: balanced_def owners_of_def)
qed

lemma balanced_runs:
  assumes "balanced m" "i < length (ma_threads m)" "ma_threads m ! i = \<lparr>th_scope = v, th_program = op # rest\<rparr>"
    "\<not> ac_panic (ma_account m)" "operate answer op rest v (ma_account m) = (t, a)"
  shows "balanced (m\<lparr>ma_threads := (ma_threads m)[i := t], ma_account := a\<rparr>)"
proof -
  let ?h = "\<lambda>p. map (\<lambda>t. held p (th_scope t)) (ma_threads m)"
  let ?others = "\<lambda>p. sum_list (?h p) - held p v"
  have part: "held p v \<le> sum_list (?h p)" for p
    using elem_le_sum_list [of i "?h p"] assms(2,3) by simp
  have "accounts ?others v (ma_account m)"
    using assms(1,4) part by (auto simp: accounts_def balanced_def owners_of_def)
  moreover obtain K M where "fits K M v" "scoped K M (op # rest)"
    using assms(1-4) nth_mem [OF assms(2)] by (auto simp: balanced_def well_scoped_def)
  moreover have "\<not> ac_fault (ma_account m)" using assms(1) by (simp add: balanced_def)
  ultimately have r: "\<not> ac_fault a" "\<not> ac_panic a \<Longrightarrow> well_scoped t \<and> accounts ?others (th_scope t) a"
    using operate_scoped [OF _ _ _ _ assms(5)] by blast+
  have "sum_list (map (\<lambda>t. held p (th_scope t)) ((ma_threads m)[i := t])) = held p (th_scope t) + ?others p" for p
    using assms(2,3) part [of p] by (simp add: map_update sum_list_update)
  with r assms(1,4) show ?thesis
    by (auto simp: balanced_def owners_of_def accounts_def dest!: set_update_subset_insert [THEN subsetD])
qed

lemma balanced_step: "machine_step m m' \<Longrightarrow> balanced m \<Longrightarrow> balanced m'"
  by (induction rule: machine_step.induct) (auto intro: balanced_starts balanced_runs)

interpretation refs: transition_system "\<lambda>m. m = machine_new" machine_step balanced
  by unfold_locales (auto simp: balanced_new intro: balanced_step)

abbreviation machine_reaches :: "machine \<Rightarrow> bool" where
  "machine_reaches \<equiv> reach (\<lambda>m. m = machine_new) machine_step"

text \<open>
  Claim C29. No XPC object is used after it was released, and none is leaked: whatever libxpc answers,
  however many messages, connections, disconnections and failed runs there are and however their
  threads interleave between two operations, every object that is read, changed, sent, cloned or
  released has a reference of the service; the references it holds are at any moment exactly those of
  the variables in scope and of the peer; and when no thread is left, the peer's is the only one. Only a
  null answer to the creation of an object ends this, with a panic.
\<close>

theorem references_balanced:
  assumes "machine_reaches m"
  shows "\<not> ac_fault (ma_account m) \<and> (\<not> ac_panic (ma_account m) \<longrightarrow>
    (\<forall>p. ac_refs (ma_account m) p = owners_of m p) \<and>
    (list_all (\<lambda>t. th_program t = []) (ma_threads m) \<longrightarrow>
       (\<forall>p. ac_refs (ma_account m) p = (if ac_peer (ma_account m) = Some p then 1 else 0))))"
proof -
  have b: "balanced m" by (rule refs.reachable_inv [OF assms])
  have "th_scope t = []" if "well_scoped t" "th_program t = []" for t
    using that by (auto simp: well_scoped_def fits_def)
  then have "held p (th_scope t) = 0" if "t \<in> set (ma_threads m)" "th_program t = []" "\<not> ac_panic (ma_account m)" for t p
    using b that by (simp add: balanced_def)
  then have "owners_of m p = (if ac_peer (ma_account m) = Some p then 1 else 0)"
    if "list_all (\<lambda>t. th_program t = []) (ma_threads m)" "\<not> ac_panic (ma_account m)" for p
    using that by (simp add: owners_of_def list_all_iff)
  with b show ?thesis by (auto simp: balanced_def)
qed

lemma run_op:
  assumes "machine_reaches \<lparr>ma_threads = [\<lparr>th_scope = v, th_program = op # rest\<rparr>], ma_account = a\<rparr>"
    "\<not> ac_panic a" "operate answer op rest v a = (t, a')"
  shows "machine_reaches \<lparr>ma_threads = [t], ma_account = a'\<rparr>"
proof -
  let ?m = "\<lparr>ma_threads = [\<lparr>th_scope = v, th_program = op # rest\<rparr>], ma_account = a\<rparr>"
  have "machine_step ?m (?m\<lparr>ma_threads := (ma_threads ?m)[0 := t], ma_account := a'\<rparr>)"
    by (rule runs) (use assms(2,3) in simp_all)
  from reach_step [OF assms(1) this] show ?thesis by simp
qed

text \<open>A connection at the address 7 is accepted, up to the last operation.\<close>

theorem references_balanced_witness:
  "\<exists>m. machine_reaches m \<and> map th_program (ma_threads m) = [[]] \<and> \<not> ac_fault (ma_account m) \<and>
     ac_peer (ma_account m) = Some 7 \<and> ac_refs (ma_account m) 7 = 1 \<and> ac_refs (ma_account m) 8 = 0"
proof -
  let ?a = "\<lambda>n peer. \<lparr>ac_refs = (\<lambda>p. 0)(7 := n), ac_peer = peer, ac_fault = False, ac_panic = False\<rparr>"
  let ?v = "[(''connection'', Some 7)]"
  have "machine_reaches machine_new" by (rule reach_init) simp
  from reach_step [OF this starts [of "accept_program 7"]]
  have 0: "machine_reaches \<lparr>ma_threads = [\<lparr>th_scope = [], th_program = accept_program 7\<rparr>], ma_account = ?a 0 None\<rparr>"
    by (simp add: machine_new_def service_programs_def fun_upd_idem)
  have 1: "machine_reaches \<lparr>ma_threads = [\<lparr>th_scope = ?v, th_program = tl (accept_program 7)\<rparr>], ma_account = ?a 1 None\<rparr>"
    by (rule run_op [OF 0 [unfolded accept_program_def], where answer = 0])
      (simp_all add: accept_program_def from_retained_def acquire_def)
  have 2: "machine_reaches \<lparr>ma_threads = [\<lparr>th_scope = ?v, th_program = drop 2 (accept_program 7)\<rparr>], ma_account = ?a 1 None\<rparr>"
    by (rule run_op [OF 1 [unfolded accept_program_def, simplified], where answer = 0])
      (simp_all add: accept_program_def value_of_def)
  have 3: "machine_reaches \<lparr>ma_threads = [\<lparr>th_scope = ?v, th_program = drop 3 (accept_program 7)\<rparr>], ma_account = ?a 2 (Some 7)\<rparr>"
    by (rule run_op [OF 2 [unfolded accept_program_def, simplified], where answer = 0])
      (simp_all add: accept_program_def value_of_def live_def acquire_def require_def numeral_2_eq_2)
  have 4: "machine_reaches \<lparr>ma_threads = [\<lparr>th_scope = ?v, th_program = drop 4 (accept_program 7)\<rparr>], ma_account = ?a 2 (Some 7)\<rparr>"
    by (rule run_op [OF 3 [unfolded accept_program_def, simplified], where answer = 0])
      (simp_all add: accept_program_def live_def require_def)
  have 5: "machine_reaches \<lparr>ma_threads = [\<lparr>th_scope = ?v, th_program = drop 5 (accept_program 7)\<rparr>], ma_account = ?a 2 (Some 7)\<rparr>"
    by (rule run_op [OF 4 [unfolded accept_program_def, simplified], where answer = 0])
      (simp_all add: accept_program_def live_def require_def)
  have "machine_reaches \<lparr>ma_threads = [\<lparr>th_scope = [], th_program = []\<rparr>], ma_account = ?a 1 (Some 7)\<rparr>"
    by (rule run_op [OF 5 [unfolded accept_program_def, simplified], where answer = 0])
      (simp_all add: value_of_def release_def)
  with references_balanced [OF this] show ?thesis by fastforce
qed

end
