(* ===== verification/Midi_Thread.thy ===== *)
theory Midi_Thread
  imports Midi Worker
begin

text \<open>
  The MIDI input thread of \<^verbatim>\<open>src/src/managers/midi.rs\<close> and its end: with a real device it only holds the
  connection, parked, until the join loop of \<^verbatim>\<open>src/src/worker.rs\<close> wakes it. Parking is modelled as the
  standard library documents it: a token that \<^verbatim>\<open>unpark\<close> sets and \<^verbatim>\<open>park\<close> consumes, and returns without a
  reason.
\<close>

section \<open>The threads\<close>

text \<open>
  The holder is about to load the run flag, about to park, parked, or has returned and so dropped the
  connection. The synthetic clock never parks; its loop is \<open>run_synthetic_clock\<close>.
\<close>

datatype holder = AtLoad | AtPark | Parked | Returned

text \<open>
  The joining thread is about to clear the run flag, polls, has joined, or has detached the thread after
  its grace period; it counts its wake-ups.
\<close>

datatype joiner = Clearing | Polling nat | Joining | Detached nat

record parking =
  pk_running :: bool
  pk_token :: bool
  pk_holder :: holder
  pk_joiner :: joiner

definition parking_new :: parking where
  "parking_new = \<lparr>pk_running = True, pk_token = False, pk_holder = AtLoad, pk_joiner = Clearing\<rparr>"

text \<open>\<^verbatim>\<open>run_real_device\<close>: the next turn of the holder, None when it cannot take one.\<close>

fun holder_turn :: "holder \<Rightarrow> parking \<Rightarrow> parking option" where
  "holder_turn AtLoad s = Some (s\<lparr>pk_holder := if pk_running s then AtPark else Returned\<rparr>)"
| "holder_turn AtPark s = Some (if pk_token s then s\<lparr>pk_token := False, pk_holder := AtLoad\<rparr>
     else s\<lparr>pk_holder := Parked\<rparr>)"
| "holder_turn Parked s = (if pk_token s then Some (s\<lparr>pk_token := False, pk_holder := AtLoad\<rparr>) else None)"
| "holder_turn Returned s = None"

text \<open>
  The shutdown: the run flag is cleared, if the engine has not done so itself, then each poll of the
  join loop joins the thread if it has returned, detaches it if its deadline is past, and otherwise
  wakes it.
\<close>

fun joiner_turn :: "bool \<Rightarrow> joiner \<Rightarrow> parking \<Rightarrow> parking option" where
  "joiner_turn expired Clearing s = Some (s\<lparr>pk_running := False, pk_joiner := Polling 0\<rparr>)"
| "joiner_turn expired (Polling n) s = Some (if pk_holder s = Returned then s\<lparr>pk_joiner := Joining\<rparr>
     else if expired then s\<lparr>pk_joiner := Detached n\<rparr>
     else s\<lparr>pk_token := True, pk_joiner := Polling (n + 1)\<rparr>)"
| "joiner_turn expired Joining s = None"
| "joiner_turn expired (Detached n) s = None"

inductive parking_step :: "parking \<Rightarrow> parking \<Rightarrow> bool" where
  holder_runs: "holder_turn (pk_holder s) s = Some t \<Longrightarrow> parking_step s t"
| spurious_wakeup: "pk_holder s = Parked \<Longrightarrow> parking_step s (s\<lparr>pk_holder := AtLoad\<rparr>)"
| engine_stops: "parking_step s (s\<lparr>pk_running := False\<rparr>)"
| joiner_runs: "joiner_turn expired (pk_joiner s) s = Some t \<Longrightarrow> parking_step s t"

inductive_cases parking_stepE: "parking_step s t"

section \<open>No wake-up is lost\<close>

fun polls :: "joiner \<Rightarrow> nat" where
  "polls (Polling n) = n"
| "polls (Detached n) = n"
| "polls j = 0"

definition parking_inv :: "parking \<Rightarrow> bool" where
  "parking_inv s \<longleftrightarrow> (pk_running s \<longrightarrow> pk_joiner s = Clearing \<and> pk_holder s \<noteq> Returned) \<and>
     (0 < polls (pk_joiner s) \<longrightarrow> pk_holder s \<in> {AtLoad, Returned} \<or> pk_token s) \<and>
     (pk_joiner s = Joining \<longrightarrow> pk_holder s = Returned)"

lemma parking_step_inv: "parking_step s t \<Longrightarrow> parking_inv s \<Longrightarrow> parking_inv t"
proof (induction rule: parking_step.induct)
  case (holder_runs s t)
  then show ?case by (cases "pk_holder s") (auto simp: parking_inv_def split: if_splits)
next
  case (joiner_runs expired s t)
  then show ?case by (cases "pk_joiner s") (auto simp: parking_inv_def split: if_splits)
qed (auto simp: parking_inv_def)

lemma parking_init: "parking_inv parking_new"
  by (simp add: parking_inv_def parking_new_def)

interpretation park: transition_system "\<lambda>s. s = parking_new" parking_step parking_inv
  by unfold_locales (auto simp: parking_init intro: parking_step_inv)

abbreviation parking_reaches :: "parking \<Rightarrow> bool" where
  "parking_reaches \<equiv> reach (\<lambda>s. s = parking_new) parking_step"

text \<open>The turns the holder still needs once the flag is clear and it was woken.\<close>

fun turns_left :: "holder \<Rightarrow> nat" where
  "turns_left AtPark = 2"
| "turns_left Parked = 2"
| "turns_left AtLoad = 1"
| "turns_left Returned = 0"

text \<open>
  Claim C37. One wake-up is enough, whatever the interleaving: after the run flag was cleared and the join
  loop has woken the thread once, the holder is never blocked, needs at most two turns of its own and
  each brings it closer to its return, and no other thread's turn takes it back, even when the loop has
  detached it; a thread that is joined has returned, and the connection is held until then. While the
  flag is set it never returns, however often it is woken without a reason.
\<close>

theorem midi_holder_returns:
  assumes "parking_reaches s"
  shows "(0 < polls (pk_joiner s) \<longrightarrow> turns_left (pk_holder s) \<le> 2 \<and>
      (pk_holder s \<noteq> Returned \<longrightarrow> (\<exists>t. holder_turn (pk_holder s) s = Some t \<and>
         turns_left (pk_holder t) < turns_left (pk_holder s))) \<and>
      (\<forall>t. parking_step s t \<longrightarrow> turns_left (pk_holder t) \<le> turns_left (pk_holder s))) \<and>
    (pk_joiner s = Joining \<longrightarrow> pk_holder s = Returned) \<and>
    (pk_running s \<longrightarrow> pk_holder s \<noteq> Returned)"
proof -
  have inv: "parking_inv s" by (rule park.reachable_inv [OF assms])
  have "turns_left (pk_holder t) \<le> turns_left (pk_holder s)"
    if "parking_step s t" "0 < polls (pk_joiner s)" for t
    using that(1)
  proof (rule parking_stepE)
    assume "holder_turn (pk_holder s) s = Some t"
    with inv that(2) show ?thesis by (cases "pk_holder s") (auto simp: parking_inv_def split: if_splits)
  next
    fix expired assume "joiner_turn expired (pk_joiner s) s = Some t"
    then show ?thesis by (cases "pk_joiner s") (auto split: if_splits)
  qed simp_all
  moreover have "\<exists>t. holder_turn (pk_holder s) s = Some t \<and> turns_left (pk_holder t) < turns_left (pk_holder s)"
    if "pk_holder s \<noteq> Returned" "0 < polls (pk_joiner s)"
    using inv that by (cases "pk_holder s") (auto simp: parking_inv_def)
  moreover have "turns_left (pk_holder s) \<le> 2" by (cases "pk_holder s") simp_all
  ultimately show ?thesis using inv by (auto simp: parking_inv_def)
qed

lemmas parking_moves = reach_step [where step = parking_step, OF _ holder_runs]
  reach_step [where step = parking_step, OF _ joiner_runs [where expired = False]]

text \<open>The holder parks before the flag is cleared, and one wake-up brings it back.\<close>

theorem midi_holder_returns_witness:
  "\<exists>s t. parking_reaches s \<and> pk_holder s = Parked \<and> pk_joiner s = Polling 1 \<and> \<not> pk_running s \<and>
     holder_turn Parked s = Some t \<and> turns_left (pk_holder t) < turns_left (pk_holder s)"
proof -
  let ?s = "\<lambda>r tok h j. \<lparr>pk_running = r, pk_token = tok, pk_holder = h, pk_joiner = j\<rparr>"
  have "parking_reaches (?s True False AtLoad Clearing)"
    by (rule reach_init) (simp add: parking_new_def)
  from parking_moves(1) [OF this] have "parking_reaches (?s True False AtPark Clearing)" by simp
  from parking_moves(1) [OF this] have "parking_reaches (?s True False Parked Clearing)" by simp
  from parking_moves(2) [OF this] have "parking_reaches (?s False False Parked (Polling 0))" by simp
  from parking_moves(2) [OF this] have s: "parking_reaches (?s False True Parked (Polling 1))" by simp
  from midi_holder_returns [OF s] obtain t where
    "holder_turn Parked (?s False True Parked (Polling 1)) = Some t" "turns_left (pk_holder t) < turns_left Parked"
    by auto
  with s show ?thesis by (intro exI [of _ "?s False True Parked (Polling 1)"] exI [of _ t]) simp
qed

end
