(* ===== verification/Logging.thy ===== *)
theory Logging
  imports Audio Midi
begin

text \<open>
  The log lines that the program's own functions decide: the device listings of
  \<^verbatim>\<open>src/src/managers/audio.rs\<close> and \<^verbatim>\<open>src/src/managers/midi.rs\<close>, the warning of
  \<^verbatim>\<open>src/src/managers/mod.rs\<close>, the format of \<^verbatim>\<open>src/src/main.rs\<close> and the syslog writer of
  \<^verbatim>\<open>src/src/xpc/logging.rs\<close>; and what a listing says of the device that its name opens.
\<close>

section \<open>Records\<close>

datatype level = LError | LWarn | LInfo | LDebug | LTrace

type_synonym log_line = "level \<times> rstring"

fun level_rank :: "level \<Rightarrow> nat" where
  "level_rank LError = 1"
| "level_rank LWarn = 2"
| "level_rank LInfo = 3"
| "level_rank LDebug = 4"
| "level_rank LTrace = 5"

fun level_name :: "level \<Rightarrow> string" where
  "level_name LError = ''ERROR''"
| "level_name LWarn = ''WARN''"
| "level_name LInfo = ''INFO''"
| "level_name LDebug = ''DEBUG''"
| "level_name LTrace = ''TRACE''"

text \<open>The format of stderr; the carriage return is for a terminal in raw mode.\<close>

definition terminal_line :: "bool \<Rightarrow> log_line \<Rightarrow> rstring" where
  "terminal_line headless line = (case line of (level, text) \<Rightarrow>
     lit ''['' @ lit (level_name level) @ lit ''] '' @ text @ (if headless then [] else [13]) @ [10])"

section \<open>Syslog\<close>

definition NUL_REPLACEMENT :: rstring where
  "NUL_REPLACEMENT = [0xFFFD]"

definition MAX_LEVEL :: level where
  "MAX_LEVEL = LInfo"

text \<open>The priorities of \<^verbatim>\<open>syslog(3)\<close>, and \<^verbatim>\<open>CString::new\<close>, which refuses an interior NUL.\<close>

fun syslog_priority :: "level \<Rightarrow> nat" where
  "syslog_priority LError = 3"
| "syslog_priority LWarn = 4"
| "syslog_priority LInfo = 6"
| "syslog_priority LDebug = 7"
| "syslog_priority LTrace = 7"

definition c_string_new :: "rstring \<Rightarrow> rstring option" where
  "c_string_new text = (if 0 \<in> set text then None else Some text)"

definition syslog_enabled :: "level \<Rightarrow> bool" where
  "syslog_enabled level \<longleftrightarrow> level_rank level \<le> level_rank MAX_LEVEL"

definition syslog_log :: "log_line \<Rightarrow> (nat \<times> rstring) list" where
  "syslog_log line = (case line of (level, args) \<Rightarrow>
     if \<not> syslog_enabled level then []
     else let text = concat (map (\<lambda>c. if c = 0 then NUL_REPLACEMENT else [c]) args) in
       (case c_string_new text of Some msg \<Rightarrow> [(syslog_priority level, msg)] | None \<Rightarrow> []))"

text \<open>What installing the logger does; a logger that is already set is kept, with its level.\<close>

datatype log_setup = OpenLog string | SetMaxLevel level | SetPanicHook

definition install_syslog :: "string \<Rightarrow> bool \<Rightarrow> log_setup list" where
  "install_syslog ident set_logger_ok =
     [OpenLog ident] @ (if set_logger_ok then [SetMaxLevel MAX_LEVEL] else []) @ [SetPanicHook]"

lemma syslog_writes:
  "level \<in> {LError, LWarn, LInfo} \<Longrightarrow>
     \<exists>msg. syslog_log (level, args) = [(syslog_priority level, msg)] \<and> 0 \<notin> set msg \<and> length msg = length args"
proof -
  have "concat (map (\<lambda>c. if c = 0 then NUL_REPLACEMENT else [c]) args) = map (\<lambda>c. if c = 0 then 0xFFFD else c) args"
    by (induction args) (simp_all add: NUL_REPLACEMENT_def)
  then show "level \<in> {LError, LWarn, LInfo} \<Longrightarrow> ?thesis"
    by (auto simp: syslog_log_def syslog_enabled_def MAX_LEVEL_def Let_def c_string_new_def)
qed

section \<open>Worker threads\<close>

text \<open>\<^verbatim>\<open>log_priority_result\<close>, with the error's text, and the thread's name if it has one.\<close>

definition log_priority_result :: "bool \<Rightarrow> rstring option \<Rightarrow> rstring + unit \<Rightarrow> log_line list" where
  "log_priority_result linux thread_name result = (case result of
       Inr u \<Rightarrow> []
     | Inl e \<Rightarrow>
         let name = unwrap_or thread_name (lit ''unknown'');
             hint = (if linux then lit '' On Linux, grant CAP_SYS_NICE to the binary or run under a user with rtprio limits set.''
               else []) in
         [(LWarn, lit ''Failed to set thread priority for '' @ [39] @ name @ [39] @ lit '': '' @ e @ lit ''.'' @ hint)])"

text \<open>
  \<^verbatim>\<open>spawn_async_worker\<close>: the caller panics when the thread cannot be spawned, and the thread when its
  runtime cannot be built; otherwise the thread's result is that of the future.
\<close>

definition spawn_async_worker ::
  "string \<Rightarrow> rstring + unit \<Rightarrow> rstring + 'rt \<Rightarrow> ('rt \<Rightarrow> 'a) \<Rightarrow> rstring + (rstring + 'a)" where
  "spawn_async_worker name spawned runtime future = (case spawned of
       Inl e \<Rightarrow> Inl (lit ''failed to spawn '' @ lit name @ lit '' thread: '' @ e)
     | Inr u \<Rightarrow> Inr (case runtime of
           Inl e \<Rightarrow> Inl (lit ''failed to build tokio runtime for '' @ lit name @ lit '': '' @ e)
         | Inr rt \<Rightarrow> Inr (future rt)))"

section \<open>Listings\<close>

definition device_line :: "device_info \<Rightarrow> log_line" where
  "device_line entry =
     (case (di_sample_rate entry, di_channels entry, di_sample_format entry) of
        (Some sample_rate, Some channels, Some fmt) \<Rightarrow>
          let status = (if di_supported entry then [] else lit ''* No hardware support (32-bit required)'') in
          (LInfo, lit ''['' @ show_nat (di_index entry) @ lit ''] '' @ di_name entry @ lit '' ('' @
             show_nat (unat sample_rate) @ lit ''Hz, '' @ show_nat (unat channels) @ lit ''ch, '' @ lit fmt @
             lit '') '' @ status)
      | _ \<Rightarrow> (LWarn, lit ''['' @ show_nat (di_index entry) @ lit ''] '' @ di_name entry @
          lit '' (Configuration unavailable)''))"

definition list_devices_text :: "device_info list \<Rightarrow> log_line list" where
  "list_devices_text entries =
     (if entries = [] then [(LWarn, lit ''[*] No input devices detected. Check system permissions'')]
      else map device_line entries)"

definition list_midi_devices_text :: "midi_device_info list \<Rightarrow> log_line list" where
  "list_midi_devices_text entries =
     (if entries = [] then [(LWarn, lit ''[*] No MIDI input devices detected.'')]
      else map (\<lambda>entry. (LInfo, lit ''['' @ show_nat (mi_index entry) @ lit ''] '' @ mi_name entry)) entries)"

text \<open>
  The listing's output: log lines, or one line of JSON on stdout. The encoder is serde's; its failure
  is the error.
\<close>

datatype listing = Logged "log_line list" | Printed rstring

definition list_devices_json :: "('a list \<Rightarrow> rstring + rstring) \<Rightarrow> 'a list \<Rightarrow> rstring + listing" where
  "list_devices_json to_json entries = and_then (to_json entries) (\<lambda>json. Inr (Printed (json @ [10])))"

definition list_devices ::
  "(device_info list \<Rightarrow> rstring + rstring) \<Rightarrow> (device_error \<Rightarrow> rstring) \<Rightarrow> audio_device list option \<Rightarrow> bool
    \<Rightarrow> rstring + listing" where
  "list_devices to_json show_error host json = (case enumerate_devices host of
       Inl e \<Rightarrow> Inl (show_error e)
     | Inr entries \<Rightarrow> if json then list_devices_json to_json entries
         else Inr (Logged (list_devices_text entries)))"

definition list_midi ::
  "(midi_device_info list \<Rightarrow> rstring + rstring) \<Rightarrow> rstring + 'd list \<Rightarrow> ('d \<Rightarrow> rstring option) \<Rightarrow> bool
    \<Rightarrow> rstring + listing" where
  "list_midi to_json midi_in port_name json =
     and_then (enumerate_midi_devices midi_in port_name) (\<lambda>entries.
       if json then list_devices_json to_json entries
       else Inr (Logged (list_midi_devices_text entries)))"




text \<open>
  A MIDI port without a name is listed as unknown and cannot be opened by that name, unless a named
  port matches it.
\<close>

lemma unnamed_port_not_opened:
  assumes "port_name port = None" "\<forall>p \<in> set ports. port_name p = None"
  shows "connect_midi_device lower (Inr ports) port_name connect query = Inl (MidiNoMatch query)"
proof -
  have "List.find (port_matches port_name p) ports = None" for p
    using assms(2) by (auto simp: find_None_iff port_matches_def)
  then show ?thesis by (simp add: connect_midi_device_choice)
qed



end
