(* ===== verification/Tests_Prelude.thy ===== *)
theory Tests_Prelude
  imports Config_Types
begin

text \<open>
  What the translated unit tests of the program share. In the theories whose names begin with
  \<open>Tests\<close>, a definition with the name of a test function is the assertion of that test, over the
  model's definitions, and the lemmas show that the model passes it: the expectations that the program's
  authors have written down are checked against the model. A test that only starts threads, opens
  devices or reads the text of a third-party format has no translation.
\<close>

unbundle bit_operations_syntax

named_theorems test_run

text \<open>The constants of \<^verbatim>\<open>f32\<close> that the tests name.\<close>

definition F32_NAN :: f32 where
  "F32_NAN = 0x7FC00000"

definition F32_INFINITY :: f32 where
  "F32_INFINITY = 0x7F800000"

definition F32_NEG_INFINITY :: f32 where
  "F32_NEG_INFINITY = 0xFF800000"

definition F32_MAX :: f32 where
  "F32_MAX = 0x7F7FFFFF"

definition f32_neg :: "f32 \<Rightarrow> f32" where
  "f32_neg x = x XOR 0x80000000"

lemmas f32_consts = F32_NAN_def F32_INFINITY_def F32_NEG_INFINITY_def F32_MAX_def f32_neg_def

lemma f32_not_finite [test_run]: "\<not> f32_is_finite F32_NAN" "\<not> f32_is_finite F32_INFINITY"
  by (simp_all add: f32_consts float_eval)

text \<open>Assertions on results.\<close>

definition unwraps :: "'e + 'a \<Rightarrow> ('a \<Rightarrow> bool) \<Rightarrow> bool" where
  "unwraps r holds = (case r of Inr x \<Rightarrow> holds x | Inl e \<Rightarrow> False)"

definition is_err :: "'e + 'a \<Rightarrow> bool" where
  "is_err r = (case r of Inr x \<Rightarrow> False | Inl e \<Rightarrow> True)"

lemmas [test_run] = unwraps_def is_err_def Let_def word_le_nat_alt

end
