(* ===== verification/Tests_Config.thy ===== *)
theory Tests_Config
  imports Config_Resolve Tests_Prelude
begin

text \<open>
  The unit tests of \<^verbatim>\<open>src/src/config/types.rs\<close>, \<^verbatim>\<open>src/src/config/validate.rs\<close> and
  \<^verbatim>\<open>src/src/config/resolve.rs\<close> on the model. The tests of the YAML text and of the MIDI test clock's
  interval are left out.
\<close>

section \<open>What the tests share\<close>

text \<open>The runtime of the tests: tokio's permit limit, and a clock of signed 64-bit seconds.\<close>

definition test_env :: runtime_env where
  "test_env = \<lparr>re_max_permits = 2 ^ 61 - 1, re_instant_checked_add = (\<lambda>n. n < 2 ^ 63 * 1000000000)\<rparr>"

definition test_ws_addr :: socket_addr where
  "test_ws_addr = \<lparr>sa_ip = IpV4 127 0 0 1, sa_port = 9000\<rparr>"

definition args_with_device :: "rstring option \<Rightarrow> args" where
  "args_with_device dev =
     \<lparr>ar_config = None, ar_headless = False,
      ar_calibration = \<lparr>ca_test_hz = None, ca_test_sweep = None, ca_test_midi_clock = None\<rparr>,
      ar_input = \<lparr>ia_audio_device = dev, ia_audio_list = False, ia_audio_list_format = ListText,
        ia_audio_analyse_channels = None\<rparr>,
      ar_midi = \<lparr>ma_midi_device = None, ma_midi_list = False, ma_midi_list_format = ListText\<rparr>,
      ar_network = \<lparr>na_ws_addr = Some test_ws_addr, na_max_clients = Some DEFAULT_MAX_CLIENTS,
        na_no_browser_origin = False, na_osc_addr = None\<rparr>,
      ar_vocoder = \<lparr>va_attack_ms = Some (f32_lit 24 1), va_release_ms = Some (f32_lit 96 1),
        va_freq_low = Some (f32_lit 60 1), va_freq_high = Some (f32_lit 6000 1),
        va_filter_q = Some (f32_lit 8 1)\<rparr>\<rparr>"

fun websocket_output :: "output_config list \<Rightarrow> (socket_addr \<times> nat \<times> bool) option" where
  "websocket_output [] = None"
| "websocket_output (WebSocket addr max_clients no_browser_origin # os) = Some (addr, max_clients, no_browser_origin)"
| "websocket_output (Osc addr # os) = websocket_output os"
| "websocket_output (FrameRegion slot # os) = websocket_output os"

text \<open>\<^verbatim>\<open>AppConfig::try_from\<close> where no file is found.\<close>

definition try_from :: "args \<Rightarrow> app_config_error + app_config" where
  "try_from = app_config_try_from test_env (\<lambda>text. Inl text) (\<lambda>path. None)"

definition resolve_file :: "args \<Rightarrow> file_config \<Rightarrow> app_config_error + app_config" where
  "resolve_file a file = resolve_with_outputs test_env a file []"

lemma permits_run [test_run]: "re_max_permits test_env = 2305843009213693951"
  by (simp add: test_env_def)

lemmas [test_run] = test_ws_addr_def args_with_device_def try_from_def resolve_file_def

lemma f32_values:
  "f32_lit 24 1 = 0x41C00000" "f32_lit 96 1 = 0x42C00000" "f32_lit 60 1 = 0x42700000"
  "f32_lit 6000 1 = 0x45BB8000" "f32_lit 8 1 = 0x41000000" "f32_lit 440 1 = 0x43DC0000"
  "f32_lit 1 10 = 0x3DCCCCCD" "f32_lit 120 1 = 0x42F00000" "f32_lit 12 1 = 0x41400000"
  "f32_lit 80 1 = 0x42A00000" "f32_lit 40 1 = 0x42200000" "f32_lit 16000 1 = 0x467A0000"
  "f32_lit 4 1 = 0x40800000" "f32_lit 15 1 = 0x41700000" "f32_lit 2000 1 = 0x44FA0000"
  "f32_lit 1000 1 = 0x447A0000"
  by (simp_all add: float_eval)

lemmas f32_run [test_run] = f32_values [unfolded One_nat_def]

lemma names_run [test_run]:
  "trim (lit s) = [] \<longleftrightarrow> list_all (\<lambda>c. white_space (of_char c)) s"
  "trim [] = []"
  by (auto simp: trim_empty lit_def list_all_iff)

lemma f32_signs [test_run]:
  "is_strictly_positive 0x43DC0000" "is_strictly_positive 0x3DCCCCCD" "\<not> is_strictly_positive 0"
  "\<not> is_strictly_positive F32_NAN" "\<not> is_strictly_positive F32_INFINITY"
  "\<not> is_strictly_positive F32_NEG_INFINITY" "\<not> is_strictly_positive (f32_neg (f32_lit (Suc 0) (Suc 0)))"
  "\<not> f32_lt 0x469B0A00 0x43DC0000" "\<not> f32_lt 0x469B0A00 0x3DCCCCCD" "f32_lt 0x469B0A00 F32_MAX"
  by (simp_all add: is_strictly_positive_def f32_consts float_eval)

lemma tempo_run [test_run]:
  "midi_tick_interval test_env 0 = Inl (InvalidMidiTempo 0)"
  by (simp add: midi_tick_interval_def is_strictly_positive_def float_eval)

lemma vocoder_run [test_run]:
  "validate_vocoder_fields 0x41400000 0x42A00000 0x42200000 0x467A0000 0x40800000 = Inr ()"
  "validate_vocoder_fields 0x41700000 0x42C00000 0x42700000 0x45BB8000 0x41000000 = Inr ()"
  "validate_vocoder_fields 0x41C00000 0x42C00000 0x42700000 0x45BB8000 1 = Inl (InvalidFilterQ 1)"
  by (simp_all add: validate_vocoder_fields_def is_strictly_positive_def float_eval)

lemmas [test_run] = app_config_try_from_def load_file_config_def resolve_with_outputs_def resolve_input_def
  resolve_midi_input_def normalise_channel_selection_def file_config_default_def file_network_default_def
  config_bits default_vocoder_valid DEFAULT_MAX_CLIENTS_def config_outputs_new_def validate_max_clients_def
  validate_bind_addr_def opt_filter_def white_space_def

lemma rate_values:
  "f32_lit 25000 1 = 0x46C35000" "f32_lit 22000 1 = 0x46ABE000" "f32_lit 18000 1 = 0x468CA000"
  "f32_of_nat 48000 = 0x473B8000" "f32_div 0x473B8000 (f32_lit 2 1) = 0x46BB8000"
  "f32_mul 0x473B8000 (f32_lit 45 100) = 0x46A8C000"
  "f32_le 0x46BB8000 0x46C35000" "\<not> f32_le 0x46BB8000 0x46ABE000" "f32_lt 0x46A8C000 0x46ABE000"
  "\<not> f32_le 0x46BB8000 0x468CA000" "\<not> f32_lt 0x46A8C000 0x468CA000"
  by (simp_all add: float_eval)

lemmas rate_run [test_run] = rate_values [unfolded One_nat_def] validate_vocoder_sample_rate_def

lemma validate_run [test_run]:
  "validate_vocoder_fields (f32_neg 0x3DCCCCCD) r l h q = Inl (InvalidAttackTime (f32_neg 0x3DCCCCCD))"
  "validate_vocoder_fields 0x41C00000 F32_INFINITY l h q = Inl (InvalidReleaseTime F32_INFINITY)"
  "validate_vocoder_fields 0x41C00000 0x42C00000 0 h q = Inl (InvalidFreqLow 0)"
  "validate_vocoder_fields 0x41C00000 0x42C00000 0x44FA0000 0x447A0000 q = Inl (InvalidFreqRange 0x44FA0000 0x447A0000)"
  "validate_vocoder_fields 0x41C00000 0x42C00000 0x42700000 0x45BB8000 0 = Inl (InvalidFilterQ 0)"
  by (simp_all add: validate_vocoder_fields_def is_strictly_positive_def f32_consts float_eval)

lemmas [test_run] = app_config_default_def validate_app_config_def

section \<open>Types\<close>

definition default_config_matches_constants :: bool where [test_run]:
  "default_config_matches_constants \<longleftrightarrow>
     unwraps app_config_default (\<lambda>config. case websocket_output (ac_outputs config) of
         Some (addr, max_clients, no_browser_origin) \<Rightarrow>
           max_clients = DEFAULT_MAX_CLIENTS \<and> \<not> no_browser_origin \<and>
           ac_vocoder_config config = vocoder_config_default
       | None \<Rightarrow> False)"

definition vocoder_config_default_values :: bool where [test_run]:
  "vocoder_config_default_values \<longleftrightarrow>
     (let config = vocoder_config_default in
       vc_attack_ms config = Milliseconds (f32_lit 24 1) \<and> vc_release_ms config = Milliseconds (f32_lit 96 1) \<and>
       vc_freq_low config = Hertz (f32_lit 60 1) \<and> vc_freq_high config = Hertz (f32_lit 6000 1) \<and>
       vc_filter_q config = f32_lit 8 1)"

definition config_outputs_new_rejects_empty_collection :: bool where [test_run]:
  "config_outputs_new_rejects_empty_collection \<longleftrightarrow>
     config_outputs_new [] = Inl NoOutputConfigured"

definition config_outputs_new_rejects_duplicate_transports :: bool where [test_run]:
  "config_outputs_new_rejects_duplicate_transports \<longleftrightarrow>
     (let address = \<lparr>sa_ip = IpV4 127 0 0 1, sa_port = 0\<rparr>;
          socket = WebSocket address DEFAULT_MAX_CLIENTS False
      in list_all (\<lambda>(expected_transport, duplicate_outputs).
           config_outputs_new duplicate_outputs = Inl (DuplicateOutputTransport expected_transport))
         [(WEBSOCKET_OUTPUT_NAME, [socket, socket]), (OSC_OUTPUT_NAME, [Osc address, Osc address])])"

lemma type_tests:
  default_config_matches_constants
  vocoder_config_default_values
  config_outputs_new_rejects_empty_collection
  config_outputs_new_rejects_duplicate_transports
  by (simp_all add: test_run)

section \<open>Validation\<close>

definition try_from_rejects_negative_vocoder_attack_ms :: bool where [test_run]:
  "try_from_rejects_negative_vocoder_attack_ms \<longleftrightarrow>
     is_err (try_from (ar_vocoder_update (va_attack_ms_update (\<lambda>_. Some (f32_neg (f32_lit 1 10)))) (args_with_device (Some (lit ''test'')))))"

definition try_from_rejects_non_finite_vocoder_release_ms :: bool where [test_run]:
  "try_from_rejects_non_finite_vocoder_release_ms \<longleftrightarrow>
     is_err (try_from (ar_vocoder_update (va_release_ms_update (\<lambda>_. Some F32_INFINITY)) (args_with_device (Some (lit ''test'')))))"

definition try_from_rejects_non_positive_vocoder_low_frequency :: bool where [test_run]:
  "try_from_rejects_non_positive_vocoder_low_frequency \<longleftrightarrow>
     is_err (try_from (ar_vocoder_update (va_freq_low_update (\<lambda>_. Some 0)) (args_with_device (Some (lit ''test'')))))"

definition try_from_rejects_vocoder_high_frequency_below_low_frequency :: bool where [test_run]:
  "try_from_rejects_vocoder_high_frequency_below_low_frequency \<longleftrightarrow>
     is_err (try_from
       (ar_vocoder_update (va_freq_low_update (\<lambda>_. Some (f32_lit 2000 1)))
       (ar_vocoder_update (va_freq_high_update (\<lambda>_. Some (f32_lit 1000 1))) (args_with_device (Some (lit ''test''))))))"

definition try_from_rejects_non_positive_vocoder_filter_q :: bool where [test_run]:
  "try_from_rejects_non_positive_vocoder_filter_q \<longleftrightarrow>
     is_err (try_from (ar_vocoder_update (va_filter_q_update (\<lambda>_. Some 0)) (args_with_device (Some (lit ''test'')))))"

definition direct_app_config_rejects_empty_audio_device_name :: bool where [test_run]:
  "direct_app_config_rejects_empty_audio_device_name \<longleftrightarrow>
     unwraps app_config_default (\<lambda>config.
       validate_app_config test_env (config\<lparr>ac_input := Device (lit ''  '') None\<rparr>) = Inl MissingDevice)"

definition direct_app_config_rejects_empty_channel_selection :: bool where [test_run]:
  "direct_app_config_rejects_empty_channel_selection \<longleftrightarrow>
     unwraps app_config_default (\<lambda>config.
       validate_app_config test_env (config\<lparr>ac_input := Device (lit ''Audio Device'') (Some [])\<rparr>) =
         Inl EmptyChannelSelection)"

definition direct_app_config_rejects_empty_midi_device_name :: bool where [test_run]:
  "direct_app_config_rejects_empty_midi_device_name \<longleftrightarrow>
     unwraps app_config_default (\<lambda>config.
       is_err (validate_app_config test_env (config\<lparr>ac_midi_input := Some (MidiDevice (lit ''  ''))\<rparr>)))"

definition direct_app_config_rejects_non_loopback_websocket_address :: bool where [test_run]:
  "direct_app_config_rejects_non_loopback_websocket_address \<longleftrightarrow>
     (let address = \<lparr>sa_ip = IpV4 0 0 0 0, sa_port = 8889\<rparr> in
       unwraps (config_outputs_new [WebSocket address DEFAULT_MAX_CLIENTS False]) (\<lambda>outputs.
       unwraps app_config_default (\<lambda>config.
         validate_app_config test_env (config\<lparr>ac_outputs := outputs\<rparr>) = Inl (NonLoopbackBindAddress address))))"

definition try_from_rejects_non_loopback_bind_address :: bool where [test_run]:
  "try_from_rejects_non_loopback_bind_address \<longleftrightarrow>
     (case try_from (ar_network_update (na_ws_addr_update (\<lambda>_. Some \<lparr>sa_ip = IpV4 0 0 0 0, sa_port = 8889\<rparr>)) (args_with_device (Some (lit ''test'')))) of
       Inl (NonLoopbackBindAddress address) \<Rightarrow> True | _ \<Rightarrow> False)"

definition validate_vocoder_sample_rate_rejects_freq_above_nyquist :: bool where [test_run]:
  "validate_vocoder_sample_rate_rejects_freq_above_nyquist \<longleftrightarrow>
     (case validate_vocoder_sample_rate (Hertz (f32_lit 25000 1)) 48000 of
       Inl (InvalidFreqAboveNyquist sample_rate freq_high nyquist_hz) \<Rightarrow> True | _ \<Rightarrow> False)"

definition validate_vocoder_sample_rate_rejects_freq_above_safety_ceiling :: bool where [test_run]:
  "validate_vocoder_sample_rate_rejects_freq_above_safety_ceiling \<longleftrightarrow>
     (case validate_vocoder_sample_rate (Hertz (f32_lit 22000 1)) 48000 of
       Inl (InvalidFreqAboveSafetyCeiling sample_rate freq_high max_safe_hz) \<Rightarrow> True | _ \<Rightarrow> False)"

definition validate_vocoder_sample_rate_accepts_valid_frequencies :: bool where [test_run]:
  "validate_vocoder_sample_rate_accepts_valid_frequencies \<longleftrightarrow>
     validate_vocoder_sample_rate (Hertz (f32_lit 18000 1)) 48000 = Inr ()"

lemma validation_tests:
  try_from_rejects_negative_vocoder_attack_ms
  try_from_rejects_non_finite_vocoder_release_ms
  try_from_rejects_non_positive_vocoder_low_frequency
  try_from_rejects_vocoder_high_frequency_below_low_frequency
  try_from_rejects_non_positive_vocoder_filter_q
  direct_app_config_rejects_empty_audio_device_name
  direct_app_config_rejects_empty_channel_selection
  direct_app_config_rejects_empty_midi_device_name
  direct_app_config_rejects_non_loopback_websocket_address
  try_from_rejects_non_loopback_bind_address
  validate_vocoder_sample_rate_rejects_freq_above_nyquist
  validate_vocoder_sample_rate_rejects_freq_above_safety_ceiling
  validate_vocoder_sample_rate_accepts_valid_frequencies
  by (simp_all add: test_run)

section \<open>Resolution\<close>

definition try_from_requires_device_in_normal_mode :: bool where [test_run]:
  "try_from_requires_device_in_normal_mode \<longleftrightarrow>
     try_from (args_with_device None) = Inl MissingDevice"

definition try_from_passes_device_index :: bool where [test_run]:
  "try_from_passes_device_index \<longleftrightarrow>
     unwraps (try_from (args_with_device (Some (lit ''Focusrite 2i2'')))) (\<lambda>config.
       case ac_input config of Device name channels \<Rightarrow> name = lit ''Focusrite 2i2'' | _ \<Rightarrow> False)"

definition try_from_allows_no_device_in_calibration_mode :: bool where [test_run]:
  "try_from_allows_no_device_in_calibration_mode \<longleftrightarrow>
     unwraps (try_from (ar_calibration_update (ca_test_hz_update (\<lambda>_. Some (f32_lit 440 1))) (args_with_device None)))
       (\<lambda>config. ac_input config = Calibration (FixedTone (f32_lit 440 1)))"

definition try_from_resolves_test_sweep_to_calibration_input :: bool where [test_run]:
  "try_from_resolves_test_sweep_to_calibration_input \<longleftrightarrow>
     unwraps (try_from (ar_calibration_update (ca_test_sweep_update (\<lambda>_. Some (f32_lit 1 10))) (args_with_device None)))
       (\<lambda>config. ac_input config = Calibration (Sweep (f32_lit 1 10)))"

definition try_from_rejects_non_finite_calibration_values :: bool where [test_run]:
  "try_from_rejects_non_finite_calibration_values \<longleftrightarrow>
     list_all (\<lambda>value.
       is_err (try_from (ar_calibration_update (ca_test_hz_update (\<lambda>_. Some value)) (args_with_device None))) \<and>
       is_err (try_from (ar_calibration_update (ca_test_sweep_update (\<lambda>_. Some value)) (args_with_device None))))
       [F32_NAN, F32_INFINITY, F32_NEG_INFINITY]"

definition try_from_rejects_calibration_values_outside_the_generator_range :: bool where [test_run]:
  "try_from_rejects_calibration_values_outside_the_generator_range \<longleftrightarrow>
     list_all (\<lambda>value.
       is_err (try_from (ar_calibration_update (ca_test_hz_update (\<lambda>_. Some value)) (args_with_device None))) \<and>
       is_err (try_from (ar_calibration_update (ca_test_sweep_update (\<lambda>_. Some value)) (args_with_device None))))
       [0, f32_neg (f32_lit 1 1), F32_MAX]"

definition try_from_resolves_midi_device :: bool where [test_run]:
  "try_from_resolves_midi_device \<longleftrightarrow>
     unwraps (try_from (ar_midi_update (ma_midi_device_update (\<lambda>_. Some (lit ''Loopback''))) (args_with_device (Some (lit ''test'')))))
       (\<lambda>config. ac_midi_input config = Some (MidiDevice (lit ''Loopback'')))"

definition try_from_rejects_empty_midi_device_string :: bool where [test_run]:
  "try_from_rejects_empty_midi_device_string \<longleftrightarrow>
     unwraps (try_from (ar_midi_update (ma_midi_device_update (\<lambda>_. Some [])) (args_with_device (Some (lit ''test'')))))
       (\<lambda>config. ac_midi_input config = None)"

definition try_from_leaves_midi_input_none_when_absent :: bool where [test_run]:
  "try_from_leaves_midi_input_none_when_absent \<longleftrightarrow>
     unwraps (try_from (args_with_device (Some (lit ''test'')))) (\<lambda>config. ac_midi_input config = None)"

definition try_from_rejects_non_positive_midi_tempo :: bool where [test_run]:
  "try_from_rejects_non_positive_midi_tempo \<longleftrightarrow>
     try_from (ar_calibration_update (ca_test_midi_clock_update (\<lambda>_. Some 0)) (args_with_device (Some (lit ''test'')))) = Inl (InvalidMidiTempo 0)"

definition try_from_forwards_vocoder_args :: bool where [test_run]:
  "try_from_forwards_vocoder_args \<longleftrightarrow>
     unwraps (try_from
         (ar_vocoder_update (va_attack_ms_update (\<lambda>_. Some (f32_lit 12 1)))
         (ar_vocoder_update (va_release_ms_update (\<lambda>_. Some (f32_lit 80 1)))
         (ar_vocoder_update (va_freq_low_update (\<lambda>_. Some (f32_lit 40 1)))
         (ar_vocoder_update (va_freq_high_update (\<lambda>_. Some (f32_lit 16000 1)))
         (ar_vocoder_update (va_filter_q_update (\<lambda>_. Some (f32_lit 4 1))) (args_with_device (Some (lit ''test'')))))))))
       (\<lambda>config. ac_vocoder_config config =
         \<lparr>vc_attack_ms = Milliseconds (f32_lit 12 1), vc_release_ms = Milliseconds (f32_lit 80 1),
          vc_freq_low = Hertz (f32_lit 40 1), vc_freq_high = Hertz (f32_lit 16000 1),
          vc_filter_q = f32_lit 4 1\<rparr>)"

definition try_from_default_vocoder_args_match_default_config :: bool where [test_run]:
  "try_from_default_vocoder_args_match_default_config \<longleftrightarrow>
     unwraps (try_from (args_with_device (Some (lit ''test'')))) (\<lambda>config. ac_vocoder_config config = vocoder_config_default)"

definition try_from_forwards_max_clients :: bool where [test_run]:
  "try_from_forwards_max_clients \<longleftrightarrow>
     unwraps (try_from (ar_network_update (na_max_clients_update (\<lambda>_. Some 16)) (args_with_device (Some (lit ''test'')))))
       (\<lambda>config. case websocket_output (ac_outputs config) of
         Some (addr, max_clients, no_browser_origin) \<Rightarrow> max_clients = 16 | None \<Rightarrow> False)"

definition try_from_rejects_zero_max_clients :: bool where [test_run]:
  "try_from_rejects_zero_max_clients \<longleftrightarrow>
     try_from (ar_network_update (na_max_clients_update (\<lambda>_. Some 0)) (args_with_device (Some (lit ''test'')))) = Inl InvalidMaxClients"

definition try_from_rejects_max_clients_above_the_runtime_limit :: bool where [test_run]:
  "try_from_rejects_max_clients_above_the_runtime_limit \<longleftrightarrow>
     try_from (ar_network_update (na_max_clients_update (\<lambda>_. Some (re_max_permits test_env + 1))) (args_with_device (Some (lit ''test'')))) = Inl InvalidMaxClients"

definition try_from_rejects_filter_q_that_produces_non_finite_coefficients :: bool where [test_run]:
  "try_from_rejects_filter_q_that_produces_non_finite_coefficients \<longleftrightarrow>
     (case try_from (ar_vocoder_update (va_filter_q_update (\<lambda>_. Some 1)) (args_with_device (Some (lit ''test'')))) of
       Inl (InvalidFilterQ q) \<Rightarrow> True | _ \<Rightarrow> False)"

definition try_from_rejects_empty_channel_selection :: bool where [test_run]:
  "try_from_rejects_empty_channel_selection \<longleftrightarrow>
     try_from (ar_input_update (ia_audio_analyse_channels_update (\<lambda>_. Some [])) (args_with_device (Some (lit ''test'')))) = Inl EmptyChannelSelection"

definition device_channels :: "app_config \<Rightarrow> u16 list option option" where [test_run]:
  "device_channels config = (case ac_input config of
       Device name analyse_channels \<Rightarrow> Some analyse_channels | Calibration signal \<Rightarrow> None)"

definition try_from_normalises_channel_selection :: bool where [test_run]:
  "try_from_normalises_channel_selection \<longleftrightarrow>
     unwraps (try_from (ar_input_update (ia_audio_analyse_channels_update (\<lambda>_. Some [3, 1, 1, 0])) (args_with_device (Some (lit ''test'')))))
       (\<lambda>config. device_channels config = Some (Some [0, 1, 3]))"

definition try_from_defaults_channel_selection_to_none :: bool where [test_run]:
  "try_from_defaults_channel_selection_to_none \<longleftrightarrow>
     unwraps (try_from (args_with_device (Some (lit ''test'')))) (\<lambda>config. device_channels config = Some None)"

definition calibration_mode_drops_channel_selection :: bool where [test_run]:
  "calibration_mode_drops_channel_selection \<longleftrightarrow>
     unwraps (try_from (ar_calibration_update (ca_test_hz_update (\<lambda>_. Some (f32_lit 440 1)))
         (ar_input_update (ia_audio_analyse_channels_update (\<lambda>_. Some [0, 3])) (args_with_device None))))
       (\<lambda>config. ac_input config = Calibration (FixedTone (f32_lit 440 1)))"

definition calibration_mode_still_rejects_empty_channel_selection :: bool where [test_run]:
  "calibration_mode_still_rejects_empty_channel_selection \<longleftrightarrow>
     try_from (ar_calibration_update (ca_test_hz_update (\<lambda>_. Some (f32_lit 440 1)))
         (ar_input_update (ia_audio_analyse_channels_update (\<lambda>_. Some [])) (args_with_device None))) = Inl EmptyChannelSelection"

definition file_config_max_clients_overrides_default_when_cli_absent :: bool where [test_run]:
  "file_config_max_clients_overrides_default_when_cli_absent \<longleftrightarrow>
     unwraps (resolve_file (ar_network_update (na_max_clients_update (\<lambda>_. None)) (args_with_device (Some (lit ''test''))))
         (fc_network_update (fn_max_clients_update (\<lambda>_. Some 4)) file_config_default))
       (\<lambda>config. case websocket_output (ac_outputs config) of
         Some (addr, max_clients, no_browser_origin) \<Rightarrow> max_clients = 4 | None \<Rightarrow> False)"

definition file_config_vocoder_attack_ms_overrides_default_when_cli_absent :: bool where [test_run]:
  "file_config_vocoder_attack_ms_overrides_default_when_cli_absent \<longleftrightarrow>
     unwraps (resolve_file (ar_vocoder_update (va_attack_ms_update (\<lambda>_. None)) (args_with_device (Some (lit ''test''))))
         (fc_vocoder_update (fv_attack_ms_update (\<lambda>_. Some (f32_lit 15 1))) file_config_default))
       (\<lambda>config. vc_attack_ms (ac_vocoder_config config) = Milliseconds (f32_lit 15 1))"

definition file_config_device_overrides_none_when_cli_absent :: bool where [test_run]:
  "file_config_device_overrides_none_when_cli_absent \<longleftrightarrow>
     unwraps (resolve_file (args_with_device None)
         (fc_audio_update (fa_device_name_match_update (\<lambda>_. Some (lit ''Focusrite 2i2''))) file_config_default))
       (\<lambda>config. case ac_input config of Device name channels \<Rightarrow> name = lit ''Focusrite 2i2'' | _ \<Rightarrow> False)"

definition file_config_invalid_max_clients_is_rejected :: bool where [test_run]:
  "file_config_invalid_max_clients_is_rejected \<longleftrightarrow>
     resolve_file (ar_network_update (na_max_clients_update (\<lambda>_. None)) (args_with_device (Some (lit ''test''))))
       (fc_network_update (fn_max_clients_update (\<lambda>_. Some 0)) file_config_default) = Inl InvalidMaxClients"

definition cli_no_browser_origin_flag_is_forwarded :: bool where [test_run]:
  "cli_no_browser_origin_flag_is_forwarded \<longleftrightarrow>
     unwraps (resolve_file (ar_network_update (na_no_browser_origin_update (\<lambda>_. True)) (args_with_device (Some (lit ''test'')))) file_config_default)
       (\<lambda>config. case websocket_output (ac_outputs config) of
         Some (addr, max_clients, no_browser_origin) \<Rightarrow> no_browser_origin | None \<Rightarrow> False)"

definition try_from_rejects_empty_device_string :: bool where [test_run]:
  "try_from_rejects_empty_device_string \<longleftrightarrow>
     try_from (args_with_device (Some [])) = Inl MissingDevice"

definition file_config_rejects_empty_device_string :: bool where [test_run]:
  "file_config_rejects_empty_device_string \<longleftrightarrow>
     resolve_file (args_with_device None) (fc_audio_update (fa_device_name_match_update (\<lambda>_. Some [])) file_config_default) = Inl MissingDevice"

definition file_config_midi_device_used_when_cli_absent :: bool where [test_run]:
  "file_config_midi_device_used_when_cli_absent \<longleftrightarrow>
     unwraps (resolve_file (args_with_device (Some (lit ''test''))) (fc_midi_update (fm_device_name_match_update (\<lambda>_. Some (lit ''Loopback''))) file_config_default))
       (\<lambda>config. ac_midi_input config = Some (MidiDevice (lit ''Loopback'')))"

definition cli_midi_device_overrides_file_config :: bool where [test_run]:
  "cli_midi_device_overrides_file_config \<longleftrightarrow>
     unwraps (resolve_file (ar_midi_update (ma_midi_device_update (\<lambda>_. Some (lit ''Hardware Port''))) (args_with_device (Some (lit ''test''))))
         (fc_midi_update (fm_device_name_match_update (\<lambda>_. Some (lit ''Loopback''))) file_config_default))
       (\<lambda>config. ac_midi_input config = Some (MidiDevice (lit ''Hardware Port'')))"

definition empty_file_config_midi_device_resolves_to_none :: bool where [test_run]:
  "empty_file_config_midi_device_resolves_to_none \<longleftrightarrow>
     unwraps (resolve_file (args_with_device (Some (lit ''test''))) (fc_midi_update (fm_device_name_match_update (\<lambda>_. Some [])) file_config_default))
       (\<lambda>config. ac_midi_input config = None)"

definition explicit_config_path_that_does_not_exist_is_an_error :: bool where [test_run]:
  "explicit_config_path_that_does_not_exist_is_an_error \<longleftrightarrow>
     (case try_from ((args_with_device (Some (lit ''test'')))\<lparr>ar_config := Some (lit ''a-path-no-real-machine-will-have.yaml'')\<rparr>) of
       Inl (ConfigFileNotFound path) \<Rightarrow> True | _ \<Rightarrow> False)"

definition try_from_rejects_when_no_output_configured :: bool where [test_run]:
  "try_from_rejects_when_no_output_configured \<longleftrightarrow>
     try_from (ar_network_update (na_ws_addr_update (\<lambda>_. None)) (ar_network_update (na_osc_addr_update (\<lambda>_. None)) (args_with_device (Some (lit ''test''))))) = Inl NoOutputConfigured"

definition try_from_builds_osc_only_output_when_ws_addr_absent :: bool where [test_run]:
  "try_from_builds_osc_only_output_when_ws_addr_absent \<longleftrightarrow>
     unwraps (try_from (ar_network_update (na_ws_addr_update (\<lambda>_. None)) (ar_network_update (na_osc_addr_update (\<lambda>_. Some \<lparr>sa_ip = IpV4 127 0 0 1, sa_port = 7000\<rparr>)) (args_with_device (Some (lit ''test''))))))
       (\<lambda>config. case ac_outputs config of [Osc addr] \<Rightarrow> True | _ \<Rightarrow> False)"

definition try_from_builds_both_outputs_when_both_addrs_present :: bool where [test_run]:
  "try_from_builds_both_outputs_when_both_addrs_present \<longleftrightarrow>
     unwraps (try_from (ar_network_update (na_osc_addr_update (\<lambda>_. Some \<lparr>sa_ip = IpV4 127 0 0 1, sa_port = 7000\<rparr>)) (args_with_device (Some (lit ''test'')))))
       (\<lambda>config. length (ac_outputs config) = 2 \<and>
         list_ex (\<lambda>o'. case o' of WebSocket addr max_clients no_browser_origin \<Rightarrow> True | _ \<Rightarrow> False) (ac_outputs config) \<and>
         list_ex (\<lambda>o'. case o' of Osc addr \<Rightarrow> True | _ \<Rightarrow> False) (ac_outputs config))"

definition resolve_with_outputs_appends_the_extra_outputs :: bool where [test_run]:
  "resolve_with_outputs_appends_the_extra_outputs \<longleftrightarrow>
     (let extra = Osc \<lparr>sa_ip = IpV4 127 0 0 1, sa_port = 7000\<rparr> in
       unwraps (resolve_with_outputs test_env (args_with_device (Some (lit ''test''))) file_config_default [extra])
         (\<lambda>config. length (ac_outputs config) = 2 \<and> ac_outputs config ! 1 = extra))"

lemma resolution_tests:
  try_from_requires_device_in_normal_mode
  try_from_passes_device_index
  try_from_allows_no_device_in_calibration_mode
  try_from_resolves_test_sweep_to_calibration_input
  try_from_rejects_non_finite_calibration_values
  try_from_rejects_calibration_values_outside_the_generator_range
  try_from_resolves_midi_device
  try_from_rejects_empty_midi_device_string
  try_from_leaves_midi_input_none_when_absent
  try_from_rejects_non_positive_midi_tempo
  try_from_forwards_vocoder_args
  try_from_default_vocoder_args_match_default_config
  try_from_forwards_max_clients
  try_from_rejects_zero_max_clients
  try_from_rejects_max_clients_above_the_runtime_limit
  try_from_rejects_filter_q_that_produces_non_finite_coefficients
  try_from_rejects_empty_channel_selection
  try_from_normalises_channel_selection
  try_from_defaults_channel_selection_to_none
  calibration_mode_drops_channel_selection
  calibration_mode_still_rejects_empty_channel_selection
  file_config_max_clients_overrides_default_when_cli_absent
  file_config_vocoder_attack_ms_overrides_default_when_cli_absent
  file_config_device_overrides_none_when_cli_absent
  file_config_invalid_max_clients_is_rejected
  cli_no_browser_origin_flag_is_forwarded
  try_from_rejects_empty_device_string
  file_config_rejects_empty_device_string
  file_config_midi_device_used_when_cli_absent
  cli_midi_device_overrides_file_config
  empty_file_config_midi_device_resolves_to_none
  explicit_config_path_that_does_not_exist_is_an_error
  try_from_rejects_when_no_output_configured
  try_from_builds_osc_only_output_when_ws_addr_absent
  try_from_builds_both_outputs_when_both_addrs_present
  resolve_with_outputs_appends_the_extra_outputs
  by (simp_all add: test_run)

end
