(* ===== verification/Tests_Xpc.thy ===== *)
theory Tests_Xpc
  imports Tests_Config Xpc_Service
begin

text \<open>
  The unit tests of \<^verbatim>\<open>src/src/xpc/protocol.rs\<close> on the model, over dictionaries that the model's builders
  make. The tests that depend on the text of a YAML document are left out.
\<close>

section \<open>What the tests share\<close>

definition TONE_HZ :: f64 where
  "TONE_HZ = f64_lit 440 1"

definition SWEEP_RATE_HZ :: f64 where
  "SWEEP_RATE_HZ = f64_lit 1 2"

definition CLOCK_BPM :: f64 where
  "CLOCK_BPM = f64_lit 120 1"

definition TEST_DEVICE :: rstring where
  "TEST_DEVICE = lit ''Duet 3''"

definition TEST_MIDI_PORT :: rstring where
  "TEST_MIDI_PORT = lit ''Loopback''"

definition set_f64 :: "string \<Rightarrow> f64 \<Rightarrow> dictionary \<Rightarrow> dictionary" where [test_run]:
  "set_f64 key x = dict_set key (XDouble x)"

definition test_message :: "string \<Rightarrow> dictionary" where [test_run]:
  "test_message request_type = set_str KEY_TYPE (lit request_type) (set_i64 KEY_VERSION CONTRACT_VERSION [])"

definition test_dictionary :: "(string \<times> rstring) list \<Rightarrow> dictionary" where [test_run]:
  "test_dictionary entries = fold (\<lambda>(key, value). set_str key value) entries []"

definition tone_source :: dictionary where [test_run]:
  "tone_source = set_f64 KEY_HZ TONE_HZ (set_str KEY_KIND (lit SOURCE_TEST_TONE) [])"

definition start_with :: "dictionary \<Rightarrow> dictionary" where [test_run]:
  "start_with source = dict_set KEY_SOURCE (XDict source) (test_message TYPE_START)"

definition assert_invalid :: "dictionary \<Rightarrow> bool" where [test_run]:
  "assert_invalid d = (case parse_request d of Inl (InvalidRequest m) \<Rightarrow> True | _ \<Rightarrow> False)"

definition test_start_request :: "source_request \<Rightarrow> start_request" where [test_run]:
  "test_start_request source = \<lparr>sr_source = source, sr_midi = None, sr_config_yaml = None\<rparr>"

lemma c_string_lit [test_run]: "0 \<notin> set s \<Longrightarrow> c_string s = s"
  by (induction s) (auto simp: c_string_def)

lemma lit_no_NUL [test_run]: "0 \<notin> set (lit s) \<longleftrightarrow> CHR 0x00 \<notin> set s"
proof -
  have "(of_char c :: nat) = 0 \<longleftrightarrow> c = CHR 0x00" for c
    using of_char_eq_iff [of c "CHR 0x00", where ?'a = nat] by simp
  then show ?thesis by (auto simp: lit_def image_iff)
qed

lemmas [test_run] = parse_request_def parse_start_def parse_source_def parse_midi_def parse_channels_def
  dict_simps dict_set_def set_str_def set_i64_def TEST_DEVICE_def TEST_MIDI_PORT_def is_not_def invalid_def
  array_get_i64_def u16_try_from_def and_then_def CONTRACT_VERSION_def

section \<open>Parsing\<close>

definition requests_without_fields_parse :: bool where [test_run]:
  "requests_without_fields_parse \<longleftrightarrow>
     parse_request (test_message TYPE_HELLO) = Inr Hello \<and>
     parse_request (test_message TYPE_LIST_AUDIO_DEVICES) = Inr ListAudioDevices \<and>
     parse_request (test_message TYPE_LIST_MIDI_DEVICES) = Inr ListMidiDevices \<and>
     parse_request (test_message TYPE_STOP) = Inr Stop"

definition a_device_start_parses_with_its_channels_midi_and_config :: bool where [test_run]:
  "a_device_start_parses_with_its_channels_midi_and_config \<longleftrightarrow>
     (let channels = XArray [XInt 3, XInt 1];
          source = dict_set KEY_CHANNELS channels
            (set_str KEY_DEVICE_NAME TEST_DEVICE (set_str KEY_KIND (lit SOURCE_DEVICE) []));
          midi = test_dictionary [(KEY_KIND, lit MIDI_DEVICE), (KEY_DEVICE_NAME, TEST_MIDI_PORT)];
          builder = set_str KEY_CONFIG_YAML (lit ''vocoder: {}'') (dict_set KEY_MIDI (XDict midi) (start_with source))
      in parse_request builder = Inr (Start
           \<lparr>sr_source = SourceDevice TEST_DEVICE (Some [3, 1]),
            sr_midi = Some (MidiRequestDevice TEST_MIDI_PORT),
            sr_config_yaml = Some (lit ''vocoder: {}'')\<rparr>))"

definition a_device_start_without_channels_analyses_every_channel :: bool where [test_run]:
  "a_device_start_without_channels_analyses_every_channel \<longleftrightarrow>
     (let source = test_dictionary [(KEY_KIND, lit SOURCE_DEVICE), (KEY_DEVICE_NAME, TEST_DEVICE)]
      in parse_request (start_with source) = Inr (Start (test_start_request (SourceDevice TEST_DEVICE None))))"

definition calibration_sources_and_the_test_clock_parse :: bool where [test_run]:
  "calibration_sources_and_the_test_clock_parse \<longleftrightarrow>
     (let clock = set_f64 KEY_BPM CLOCK_BPM (set_str KEY_KIND (lit MIDI_TEST_CLOCK) []);
          sweep = set_f64 KEY_RATE_HZ SWEEP_RATE_HZ (set_str KEY_KIND (lit SOURCE_TEST_SWEEP) [])
      in parse_request (dict_set KEY_MIDI (XDict clock) (start_with tone_source)) = Inr (Start
           \<lparr>sr_source = TestTone (f32_of_f64 TONE_HZ), sr_midi = Some (MidiRequestClock (f32_of_f64 CLOCK_BPM)),
            sr_config_yaml = None\<rparr>) \<and>
         parse_request (start_with sweep) = Inr (Start (test_start_request (TestSweep (f32_of_f64 SWEEP_RATE_HZ)))))"

definition another_contract_version_is_a_mismatch_for_every_request :: bool where [test_run]:
  "another_contract_version_is_a_mismatch_for_every_request \<longleftrightarrow>
     list_all (\<lambda>request_type.
       parse_request (set_i64 KEY_VERSION (CONTRACT_VERSION + 1) (test_message request_type)) =
         Inl (ContractMismatch (CONTRACT_VERSION + 1) CONTRACT_VERSION))
       [TYPE_HELLO, TYPE_START]"

definition a_missing_or_mistyped_version_or_type_is_invalid :: bool where [test_run]:
  "a_missing_or_mistyped_version_or_type_is_invalid \<longleftrightarrow>
     assert_invalid (set_str KEY_TYPE (lit TYPE_HELLO) []) \<and>
     assert_invalid (set_str KEY_VERSION (lit ''1'') (test_message TYPE_HELLO)) \<and>
     assert_invalid (set_i64 KEY_VERSION CONTRACT_VERSION []) \<and>
     assert_invalid (test_message ''restart'')"

definition a_malformed_source_is_invalid :: bool where [test_run]:
  "a_malformed_source_is_invalid \<longleftrightarrow>
     assert_invalid (test_message TYPE_START) \<and>
     assert_invalid (set_str KEY_SOURCE (lit SOURCE_DEVICE) (test_message TYPE_START)) \<and>
     assert_invalid (start_with (test_dictionary [(KEY_KIND, lit ''microphone'')])) \<and>
     assert_invalid (start_with (test_dictionary [(KEY_KIND, lit SOURCE_DEVICE)])) \<and>
     assert_invalid (start_with (test_dictionary [(KEY_KIND, lit SOURCE_TEST_TONE), (KEY_HZ, lit ''440'')]))"

definition channels_must_be_an_array_of_valid_indices :: bool where [test_run]:
  "channels_must_be_an_array_of_valid_indices \<longleftrightarrow>
     (let source = set_str KEY_DEVICE_NAME TEST_DEVICE (set_str KEY_KIND (lit SOURCE_DEVICE) []);
          strings = XArray [XDict (test_dictionary [(KEY_NAME, lit ''left'')])]
      in list_all (\<lambda>bad. assert_invalid (start_with (dict_set KEY_CHANNELS (XArray [XInt bad]) source))) [-1, 65536] \<and>
         assert_invalid (start_with (dict_set KEY_CHANNELS strings source)) \<and>
         assert_invalid (start_with (set_i64 KEY_CHANNELS 0 source)))"

definition malformed_midi_and_config_are_invalid :: bool where [test_run]:
  "malformed_midi_and_config_are_invalid \<longleftrightarrow>
     assert_invalid (set_str KEY_MIDI (lit MIDI_DEVICE) (start_with tone_source)) \<and>
     assert_invalid (dict_set KEY_MIDI (XDict (test_dictionary [(KEY_KIND, lit ''network'')])) (start_with tone_source)) \<and>
     assert_invalid (set_i64 KEY_CONFIG_YAML 1 (start_with tone_source))"

definition link_error_codes_are_the_variant_names :: bool where [test_run]:
  "link_error_codes_are_the_variant_names \<longleftrightarrow>
     link_error_code (ContractMismatch 2 1) = ''ContractMismatch'' \<and>
     link_error_code (InvalidRequest []) = ''InvalidRequest'' \<and>
     link_error_code AlreadyRunning = ''AlreadyRunning''"

lemma request_tests:
  requests_without_fields_parse
  a_device_start_parses_with_its_channels_midi_and_config
  a_device_start_without_channels_analyses_every_channel
  calibration_sources_and_the_test_clock_parse
  another_contract_version_is_a_mismatch_for_every_request
  a_missing_or_mistyped_version_or_type_is_invalid
  a_malformed_source_is_invalid
  channels_must_be_an_array_of_valid_indices
  malformed_midi_and_config_are_invalid
  link_error_codes_are_the_variant_names
  by (simp_all add: test_run)

section \<open>Resolution\<close>

definition a_tone_resolves_to_calibration_with_only_the_frame_region :: bool where [test_run]:
  "a_tone_resolves_to_calibration_with_only_the_frame_region \<longleftrightarrow>
     (let slot = 0 in
      unwraps (to_app_config test_env (\<lambda>text. Inl text) (test_start_request (TestTone (f32_of_f64 TONE_HZ))) slot)
        (\<lambda>config. ac_input config = Calibration (FixedTone (f32_of_f64 TONE_HZ)) \<and> ac_midi_input config = None \<and>
           ac_outputs config = [FrameRegion slot]))"

definition a_device_resolves_with_sorted_channels :: bool where [test_run]:
  "a_device_resolves_with_sorted_channels \<longleftrightarrow>
     unwraps (to_app_config test_env (\<lambda>text. Inl text) (test_start_request (SourceDevice TEST_DEVICE (Some [3, 1, 3]))) 0)
       (\<lambda>config. ac_input config = Device TEST_DEVICE (Some [1, 3]))"

lemma TONE_HZ_single [test_run]: "f32_of_f64 TONE_HZ = 0x43DC0000"
  by (simp add: TONE_HZ_def float_eval)

lemmas [test_run] = to_app_config_def start_args_def

lemma start_tests:
  a_tone_resolves_to_calibration_with_only_the_frame_region
  a_device_resolves_with_sorted_channels
  by (simp_all add: test_run)

end
