(* ===== verification/Tests_Inputs.thy ===== *)
theory Tests_Inputs
  imports Logging Tests_Prelude
begin

text \<open>
  The unit tests of \<^verbatim>\<open>src/src/managers/audio.rs\<close> and \<^verbatim>\<open>src/src/managers/midi.rs\<close> on the model, with the
  ring \<open>ring_ops\<close>. The tests of serialised JSON, of the test clock's interval and of a thread's end are
  left out.
\<close>

section \<open>Audio input\<close>

definition check_samples_for_ms :: "u32 \<Rightarrow> u16 \<Rightarrow> u32 \<Rightarrow> nat \<Rightarrow> bool" where [test_run]:
  "check_samples_for_ms sample_rate channels ms expected \<longleftrightarrow>
     samples_for_ms \<lparr>sp_channels = channels, sp_sample_rate = sample_rate\<rparr> ms = expected"

definition make_sink :: "nat \<Rightarrow> channel_mode \<Rightarrow> (nat \<times> f32 list) stream_sink" where [test_run]:
  "make_sink capacity mode = \<lparr>ss_tx = (capacity, []), ss_mode = mode\<rparr>"

definition drain :: "(nat \<times> f32 list) stream_sink \<Rightarrow> f32 list" where [test_run]:
  "drain sink = snd (ss_tx sink)"

definition pushes ::
  "(nat \<times> f32 list) stream_sink \<Rightarrow> f32 list \<Rightarrow> nat \<Rightarrow> ((nat \<times> f32 list) stream_sink \<Rightarrow> bool \<Rightarrow> bool) \<Rightarrow> bool"
  where [test_run]:
  "pushes sink data hw_channels holds = (case stream_sink_push ring_ops sink data hw_channels of
       Some (sink', dropped) \<Rightarrow> holds sink' dropped
     | None \<Rightarrow> False)"

lemmas [test_run] = samples_for_ms_def frame_aligned_samples_for_ms_def div_ceil_def create_audio_buffer_pair_def
  next_power_of_two_def stream_sink_push_def ring_ops_def chunks_exact.simps
  list_devices_text_def device_line_def lit_def show_nat.simps get_device_def trim_def

definition samples_for_ms_zero_duration_returns_zero :: bool where [test_run]:
  "samples_for_ms_zero_duration_returns_zero \<longleftrightarrow>
     check_samples_for_ms 48000 2 0 0 \<and>
     check_samples_for_ms 192000 8 0 0"

definition samples_for_ms_one_second_is_exact :: bool where [test_run]:
  "samples_for_ms_one_second_is_exact \<longleftrightarrow>
     check_samples_for_ms 44100 2 1000 88200 \<and>
     check_samples_for_ms 48000 2 1000 96000"

definition samples_for_ms_mono :: bool where [test_run]:
  "samples_for_ms_mono \<longleftrightarrow>
     check_samples_for_ms 48000 1 10 480 \<and>
     check_samples_for_ms 44100 1 10 441 \<and>
     check_samples_for_ms 96000 1 1 96"

definition samples_for_ms_stereo_standard_rates :: bool where [test_run]:
  "samples_for_ms_stereo_standard_rates \<longleftrightarrow>
     check_samples_for_ms 44100 2 10 882 \<and>
     check_samples_for_ms 48000 2 10 960 \<and>
     check_samples_for_ms 88200 2 10 1764 \<and>
     check_samples_for_ms 96000 2 10 1920 \<and>
     check_samples_for_ms 176400 2 10 3528 \<and>
     check_samples_for_ms 192000 2 10 3840"

definition samples_for_ms_multichannel :: bool where [test_run]:
  "samples_for_ms_multichannel \<longleftrightarrow>
     check_samples_for_ms 96000 8 1 768 \<and>
     check_samples_for_ms 48000 6 10 2880"

definition text_device_listing_preserves_supported_unsupported_and_unavailable_output :: bool where [test_run]:
  "text_device_listing_preserves_supported_unsupported_and_unavailable_output \<longleftrightarrow>
     list_devices_text
       [\<lparr>di_index = 0, di_name = lit ''Float device'', di_sample_rate = Some 48000, di_channels = Some 2,
         di_sample_format = Some ''F32'', di_supported = True\<rparr>,
        \<lparr>di_index = 1, di_name = lit ''Integer device'', di_sample_rate = Some 44100, di_channels = Some 2,
         di_sample_format = Some ''I16'', di_supported = False\<rparr>,
        \<lparr>di_index = 2, di_name = lit ''Unknown Device'', di_sample_rate = None, di_channels = None,
         di_sample_format = None, di_supported = False\<rparr>] =
       [(LInfo, lit ''[0] Float device (48000Hz, 2ch, F32) ''),
        (LInfo, lit ''[1] Integer device (44100Hz, 2ch, I16) * No hardware support (32-bit required)''),
        (LWarn, lit ''[2] Unknown Device (Configuration unavailable)'')]"

definition empty_text_device_listing_reports_no_devices :: bool where [test_run]:
  "empty_text_device_listing_reports_no_devices \<longleftrightarrow>
     list_devices_text [] =
       [(LWarn, lit ''[*] No input devices detected. Check system permissions'')]"

definition samples_for_ms_truncates_fractional_samples :: bool where [test_run]:
  "samples_for_ms_truncates_fractional_samples \<longleftrightarrow>
     check_samples_for_ms 44100 2 1 88 \<and>
     check_samples_for_ms 22050 1 3 66 \<and>
     check_samples_for_ms 88200 2 1 176 \<and>
     check_samples_for_ms 176400 2 1 352"

definition frame_aligned_samples_for_ms_rounds_up_to_whole_frames :: bool where [test_run]:
  "frame_aligned_samples_for_ms_rounds_up_to_whole_frames \<longleftrightarrow>
     list_all (\<lambda>(sample_rate, channels, ms, expected).
       frame_aligned_samples_for_ms \<lparr>sp_channels = channels, sp_sample_rate = sample_rate\<rparr> ms = Some expected)
       [(48000, 2, 10, 960), (44100, 2, 10, 882), (44100, 6, 10, 2646), (22050, 2, 10, 442), (22050, 6, 10, 1326)]"

definition samples_for_ms_large_duration_no_overflow :: bool where [test_run]:
  "samples_for_ms_large_duration_no_overflow \<longleftrightarrow>
     check_samples_for_ms 192000 16 3600000 11059200000"

definition create_audio_buffer_pair_keeps_exact_power_of_two_capacity :: bool where [test_run]:
  "create_audio_buffer_pair_keeps_exact_power_of_two_capacity \<longleftrightarrow>
     create_audio_buffer_pair \<lparr>sp_channels = 1, sp_sample_rate = 32000\<rparr> 1 = Some 32"

definition create_audio_buffer_pair_rounds_up_to_next_power_of_two :: bool where [test_run]:
  "create_audio_buffer_pair_rounds_up_to_next_power_of_two \<longleftrightarrow>
     create_audio_buffer_pair \<lparr>sp_channels = 2, sp_sample_rate = 48000\<rparr> 10 = Some 1024"

definition create_audio_buffer_pair_counts_all_channels_when_sizing :: bool where [test_run]:
  "create_audio_buffer_pair_counts_all_channels_when_sizing \<longleftrightarrow>
     create_audio_buffer_pair \<lparr>sp_channels = 6, sp_sample_rate = 48000\<rparr> 10 = Some 4096"

definition push_all_forwards_all_samples :: bool where [test_run]:
  "push_all_forwards_all_samples \<longleftrightarrow>
     pushes (make_sink 8 AllChannels) [f32_lit 1 1, f32_lit 2 1, f32_lit 3 1, f32_lit 4 1] 2
       (\<lambda>sink dropped. \<not> dropped \<and> drain sink = [f32_lit 1 1, f32_lit 2 1, f32_lit 3 1, f32_lit 4 1])"

definition push_all_reports_overflow_when_full :: bool where [test_run]:
  "push_all_reports_overflow_when_full \<longleftrightarrow>
     pushes (make_sink 2 AllChannels) [f32_lit 1 1, f32_lit 2 1] 2 (\<lambda>sink dropped.
       pushes sink [f32_lit 3 1, f32_lit 4 1] 2 (\<lambda>sink dropped. dropped))"

definition push_all_commits_whole_frames_only :: bool where [test_run]:
  "push_all_commits_whole_frames_only \<longleftrightarrow>
     pushes (make_sink 3 AllChannels) [f32_lit 1 1, f32_lit 2 1, f32_lit 3 1, f32_lit 4 1] 2
       (\<lambda>sink dropped. dropped \<and> drain sink = [f32_lit 1 1, f32_lit 2 1])"

definition push_selected_drops_whole_frames_when_short_of_space :: bool where [test_run]:
  "push_selected_drops_whole_frames_when_short_of_space \<longleftrightarrow>
     pushes (make_sink 3 (Selected [0, 1])) [f32_lit 1 1, f32_lit 2 1, f32_lit 3 1, f32_lit 4 1] 2
       (\<lambda>sink dropped. dropped \<and> drain sink = [f32_lit 1 1, f32_lit 2 1])"

definition push_selected_extracts_first_channel :: bool where [test_run]:
  "push_selected_extracts_first_channel \<longleftrightarrow>
     pushes (make_sink 16 (Selected [0])) [f32_lit 1 1, f32_lit 2 1, f32_lit 3 1, f32_lit 4 1, f32_lit 5 1, f32_lit 6 1, f32_lit 7 1, f32_lit 8 1] 4
       (\<lambda>sink dropped. \<not> dropped \<and> drain sink = [f32_lit 1 1, f32_lit 5 1])"

definition push_selected_extracts_two_channels_in_order :: bool where [test_run]:
  "push_selected_extracts_two_channels_in_order \<longleftrightarrow>
     pushes (make_sink 16 (Selected [1, 3])) [f32_lit 1 1, f32_lit 2 1, f32_lit 3 1, f32_lit 4 1, f32_lit 5 1, f32_lit 6 1, f32_lit 7 1, f32_lit 8 1] 4
       (\<lambda>sink dropped. \<not> dropped \<and> drain sink = [f32_lit 2 1, f32_lit 4 1, f32_lit 6 1, f32_lit 8 1])"

definition push_selected_single_channel_matches_all :: bool where [test_run]:
  "push_selected_single_channel_matches_all \<longleftrightarrow>
     (let data = [f32_lit 1 10, f32_lit 2 10, f32_lit 3 10] in
       pushes (make_sink 16 AllChannels) data 1 (\<lambda>sink_all dropped_all.
       pushes (make_sink 16 (Selected [0])) data 1 (\<lambda>sink_sel dropped_sel. drain sink_all = drain sink_sel)))"

definition push_selected_reports_overflow_when_full :: bool where [test_run]:
  "push_selected_reports_overflow_when_full \<longleftrightarrow>
     pushes (make_sink 2 (Selected [0, 1])) [f32_lit 1 1, f32_lit 2 1, f32_lit 3 1, f32_lit 4 1] 2
       (\<lambda>sink dropped. dropped)"

definition push_selected_ignores_partial_trailing_frame :: bool where [test_run]:
  "push_selected_ignores_partial_trailing_frame \<longleftrightarrow>
     pushes (make_sink 16 (Selected [0])) [f32_lit 1 1, f32_lit 2 1, f32_lit 3 1, f32_lit 4 1, f32_lit 5 1, f32_lit 6 1, f32_lit 7 1, f32_lit 8 1, f32_lit 9 1] 4
       (\<lambda>sink dropped. drain sink = [f32_lit 1 1, f32_lit 5 1])"

definition push_empty_data_produces_nothing :: bool where [test_run]:
  "push_empty_data_produces_nothing \<longleftrightarrow>
     list_all (\<lambda>mode. pushes (make_sink 8 mode) [] 2 (\<lambda>sink dropped. \<not> dropped \<and> drain sink = []))
       [AllChannels, Selected [0]]"

definition get_device_rejects_empty_query :: bool where [test_run]:
  "get_device_rejects_empty_query \<longleftrightarrow>
     is_err (get_device id None [])"

lemma audio_tests:
  samples_for_ms_zero_duration_returns_zero
  samples_for_ms_one_second_is_exact
  samples_for_ms_mono
  samples_for_ms_stereo_standard_rates
  samples_for_ms_multichannel
  text_device_listing_preserves_supported_unsupported_and_unavailable_output
  empty_text_device_listing_reports_no_devices
  samples_for_ms_truncates_fractional_samples
  frame_aligned_samples_for_ms_rounds_up_to_whole_frames
  samples_for_ms_large_duration_no_overflow
  create_audio_buffer_pair_keeps_exact_power_of_two_capacity
  create_audio_buffer_pair_rounds_up_to_next_power_of_two
  create_audio_buffer_pair_counts_all_channels_when_sizing
  push_all_forwards_all_samples
  push_all_reports_overflow_when_full
  push_all_commits_whole_frames_only
  push_selected_drops_whole_frames_when_short_of_space
  push_selected_extracts_first_channel
  push_selected_extracts_two_channels_in_order
  push_selected_single_channel_matches_all
  push_selected_reports_overflow_when_full
  push_selected_ignores_partial_trailing_frame
  push_empty_data_produces_nothing
  get_device_rejects_empty_query
  by (simp_all add: test_run)

section \<open>MIDI input\<close>

definition after_bytes :: "u8 list \<Rightarrow> app_state" where [test_run]:
  "after_bytes bytes = fst (record_bytes bytes (app_state_default, 0))"

lemmas [test_run] = record_bytes_def record_byte_def record_byte_ops_def record_transport_ops_def midi_status
  midi_transport MIDI_CLOCK_TICKS_PER_STEP_def app_state_default_def list_midi_devices_text_def
  find_matching_midi_device_def eq_ignore_ascii_case_def ascii_lower_def

lemma funpow_run [test_run]: "(f ^^ numeral k) x = (f ^^ pred_numeral k) (f x)"
  by (simp add: numeral_eq_Suc funpow_swap1)

definition text_device_listing_preserves_device_indices_and_names :: bool where [test_run]:
  "text_device_listing_preserves_device_indices_and_names \<longleftrightarrow>
     list_midi_devices_text
       [\<lparr>mi_index = 0, mi_name = lit ''MIDI input''\<rparr>, \<lparr>mi_index = 1, mi_name = lit ''Unknown Device''\<rparr>] =
       [(LInfo, lit ''[0] MIDI input''), (LInfo, lit ''[1] Unknown Device'')]"

definition empty_midi_listing_reports_no_devices :: bool where [test_run]:
  "empty_midi_listing_reports_no_devices \<longleftrightarrow>
     list_midi_devices_text [] = [(LWarn, lit ''[*] No MIDI input devices detected.'')]"

definition find_matching_midi_device_prefers_an_exact_match_over_an_earlier_substring :: bool where [test_run]:
  "find_matching_midi_device_prefers_an_exact_match_over_an_earlier_substring \<longleftrightarrow>
     find_matching_midi_device id Some (lit ''Phase Control'')
       [lit ''Phase Control Extended'', lit ''Phase Control''] = Some (lit ''Phase Control'')"

definition record_byte_sets_start :: bool where [test_run]:
  "record_byte_sets_start \<longleftrightarrow>
     as_midi_last_transport (fst (record_byte 0xFA (app_state_default, 0))) = MIDI_TRANSPORT_START"

definition record_byte_sets_stop :: bool where [test_run]:
  "record_byte_sets_stop \<longleftrightarrow>
     as_midi_last_transport (fst (record_byte 0xFC (app_state_default, 0))) = MIDI_TRANSPORT_STOP"

definition record_byte_sets_continue :: bool where [test_run]:
  "record_byte_sets_continue \<longleftrightarrow>
     as_midi_last_transport (fst (record_byte 0xFB (app_state_default, 0))) = MIDI_TRANSPORT_CONTINUE"

definition record_byte_publishes_start_with_reset_step_count :: bool where [test_run]:
  "record_byte_publishes_start_with_reset_step_count \<longleftrightarrow>
     (let state = app_state_default\<lparr>as_midi_steps := 12\<rparr>;
          ops = fst (record_byte_ops MIDI_STATUS_START 0);
          states = map (\<lambda>n. fold midi_op_run (take n ops) state) [0..<Suc (length ops)]
      in list_all (\<lambda>observed. as_midi_last_transport observed = MIDI_TRANSPORT_START \<longrightarrow> as_midi_steps observed = 0) states)"

definition each_transport_event_is_counted_and_kept_as_the_latest :: bool where [test_run]:
  "each_transport_event_is_counted_and_kept_as_the_latest \<longleftrightarrow>
     snd (fold (\<lambda>(byte, code) (state, ok).
         let state' = fst (record_byte byte (state, 0)) in
         (state', ok \<and> as_midi_transport_count state' = as_midi_transport_count state + 1 \<and>
            as_midi_transport_latest state' = code))
       [(MIDI_STATUS_START, MIDI_TRANSPORT_START), (MIDI_STATUS_STOP, MIDI_TRANSPORT_STOP),
        (MIDI_STATUS_CONTINUE, MIDI_TRANSPORT_CONTINUE)] (app_state_default, True))"

definition timing_clock_bytes_leave_the_transport_count_and_latest_alone :: bool where [test_run]:
  "timing_clock_bytes_leave_the_transport_count_and_latest_alone \<longleftrightarrow>
     (let state = after_bytes (replicate (unat MIDI_CLOCK_TICKS_PER_STEP) MIDI_STATUS_TIMING_CLOCK) in
       as_midi_transport_count state = 0 \<and> as_midi_transport_latest state = MIDI_TRANSPORT_NONE)"

definition record_byte_does_not_publish_before_a_full_step :: bool where [test_run]:
  "record_byte_does_not_publish_before_a_full_step \<longleftrightarrow>
     as_midi_steps (after_bytes (replicate (unat MIDI_CLOCK_TICKS_PER_STEP - 1) 0xF8)) = 0"

definition record_byte_publishes_one_step_after_six_ticks :: bool where [test_run]:
  "record_byte_publishes_one_step_after_six_ticks \<longleftrightarrow>
     as_midi_steps (after_bytes (replicate (unat MIDI_CLOCK_TICKS_PER_STEP) 0xF8)) = 1"

definition record_byte_accumulator_persists_across_calls :: bool where [test_run]:
  "record_byte_accumulator_persists_across_calls \<longleftrightarrow>
     (let first = record_bytes (replicate 4 0xF8) (app_state_default, 0) in
       as_midi_steps (fst first) = 0 \<and> as_midi_steps (fst (record_bytes (replicate 2 0xF8) first)) = 1)"

definition record_byte_start_resets_the_step_accumulator :: bool where [test_run]:
  "record_byte_start_resets_the_step_accumulator \<longleftrightarrow>
     as_midi_steps (after_bytes (replicate 3 0xF8 @ [0xFA] @ replicate 3 0xF8)) = 0"

definition record_byte_start_resets_the_absolute_step_count :: bool where [test_run]:
  "record_byte_start_resets_the_absolute_step_count \<longleftrightarrow>
     (let ticks = replicate (unat MIDI_CLOCK_TICKS_PER_STEP * 2) 0xF8 in
       as_midi_steps (after_bytes ticks) = 2 \<and> as_midi_steps (after_bytes (ticks @ [0xFA])) = 0)"

definition record_byte_ignores_unrecognised_bytes :: bool where [test_run]:
  "record_byte_ignores_unrecognised_bytes \<longleftrightarrow>
     (let state = fold (\<lambda>byte state. fst (record_byte byte (state, 0))) [0x00, 0xFE, 0xFF, 0x90] app_state_default in
       as_midi_last_transport state = MIDI_TRANSPORT_NONE \<and> as_midi_steps state = 0)"

lemma midi_tests:
  text_device_listing_preserves_device_indices_and_names
  empty_midi_listing_reports_no_devices
  find_matching_midi_device_prefers_an_exact_match_over_an_earlier_substring
  record_byte_sets_start
  record_byte_sets_stop
  record_byte_sets_continue
  record_byte_publishes_start_with_reset_step_count
  each_transport_event_is_counted_and_kept_as_the_latest
  timing_clock_bytes_leave_the_transport_count_and_latest_alone
  record_byte_does_not_publish_before_a_full_step
  record_byte_publishes_one_step_after_six_ticks
  record_byte_accumulator_persists_across_calls
  record_byte_start_resets_the_step_accumulator
  record_byte_start_resets_the_absolute_step_count
  record_byte_ignores_unrecognised_bytes
  by (simp_all add: test_run)

end
