(* ===== verification/Tests_Pipeline.thy ===== *)
theory Tests_Pipeline
  imports Analyser Frame_Writer Worker Osc Tests_Prelude
begin

text \<open>
  The unit tests of the payload types, the analyser, the frame region, the workers and the OSC packets on
  the model. The tests that start the analyser's thread, encode OSC packets or measure a signal are left
  out, as are those of filter coefficients in \<^verbatim>\<open>f64\<close>.
\<close>

lemma replicate_run [test_run]: "replicate (numeral k) x = x # replicate (pred_numeral k) x"
  by (simp add: numeral_eq_Suc)

section \<open>Payload and analyser\<close>

definition milliseconds_inner_value_accessible :: bool where [test_run]:
  "milliseconds_inner_value_accessible \<longleftrightarrow>
     ms_value (Milliseconds (f32_lit 30 1)) = f32_lit 30 1"

definition hertz_inner_value_accessible :: bool where [test_run]:
  "hertz_inner_value_accessible \<longleftrightarrow>
     hz_value (Hertz (f32_lit 440 1)) = f32_lit 440 1"

definition raw_payload_initialises_zeroed_channels :: bool where [test_run]:
  "raw_payload_initialises_zeroed_channels \<longleftrightarrow>
     (let payload = raw_payload_new 2 in length (rp_channels payload) = 2 \<and>
       list_all (\<lambda>channel. cl_peak channel = 0 \<and> list_all (\<lambda>bin. bin = 0) (cl_bins channel)) (rp_channels payload))"

definition display_payload_initialises_zeroed_channels_without_midi :: bool where [test_run]:
  "display_payload_initialises_zeroed_channels_without_midi \<longleftrightarrow>
     (let payload = display_payload_new 2 in length (dp_channels payload) = 2 \<and> dp_midi payload = None \<and>
       list_all (\<lambda>channel. cl_peak channel = 0 \<and> list_all (\<lambda>bin. bin = 0) (cl_bins channel)) (dp_channels payload))"

definition peak_mono :: bool where [test_run]:
  "peak_mono \<longleftrightarrow>
     (let buffer = [f32_lit 10 100, f32_neg (f32_lit 50 100), f32_lit 30 100, f32_neg (f32_lit 20 100)] in
       interleaved_peak False buffer 0 1 = Some (f32_lit 50 100))"

definition peak_stereo_channel_isolation :: bool where [test_run]:
  "peak_stereo_channel_isolation \<longleftrightarrow>
     (let buffer = [f32_lit 10 100, f32_neg (f32_lit 90 100), f32_lit 50 100, f32_neg (f32_lit 20 100), f32_lit 30 100, f32_lit 80 100] in
       interleaved_peak False buffer 0 2 = Some (f32_lit 50 100) \<and>
       interleaved_peak False buffer 1 2 = Some (f32_lit 90 100))"

definition peak_negative_values :: bool where [test_run]:
  "peak_negative_values \<longleftrightarrow>
     (let buffer = [f32_neg (f32_lit 70 100), f32_lit 10 100, f32_neg (f32_lit 30 100), f32_lit 60 100] in
       interleaved_peak False buffer 0 2 = Some (f32_lit 70 100) \<and>
       interleaved_peak False buffer 1 2 = Some (f32_lit 60 100))"

definition peak_silence :: bool where [test_run]:
  "peak_silence \<longleftrightarrow>
     (let buffer = replicate 8 0 in
       interleaved_peak False buffer 0 2 = Some 0 \<and> interleaved_peak False buffer 1 2 = Some 0)"

definition peak_empty_buffer :: bool where [test_run]:
  "peak_empty_buffer \<longleftrightarrow>
     interleaved_peak False [] 0 1 = Some 0"

definition peak_three_channels :: bool where [test_run]:
  "peak_three_channels \<longleftrightarrow>
     (let buffer = [f32_lit 10 100, f32_lit 20 100, f32_lit 90 100, f32_lit 80 100, f32_lit 30 100, f32_lit 40 100] in
       interleaved_peak False buffer 0 3 = Some (f32_lit 80 100) \<and>
       interleaved_peak False buffer 1 3 = Some (f32_lit 30 100) \<and>
       interleaved_peak False buffer 2 3 = Some (f32_lit 90 100))"

definition peak_single_frame :: bool where [test_run]:
  "peak_single_frame \<longleftrightarrow>
     (let buffer = [f32_lit 42 100, f32_neg (f32_lit 73 100)] in
       interleaved_peak False buffer 0 2 = Some (f32_lit 42 100) \<and>
       interleaved_peak False buffer 1 2 = Some (f32_lit 73 100))"

definition transfer_buffer_is_a_whole_frame_multiple :: bool where [test_run]:
  "transfer_buffer_is_a_whole_frame_multiple \<longleftrightarrow>
     (case analyser_new (\<lambda>sample_rate config. Some demo_bank) \<lparr>sp_channels = 2, sp_sample_rate = 22050\<rparr>
         (raw_payload_new 2) vocoder_config_default of
       Some state \<Rightarrow> length (st_transfer_buffer state) mod 2 = 0 \<and> length (st_transfer_buffer state) = 442
     | None \<Rightarrow> False)"

definition stability_check_rejects_non_finite_feedforward_coefficients :: bool where [test_run]:
  "stability_check_rejects_non_finite_feedforward_coefficients \<longleftrightarrow>
     \<not> coefficients_are_stable \<lparr>co_a1 = 0, co_a2 = 0, co_b0 = F32_NAN, co_b1 = 0, co_b2 = 0\<rparr>"

lemma peak_values:
  "f32_lit 10 100 = 0x3DCCCCCD" "f32_lit 20 100 = 0x3E4CCCCD" "f32_lit 30 100 = 0x3E99999A"
  "f32_lit 40 100 = 0x3ECCCCCD" "f32_lit 42 100 = 0x3ED70A3D" "f32_lit 50 100 = 0x3F000000"
  "f32_lit 60 100 = 0x3F19999A" "f32_lit 70 100 = 0x3F333333" "f32_lit 73 100 = 0x3F3AE148"
  "f32_lit 80 100 = 0x3F4CCCCD" "f32_lit 90 100 = 0x3F666666"
  by (simp_all add: float_eval)

lemmas [test_run] = peak_values raw_payload_new_def display_payload_new_def channel_level_default_def
  interleaved_peak_def strided_loop.simps peak_step_def analyser_new_def frame_aligned_samples_for_ms_def
  samples_for_ms_def div_ceil_def CHUNK_SIZE_MS_def coefficients_are_stable_def BAND_COUNT_def

lemma payload_tests:
  milliseconds_inner_value_accessible
  hertz_inner_value_accessible
  raw_payload_initialises_zeroed_channels
  display_payload_initialises_zeroed_channels_without_midi
  transfer_buffer_is_a_whole_frame_multiple
  stability_check_rejects_non_finite_feedforward_coefficients
  by (simp_all add: test_run)

lemma peak_tests:
  peak_mono
  peak_stereo_channel_isolation
  peak_negative_values
  peak_silence
  peak_empty_buffer
  peak_three_channels
  peak_single_frame
  by (simp_all add: test_run f32_neg_def f32_abs_def fl_abs_def f32_gt_z_def f32_lt_def fl_lt_def fl_is_nan_def
    fl_key_def fl_flush_def f32_unpack_def f32_pack_def)

section \<open>Frame region\<close>

definition TEST_SAMPLE_RATE :: u32 where [test_run]:
  "TEST_SAMPLE_RATE = 48000"

text \<open>A region that maps, on a system with pages of 16 KiB.\<close>

definition test_region :: "nat \<Rightarrow> bool \<Rightarrow> (frame_region \<Rightarrow> bool) \<Rightarrow> bool" where [test_run]:
  "test_region channel_count midi_configured holds =
     unwraps (frame_region_new 16384 True channel_count TEST_SAMPLE_RATE midi_configured) holds"

definition test_level :: "f32 \<Rightarrow> channel_level" where [test_run]:
  "test_level value = \<lparr>cl_peak = value, cl_bins = replicate BAND_COUNT value\<rparr>"

definition frame_midi_default :: frame_midi where [test_run]:
  "frame_midi_default = \<lparr>fm_steps = 0, fm_transport_count = 0, fm_transport_last = 0\<rparr>"

definition region_publishing :: "frame_region \<Rightarrow> channel_level list \<Rightarrow> frame_midi \<Rightarrow> u64 \<Rightarrow> (frame_region \<Rightarrow> bool \<Rightarrow> bool) \<Rightarrow> bool"
  where [test_run]:
  "region_publishing region channels midi published_ns holds =
     (case region_publish region channels midi published_ns of Some (region', ok) \<Rightarrow> holds region' ok | None \<Rightarrow> False)"

definition layout_constants_match_the_contract :: bool where [test_run]:
  "layout_constants_match_the_contract \<longleftrightarrow>
     FRAME_HEADER_BYTES = 64 \<and> CHANNEL_RECORD_BYTES = 132 \<and> frame_bytes 2 = 328 \<and>
     [OFFSET_MAGIC, OFFSET_LAYOUT_VERSION, OFFSET_SEQUENCE, OFFSET_PUBLISHED_NS, OFFSET_CHANNEL_COUNT,
      OFFSET_BAND_COUNT, OFFSET_SAMPLE_RATE, OFFSET_MIDI_FLAGS, OFFSET_MIDI_STEPS,
      OFFSET_MIDI_TRANSPORT_COUNT, OFFSET_MIDI_TRANSPORT_LAST] =
       [0, 4, 8, 16, 24, 28, 32, 36, 40, 44, 48]"

definition a_new_region_holds_its_header_and_no_frame :: bool where [test_run]:
  "a_new_region_holds_its_header_and_no_frame \<longleftrightarrow> test_region 2 True (\<lambda>region.
     rg_mapped_len region mod 16384 = 0 \<and> frame_bytes 2 \<le> rg_mapped_len region \<and>
     read_header (rg_mem region) (rg_mapped_len region) =
       Some \<lparr>fh_layout_version = FRAME_LAYOUT_VERSION, fh_channel_count = 2, fh_band_count = 32,
         fh_sample_rate = TEST_SAMPLE_RATE, fh_midi_flags = MIDI_FLAG_CONFIGURED\<rparr> \<and>
     load32 (rg_mem region) OFFSET_MAGIC = FRAME_MAGIC \<and> region_read region = None)"

definition a_region_without_midi_clears_the_midi_flag :: bool where [test_run]:
  "a_region_without_midi_clears_the_midi_flag \<longleftrightarrow> test_region 1 False (\<lambda>region.
     map_option fh_midi_flags (read_header (rg_mem region) (rg_mapped_len region)) = Some 0)"

definition publishing_advances_the_sequence_by_two :: bool where [test_run]:
  "publishing_advances_the_sequence_by_two \<longleftrightarrow> test_region 2 False (\<lambda>region.
     let channels = [test_level (f32_lit 1 2), test_level (f32_lit 1 4)] in
     region_publishing region channels frame_midi_default 1 (\<lambda>region ok.
       ok \<and> map_option fr_sequence (region_read region) = Some 2 \<and>
       region_publishing region channels frame_midi_default 2 (\<lambda>region ok.
         ok \<and> map_option fr_sequence (region_read region) = Some 4)))"

definition a_published_frame_reads_back :: bool where [test_run]:
  "a_published_frame_reads_back \<longleftrightarrow> test_region 2 True (\<lambda>region.
     let first = test_level (f32_lit 3 4);
         first = first\<lparr>cl_bins := (cl_bins first)[BAND_COUNT - 1 := f32_lit 7 2]\<rparr>;
         channels = [first, test_level (f32_lit 1 8)];
         frame_midi = \<lparr>fm_steps = 12, fm_transport_count = 3, fm_transport_last = 1\<rparr>
     in region_publishing region channels frame_midi 42 (\<lambda>region ok.
       ok \<and> region_read region =
         Some \<lparr>fr_sequence = 2, fr_published_ns = 42, fr_midi = frame_midi, fr_channels = channels\<rparr>))"

definition a_non_finite_peak_is_not_published :: bool where [test_run]:
  "a_non_finite_peak_is_not_published \<longleftrightarrow> test_region 1 False (\<lambda>region.
     region_publishing region [test_level F32_NAN] frame_midi_default 1 (\<lambda>region ok.
       \<not> ok \<and> region_read region = None))"

definition a_non_finite_bin_is_not_published :: bool where [test_run]:
  "a_non_finite_bin_is_not_published \<longleftrightarrow> test_region 1 False (\<lambda>region.
     region_publishing region [test_level (f32_lit 1 2)] frame_midi_default 1 (\<lambda>region ok. ok \<and>
       (let channel = test_level (f32_lit 1 2);
            channel = channel\<lparr>cl_bins := (cl_bins channel)[3 := F32_INFINITY]\<rparr>
        in region_publishing region [channel] frame_midi_default 2 (\<lambda>region ok.
          \<not> ok \<and> map_option fr_sequence (region_read region) = Some 2))))"

definition a_reader_gives_up_while_the_sequence_is_odd :: bool where [test_run]:
  "a_reader_gives_up_while_the_sequence_is_odd \<longleftrightarrow> test_region 1 False (\<lambda>region.
     region_publishing region [test_level (f32_lit 1 2)] frame_midi_default 1 (\<lambda>region ok. ok \<and>
       region_read (region\<lparr>rg_mem := store_run (St64 OFFSET_SEQUENCE 3) (rg_mem region)\<rparr>) = None))"

definition read_header_rejects_a_wrong_magic_and_a_short_length :: bool where [test_run]:
  "read_header_rejects_a_wrong_magic_and_a_short_length \<longleftrightarrow> test_region 1 False (\<lambda>region.
     read_header (rg_mem region) (FRAME_HEADER_BYTES - 1) = None \<and>
     read_header (store_run (St32 OFFSET_MAGIC 0) (rg_mem region)) (rg_mapped_len region) = None)"

definition a_slot_keeps_the_first_region :: bool where [test_run]:
  "a_slot_keeps_the_first_region \<longleftrightarrow> slot_region None = (None :: nat option) \<and>
     (let first = 1; second = 2; (slot, filled) = slot_fill first None; (slot', refilled) = slot_fill second slot
      in filled \<and> \<not> refilled \<and> slot_region slot' = Some (first :: nat))"

lemma level_values:
  "f32_lit 1 2 = 0x3F000000" "f32_lit 1 4 = 0x3E800000" "f32_lit 3 4 = 0x3F400000"
  "f32_lit 7 2 = 0x40600000" "f32_lit 1 8 = 0x3E000000"
  by (simp_all add: float_eval)

lemma level_finite_run [test_run]:
  "f32_is_finite 0x3F000000" "f32_is_finite 0x3E800000" "f32_is_finite 0x3F400000"
  "f32_is_finite 0x40600000" "f32_is_finite 0x3E000000"
  by (simp_all add: float_eval)

lemma counts_run [test_run]:
  "[0..<2] = [0, Suc 0]" "READ_ATTEMPTS = Suc (Suc (Suc 0))"
  "[0..<32] = [0, Suc 0, 2, 3, 4, 5, 6, 7, 8, 9, 10, 11, 12, 13, 14, 15, 16, 17, 18, 19, 20, 21, 22, 23, 24, 25, 26, 27, 28, 29, 30, 31]"
  by (simp_all add: upt_rec READ_ATTEMPTS_def)

lemmas [test_run] = level_values [unfolded One_nat_def] frame_region_new_def region_header_stores_def layout_defs
  div_ceil_def frame_bytes_def read_header_def load32_def load64_def region_read_def read_frame_def
  read_frame_channels_def  region_publish_def channels_finite_def level_finite_def
  publish_stores_def payload_stores_def channel_stores_def payload_loads_def channel_loads_def
  decode_frame_def decode_channel_def chunks_exact.simps record_offset_def
  slot_region_def slot_fill_def FRAME_MAGIC_def

lemma header_tests:
  layout_constants_match_the_contract
  a_slot_keeps_the_first_region
  a_new_region_holds_its_header_and_no_frame
  a_region_without_midi_clears_the_midi_flag
  read_header_rejects_a_wrong_magic_and_a_short_length
  a_non_finite_peak_is_not_published
  by (simp_all add: test_run)

lemma single_channel_tests:
  a_non_finite_bin_is_not_published
  a_reader_gives_up_while_the_sequence_is_odd
  by (simp_all add: test_run)

text \<open>With two channels the memory is large, and the facts on publications replace its evaluation.\<close>

lemma publish_and_read:
  assumes "header_good n sr mc r" "mem_holds (rg_mem r) n ps" "publication_ok n (cs, m, ns)" "channels_finite cs"
    "length ps < 100"
  obtains r' where "region_publish r cs m ns = Some (r', True)" "header_good n sr mc r'"
    "mem_holds (rg_mem r') n (ps @ [(cs, m, ns)])"
    "region_read r' = Some \<lparr>fr_sequence = of_nat (2 * Suc (length ps)), fr_published_ns = ns, fr_midi = m, fr_channels = cs\<rparr>"
proof -
  from region_publish_ok [OF assms(1-4)] obtain r' where r': "region_publish r cs m ns = Some (r', True)"
    "header_good n sr mc r'" "mem_holds (rg_mem r') n (ps @ [(cs, m, ns)])" by blast
  moreover have "region_read r' = frame_after (ps @ [(cs, m, ns)])"
    using assms(5) by (intro region_read_holds [OF r'(2,3)]) simp
  ultimately show ?thesis using that by (simp add: frame_after_def)
qed

lemma test_region_new:
  assumes "n < 100"
  obtains r where "frame_region_new 16384 True n TEST_SAMPLE_RATE mc = Inr r" "header_good n TEST_SAMPLE_RATE mc r"
    "mem_holds (rg_mem r) n []"
proof -
  obtain r where r: "frame_region_new 16384 True n TEST_SAMPLE_RATE mc = Inr r"
    using assms by (simp add: frame_region_new_def Let_def)
  from frame_region_new_good [OF this] show ?thesis using that r by (simp add: mem_holds_def)
qed

lemma stereo_levels:
  "publication_ok 2 ([test_level a, test_level b], m, ns)"
  "publication_ok 2 ([test_level a\<lparr>cl_bins := (cl_bins (test_level a))[BAND_COUNT - 1 := c]\<rparr>, test_level b], m, ns)"
  by (simp_all add: publication_ok_def level_ok_def test_level_def)

lemma publishing_advances_the_sequence_by_two_passes: publishing_advances_the_sequence_by_two
proof -
  let ?cs = "[test_level (f32_lit 1 2), test_level (f32_lit 1 4)]"
  have fin: "channels_finite ?cs" by (simp add: test_run)
  obtain r where r: "frame_region_new 16384 True 2 TEST_SAMPLE_RATE False = Inr r"
    "header_good 2 TEST_SAMPLE_RATE False r" "mem_holds (rg_mem r) 2 []" by (rule test_region_new [of 2]) simp_all
  obtain r1 where r1: "region_publish r ?cs frame_midi_default 1 = Some (r1, True)"
    "header_good 2 TEST_SAMPLE_RATE False r1" "mem_holds (rg_mem r1) 2 [(?cs, frame_midi_default, 1)]"
    "map_option fr_sequence (region_read r1) = Some 2"
    by (rule publish_and_read [OF r(2,3) stereo_levels(1) fin, of frame_midi_default 1]) simp_all
  obtain r2 where "region_publish r1 ?cs frame_midi_default 2 = Some (r2, True)"
    "map_option fr_sequence (region_read r2) = Some 4"
    by (rule publish_and_read [OF r1(2,3) stereo_levels(1) fin, of frame_midi_default 2]) simp_all
  with r(1) r1(1,4) show ?thesis
    by (simp add: publishing_advances_the_sequence_by_two_def test_region_def unwraps_def region_publishing_def Let_def)
qed

lemma a_published_frame_reads_back_passes: a_published_frame_reads_back
proof -
  let ?first = "test_level (f32_lit 3 4)\<lparr>cl_bins := (cl_bins (test_level (f32_lit 3 4)))[BAND_COUNT - 1 := f32_lit 7 2]\<rparr>"
  let ?cs = "[?first, test_level (f32_lit 1 8)]"
  let ?m = "\<lparr>fm_steps = 12, fm_transport_count = 3, fm_transport_last = 1\<rparr>"
  have fin: "channels_finite ?cs" by (simp add: test_run)
  obtain r where r: "frame_region_new 16384 True 2 TEST_SAMPLE_RATE True = Inr r"
    "header_good 2 TEST_SAMPLE_RATE True r" "mem_holds (rg_mem r) 2 []" by (rule test_region_new [of 2]) simp_all
  obtain r1 where "region_publish r ?cs ?m 42 = Some (r1, True)"
    "region_read r1 = Some \<lparr>fr_sequence = 2, fr_published_ns = 42, fr_midi = ?m, fr_channels = ?cs\<rparr>"
    by (rule publish_and_read [OF r(2,3) stereo_levels(2) fin, of ?m 42]) simp_all
  with r(1) show ?thesis
    by (simp add: a_published_frame_reads_back_def test_region_def unwraps_def region_publishing_def Let_def)
qed

section \<open>Workers\<close>

text \<open>Threads that have ended, and a clock that loses no time.\<close>

definition no_delay :: "nat \<Rightarrow> nat" where [test_run]:
  "no_delay k = 0"

definition ended_thread :: "bool \<Rightarrow> worker_handle" where [test_run]:
  "ended_thread panics = \<lparr>wh_end = (\<lambda>unparks. Some 0), wh_panics = panics\<rparr>"

definition outcome_of :: "worker_spec \<Rightarrow> worker_handle \<Rightarrow> join_outcome" where [test_run]:
  "outcome_of spec handle = fst (join_with_timeout no_delay spec handle (0, 0))"

definition join_with_timeout_joins_completed_thread :: bool where [test_run]:
  "join_with_timeout_joins_completed_thread \<longleftrightarrow>
     outcome_of (worker_kind_spec KGenerator) (ended_thread False) = Joined"

definition join_with_timeout_reports_panic :: bool where [test_run]:
  "join_with_timeout_reports_panic \<longleftrightarrow>
     outcome_of (worker_kind_spec KAnalyser) (ended_thread True) = Panicked"

definition join_with_timeout_times_out_without_blocking_forever :: bool where [test_run]:
  "join_with_timeout_times_out_without_blocking_forever \<longleftrightarrow>
     outcome_of (worker_kind_spec KGenerator) \<lparr>wh_end = (\<lambda>unparks. None), wh_panics = False\<rparr> = TimedOut"

definition shutdown_unparks_and_joins_midi_input :: bool where [test_run]:
  "shutdown_unparks_and_joins_midi_input \<longleftrightarrow>
     (let handle = \<lparr>wh_end = (\<lambda>unparks. case unparks of [] \<Rightarrow> None | now # later \<Rightarrow> Some now), wh_panics = False\<rparr>;
          (workers, lines, outcomes, clk) = workers_shutdown no_delay (worker_register [] KMidiInput handle) (0, 0)
      in workers = [] \<and> lines = [''- MIDI input shutdown complete''] \<and> map snd outcomes = [Joined])"

definition shutdown_preserves_join_order_and_consumes_handles_once :: bool where [test_run]:
  "shutdown_preserves_join_order_and_consumes_handles_once \<longleftrightarrow>
     list_all (\<lambda>outputs.
       let kinds = [KGenerator, KAnalyser, KMapper, KMidiInput] @ map fst outputs;
           workers = fold (\<lambda>kind workers. worker_register workers kind (ended_thread False)) kinds [];
           (workers, lines, outcomes, clk) = workers_shutdown no_delay workers (0, 0);
           (workers', lines', outcomes', clk') = workers_shutdown no_delay workers clk
       in workers = [] \<and> lines' = [] \<and> lines =
            [''- Generator shutdown complete'', ''- Analyser shutdown complete'', ''- Mapper shutdown complete'',
             ''- MIDI input shutdown complete''] @ map snd outputs)
       [[(KWebSocket, ''- WebSocket server shutdown complete''), (KOsc, ''- OSC sender shutdown complete'')],
        [(KOsc, ''- OSC sender shutdown complete''), (KWebSocket, ''- WebSocket server shutdown complete'')]]"

definition shutdown_skips_absent_workers :: bool where [test_run]:
  "shutdown_skips_absent_workers \<longleftrightarrow>
     (let workers = worker_register (worker_register [] KAnalyser (ended_thread False)) KMapper (ended_thread False);
          (workers, lines, outcomes, clk) = workers_shutdown no_delay workers (0, 0)
      in workers = [] \<and> lines = [''- Analyser shutdown complete'', ''- Mapper shutdown complete''])"

lemma never_ends [test_run]:
  "fst (join_loop delay deadline \<lparr>wh_end = (\<lambda>unparks. None), wh_panics = panics\<rparr> unparks clk) = TimedOut"
proof (induction delay deadline "\<lparr>wh_end = (\<lambda>unparks :: nat list. None :: nat option), wh_panics = panics\<rparr>" unparks clk
    rule: join_loop.induct)
  case (1 delay deadline unparks t k)
  then show ?case by (subst join_loop.simps) (simp add: is_finished_def Let_def)
qed

lemmas [test_run] = join_with_timeout_def join_and_log_def workers_shutdown_def worker_register_def
  is_finished_def worker_timeout_def worker_constants join_loop.simps

lemma worker_tests:
  join_with_timeout_joins_completed_thread
  join_with_timeout_reports_panic
  join_with_timeout_times_out_without_blocking_forever
  shutdown_unparks_and_joins_midi_input
  shutdown_preserves_join_order_and_consumes_handles_once
  shutdown_skips_absent_workers
  by (simp_all add: test_run)

section \<open>OSC packets\<close>

definition pre_built_address_table_has_correct_shape :: bool where [test_run]:
  "pre_built_address_table_has_correct_shape \<longleftrightarrow>
     (let packets = build_packets 2 in length packets = 2 * BAND_COUNT \<and>
       (case packets ! 0 of OscMessage addr [OscFloat value] \<Rightarrow> addr = lit ''/ch/0/bin/0'' | _ \<Rightarrow> False) \<and>
       (case packets ! (BAND_COUNT + 5) of OscMessage addr [OscFloat value] \<Rightarrow> addr = lit ''/ch/1/bin/5'' | _ \<Rightarrow> False))"

definition pre_built_bin_bundle_has_correct_shape :: bool where [test_run]:
  "pre_built_bin_bundle_has_correct_shape \<longleftrightarrow>
     (case build_bin_bundle 2 of
       OscBundle timetag content \<Rightarrow> length content = 2 * BAND_COUNT \<and>
         (case content ! 0 of OscMessage addr args \<Rightarrow> addr = lit ''/ch/0/bin/0'' | _ \<Rightarrow> False)
     | _ \<Rightarrow> False)"

definition midi_packet_table_has_correct_addresses_and_arg_types :: bool where [test_run]:
  "midi_packet_table_has_correct_addresses_and_arg_types \<longleftrightarrow>
     list_all (\<lambda>(packet, expected_addr).
       case packet of OscMessage addr [OscInt value] \<Rightarrow> addr = lit expected_addr | _ \<Rightarrow> False)
       [(mo_steps_packet build_midi_packets, ''/phase4/midi/steps''),
        (mo_start_packet build_midi_packets, ''/phase4/midi/start''),
        (mo_stop_packet build_midi_packets, ''/phase4/midi/stop''),
        (mo_continue_packet build_midi_packets, ''/phase4/midi/continue'')]"

lemmas [test_run] = build_packets_def build_bin_bundle_def bin_addr_def build_midi_packets_def bang_def show_nat.simps
  lit_def

lemma osc_tests:
  pre_built_address_table_has_correct_shape
  pre_built_bin_bundle_has_correct_shape
  midi_packet_table_has_correct_addresses_and_arg_types
  by (simp_all add: test_run)

end
