(* ===== verification/Tests_App.thy ===== *)
theory Tests_App
  imports Entry Tests_Prelude
begin

text \<open>
  The unit tests of \<^verbatim>\<open>src/src/bootstrap.rs\<close>, \<^verbatim>\<open>src/src/app.rs\<close>, \<^verbatim>\<open>src/src/controller.rs\<close>,
  \<^verbatim>\<open>src/src/managers/mapper.rs\<close> and \<^verbatim>\<open>src/src/managers/server.rs\<close> on the model. The host and the JSON
  encoder are parameters of the tests, as they are of the model. The tests that run an asynchronous
  server, that read the text of a log line with a float and that read serialised JSON are left out.
\<close>

section \<open>Bootstrap\<close>

definition resolve_audio_hardware_in_calibration_mode_returns_defaults ::
  "('s, 'conn, 'l, 'k) host \<Rightarrow> bool" where [test_run]:
  "resolve_audio_hardware_in_calibration_mode_returns_defaults h \<longleftrightarrow>
     unwraps app_config_default (\<lambda>config.
       unwraps (resolve_audio_hardware h (config\<lparr>ac_input := Calibration (FixedTone (f32_lit 440 1))\<rparr>)) (\<lambda>resolved.
         unat (sp_sample_rate (ri_hw_specs resolved)) = CALIBRATION_SAMPLE_RATE_HZ \<and>
         sp_channels (ri_hw_specs resolved) = 2 \<and>
         (case ri_source resolved of CalibrationSource (FixedTone hz) \<Rightarrow> hz = f32_lit 440 1 | _ \<Rightarrow> False) \<and>
         ri_analyse_channels resolved = None))"

definition validate_channel_selection_accepts_none :: bool where [test_run]:
  "validate_channel_selection_accepts_none \<longleftrightarrow>
     (let hw_specs = \<lparr>sp_channels = 2, sp_sample_rate = 44100\<rparr> in
      \<not> is_err (validate_channel_selection None hw_specs))"

definition validate_channel_selection_rejects_out_of_range_index :: bool where [test_run]:
  "validate_channel_selection_rejects_out_of_range_index \<longleftrightarrow>
     (let hw_specs = \<lparr>sp_channels = 2, sp_sample_rate = 44100\<rparr> in
      is_err (validate_channel_selection (Some [0, 2]) hw_specs))"

definition validate_channel_selection_accepts_in_range_indices :: bool where [test_run]:
  "validate_channel_selection_accepts_in_range_indices \<longleftrightarrow>
     (let hw_specs = \<lparr>sp_channels = 6, sp_sample_rate = 44100\<rparr> in
      \<not> is_err (validate_channel_selection (Some [0, 3, 5]) hw_specs))"

definition resolve_midi_hardware_returns_none_when_not_configured ::
  "('s, 'conn, 'l, 'k) host \<Rightarrow> bool" where [test_run]:
  "resolve_midi_hardware_returns_none_when_not_configured h \<longleftrightarrow>
     unwraps app_config_default (\<lambda>config.
       unwraps (resolve_midi_hardware h config) (\<lambda>result. case result of None \<Rightarrow> True | Some source \<Rightarrow> False))"

definition resolve_midi_hardware_propagates_connection_failure ::
  "('s, 'conn, 'l, 'k) host \<Rightarrow> midi_device_error \<Rightarrow> bool" where [test_run]:
  "resolve_midi_hardware_propagates_connection_failure h failure \<longleftrightarrow>
     (let device_name = lit ''Disconnected MIDI Device'' in
      unwraps app_config_default (\<lambda>config.
        case resolve_midi_hardware (h\<lparr>ho_connect_midi := (\<lambda>name.
               if name = device_name then Inl failure else Inl (MidiNoMatch name))\<rparr>)
             (config\<lparr>ac_midi_input := Some (MidiDevice device_name)\<rparr>) of
          Inl e \<Rightarrow> ae_root e = RMidi failure
        | Inr result \<Rightarrow> False))"

lemmas [test_run] = resolve_audio_hardware_def resolve_midi_hardware_def validate_channel_selection_def
  CALIBRATION_SAMPLE_RATE_HZ_def from_error_def any_of_def app_config_default_def
  config_outputs_new_def and_then_def lit_def

lemma bootstrap_tests:
  "resolve_audio_hardware_in_calibration_mode_returns_defaults h"
  validate_channel_selection_accepts_none
  validate_channel_selection_rejects_out_of_range_index
  validate_channel_selection_accepts_in_range_indices
  "resolve_midi_hardware_returns_none_when_not_configured h"
  "resolve_midi_hardware_propagates_connection_failure h failure"
  by (simp_all add: test_run)

section \<open>Application\<close>

definition midi_atomics_default_to_none_and_zero :: bool where [test_run]:
  "midi_atomics_default_to_none_and_zero \<longleftrightarrow>
     (let state = app_state_default in
      as_midi_last_transport state = MIDI_TRANSPORT_NONE \<and> as_midi_steps state = 0)"

definition a_hardware_stream_error_is_recorded_and_requests_shutdown :: bool where [test_run]:
  "a_hardware_stream_error_is_recorded_and_requests_shutdown \<longleftrightarrow>
     (let state = fail_hardware_stream (lit ''device unplugged'') app_state_default in
      \<not> as_keep_running state \<and>
      (case take_hardware_stream_error state of (state, error) \<Rightarrow>
         error = Some (lit ''device unplugged'') \<and> snd (take_hardware_stream_error state) = None))"

definition the_first_hardware_stream_error_is_kept :: bool where [test_run]:
  "the_first_hardware_stream_error_is_kept \<longleftrightarrow>
     (let state = app_state_default;
          state = fail_hardware_stream (lit ''first'') state;
          state = fail_hardware_stream (lit ''second'') state
      in snd (take_hardware_stream_error state) = Some (lit ''first''))"

text \<open>
  The thread of the first test ends within five milliseconds of the flag's clearing; the count of its
  exits is the count of its joins.
\<close>

definition shutdown_is_idempotent_and_drop_safe :: bool where [test_run]:
  "shutdown_is_idempotent_and_drop_safe \<longleftrightarrow>
     (let delay = (\<lambda>k. 0);
          generator_thread = \<lparr>wh_end = (\<lambda>unparks. Some (duration_from_millis 5)), wh_panics = False\<rparr>;
          app = \<lparr>ap_input_device = (None :: unit option option), ap_state = app_state_default,
            ap_workers = worker_register [] KGenerator generator_thread, ap_controller = True,
            ap_shutdown_started = False, ap_ws_bound_addr = None,
            ap_ready_report = \<lparr>rr_audio = \<lparr>ra_device = None, ra_sample_rate = 48000, ra_channels = [0]\<rparr>,
              rr_midi_device = None, rr_outputs = \<lparr>ro_websocket = None, ro_osc = None\<rparr>\<rparr>\<rparr>;
          exit_count = (\<lambda>effects. length (filter (\<lambda>e. e = WorkerJoined ''generator'' Joined) effects))
      in case app_shutdown delay app (0, 0) of (app, first, clk) \<Rightarrow>
         case app_shutdown delay app clk of (app, second, clk) \<Rightarrow>
           ap_shutdown_started app \<and>
           \<not> as_keep_running (ap_state app) \<and>
           exit_count (first @ second) = 1 \<and>
           ap_workers app = [] \<and>
           exit_count (first @ second @ fst (app_drop delay app clk)) = 1)"

lemmas [test_run] = app_state_default_def fail_hardware_stream_def take_hardware_stream_error_def
  app_shutdown_def app_drop_def workers_shutdown_def worker_register_def join_and_log_def join_with_timeout_def
  is_finished_def worker_timeout_def worker_constants join_loop.simps lit_def

lemma app_tests:
  midi_atomics_default_to_none_and_zero
  a_hardware_stream_error_is_recorded_and_requests_shutdown
  the_first_hardware_stream_error_is_kept
  shutdown_is_idempotent_and_drop_safe
  by (simp_all add: test_run MIDI_TRANSPORT_NONE_def)

section \<open>Controller\<close>

definition unbound_keys_are_ignored :: bool where [test_run]:
  "unbound_keys_are_ignored \<longleftrightarrow>
     list_all (\<lambda>character. as_keep_running (handle_key_event
         \<lparr>ke_code = KChar character, ke_control = False, ke_kind = Press\<rparr> app_state_default))
       (lit ''tT'')"

definition release_and_repeat_events_do_not_signal_shutdown :: bool where [test_run]:
  "release_and_repeat_events_do_not_signal_shutdown \<longleftrightarrow>
     list_all (\<lambda>kind. as_keep_running (handle_key_event
         \<lparr>ke_code = KChar 99, ke_control = True, ke_kind = kind\<rparr> app_state_default))
       [Release, Repeat]"

definition press_ctrl_c_signals_shutdown :: bool where [test_run]:
  "press_ctrl_c_signals_shutdown \<longleftrightarrow>
     as_keep_running app_state_default \<and>
     \<not> as_keep_running (handle_key_event
         \<lparr>ke_code = KChar 99, ke_control = True, ke_kind = Press\<rparr> app_state_default)"

lemma controller_tests:
  unbound_keys_are_ignored
  release_and_repeat_events_do_not_signal_shutdown
  press_ctrl_c_signals_shutdown
  by (simp_all add: test_run handle_key_event_def)

section \<open>Mapper\<close>

definition reading_a_snapshot_clears_the_last_transport_and_keeps_the_latest :: bool where [test_run]:
  "reading_a_snapshot_clears_the_last_transport_and_keeps_the_latest \<longleftrightarrow>
     (let state = app_state_default\<lparr>as_midi_last_transport := MIDI_TRANSPORT_STOP,
            as_midi_transport_latest := MIDI_TRANSPORT_STOP\<rparr>
      in case read_midi_snapshot state True of
          (state, Some snapshot) \<Rightarrow>
            ms_transport snapshot = Some ''stop'' \<and>
            as_midi_last_transport state = MIDI_TRANSPORT_NONE \<and>
            as_midi_transport_latest state = MIDI_TRANSPORT_STOP
        | (state, None) \<Rightarrow> False)"

lemma mapper_tests: reading_a_snapshot_clears_the_last_transport_and_keeps_the_latest
  by (simp add: test_run read_midi_snapshot_def swap_transport_def snapshot_of_def transport_code_to_str_def
    MIDI_TRANSPORT_NONE_def MIDI_TRANSPORT_STOP_def MIDI_TRANSPORT_START_def MIDI_TRANSPORT_CONTINUE_def)

section \<open>WebSocket server\<close>

definition has_connected_clients_is_false_for_the_retained_receiver_alone :: bool where [test_run]:
  "has_connected_clients_is_false_for_the_retained_receiver_alone \<longleftrightarrow>
     \<not> has_connected_clients RETAINED_SERIALISED_RECEIVERS"

definition has_connected_clients_is_true_above_the_retained_count :: bool where [test_run]:
  "has_connected_clients_is_true_above_the_retained_count \<longleftrightarrow>
     has_connected_clients (RETAINED_SERIALISED_RECEIVERS + 1)"

definition failing_payload :: display_payload where
  "failing_payload = (let payload = display_payload_new 1 in
     payload\<lparr>dp_channels := (dp_channels payload)[0 := (dp_channels payload ! 0)\<lparr>cl_peak := F32_NAN\<rparr>]\<rparr>)"

definition serialise_display_payload_rejects_non_finite_values_once_per_streak ::
  "(display_payload \<Rightarrow> rstring option) \<Rightarrow> bool" where [test_run]:
  "serialise_display_payload_rejects_non_finite_values_once_per_streak to_string \<longleftrightarrow>
     (case serialise_display_payload to_string failing_payload False of (already_logged, errors1, first) \<Rightarrow>
      case serialise_display_payload to_string failing_payload already_logged of (already_logged, errors2, second) \<Rightarrow>
        first = None \<and> second = None \<and> errors1 + errors2 = 1)"

definition serialise_display_payload_logs_again_after_a_success ::
  "(display_payload \<Rightarrow> rstring option) \<Rightarrow> bool" where [test_run]:
  "serialise_display_payload_logs_again_after_a_success to_string \<longleftrightarrow>
     (case serialise_display_payload to_string failing_payload False of (already_logged, errors1, _) \<Rightarrow>
      case serialise_display_payload to_string (display_payload_new 1) already_logged of (already_logged, errors2, _) \<Rightarrow>
      case serialise_display_payload to_string failing_payload already_logged of (already_logged, errors3, _) \<Rightarrow>
        errors1 + errors2 + errors3 = 2)"

definition initial_serialised_snapshot_passes_through_a_valid_payload_unchanged ::
  "(display_payload \<Rightarrow> rstring option) \<Rightarrow> bool" where [test_run]:
  "initial_serialised_snapshot_passes_through_a_valid_payload_unchanged to_string \<longleftrightarrow>
     (case initial_serialised_snapshot to_string (display_payload_new 1) False of (already_logged, errors, seeded) \<Rightarrow>
        to_string (display_payload_new 1) = Some seeded \<and> \<not> already_logged)"

definition initial_serialised_snapshot_falls_back_to_empty_channels_on_non_finite_value ::
  "(display_payload \<Rightarrow> rstring option) \<Rightarrow> bool" where [test_run]:
  "initial_serialised_snapshot_falls_back_to_empty_channels_on_non_finite_value to_string \<longleftrightarrow>
     (case initial_serialised_snapshot to_string failing_payload False of (already_logged, errors, seeded) \<Rightarrow>
        seeded = lit (''{'' @ [CHR 0x22] @ ''channels'' @ [CHR 0x22] @ '':[]}'') \<and> already_logged)"

text \<open>
  The initial snapshot writes a line of its own beside the rejection, which the test does not count.
\<close>

definition initial_serialised_snapshot_shares_the_logging_streak_with_the_frame_loop ::
  "(display_payload \<Rightarrow> rstring option) \<Rightarrow> bool" where [test_run]:
  "initial_serialised_snapshot_shares_the_logging_streak_with_the_frame_loop to_string \<longleftrightarrow>
     (case initial_serialised_snapshot to_string failing_payload False of (already_logged, errors1, seeded) \<Rightarrow>
      case serialise_display_payload to_string failing_payload already_logged of (already_logged, errors2, _) \<Rightarrow>
        (errors1 - 1) + errors2 = 1)"

lemma payloads_finite [test_run]: "\<not> payload_finite failing_payload" "payload_finite (display_payload_new n)"
  by (simp_all add: failing_payload_def payload_finite_def level_finite_def display_payload_new_def
    channel_level_default_def list_all_length f32_consts float_eval)

lemmas [test_run] = has_connected_clients_def RETAINED_SERIALISED_RECEIVERS_def serialise_display_payload_def
  initial_serialised_snapshot_def EMPTY_DISPLAY_PAYLOAD_JSON_def

lemma server_tests:
  has_connected_clients_is_false_for_the_retained_receiver_alone
  has_connected_clients_is_true_above_the_retained_count
  "serialise_display_payload_rejects_non_finite_values_once_per_streak to_string"
  "initial_serialised_snapshot_falls_back_to_empty_channels_on_non_finite_value to_string"
  "initial_serialised_snapshot_shares_the_logging_streak_with_the_frame_loop to_string"
  by (simp_all add: test_run)

text \<open>The encoder has to accept the default payload in the tests that encode it.\<close>

lemma server_encoding_tests:
  assumes "to_string (display_payload_new 1) = Some json"
  shows "serialise_display_payload_logs_again_after_a_success to_string"
    "initial_serialised_snapshot_passes_through_a_valid_payload_unchanged to_string"
  using assms by (simp_all add: test_run)

end
