(* ===== verification/Spec2Isabelle.thy ===== *)
theory Spec2Isabelle
  imports Config_Resolve Vocoder Analyser Audio Midi Mapper Frames Seqlock Frame_Writer
    Worker Headless Generator Osc Server Bootstrap Pipeline App Entry
    Xpc_Protocol Xpc_Service Xpc_Runs Xpc_Events Xpc_Races Xpc_Contract Xpc_Objects Xpc_Refs
    Midi_Thread Logging
    Tests_Config Tests_Xpc Tests_Inputs Tests_Pipeline Tests_App
begin

text \<open>
  Verification of Phase4, a program that analyses audio in real time and broadcasts the result.

  \<^bold>\<open>The program.\<close> One process runs a pipeline of threads. The audio callback (or, in calibration, the
  signal generator) writes samples into a lock-free ring; the analyser takes them out, runs a filter
  bank per channel and puts a payload into a watch cell; the mapper copies the newest payload, sixty
  times a second and with a snapshot of the MIDI atomics, into the display cell; from there the
  outputs take it: a WebSocket server, an OSC sender, and a writer of shared memory frames. Startup
  merges three configuration layers, checks them, resolves the hardware, and starts the threads in
  pipeline order; shutdown clears one flag and joins them in that order. The process is supervised from a
  terminal, from a host that reads an event stream, or from a client of an XPC service.

  \<^bold>\<open>Which theory models what.\<close> All sources are under \<^verbatim>\<open>src/src/\<close>; definitions have the names of the
  code, constants included, with record fields prefixed by the record.

    \<^item> \<open>Prelude\<close>: strings and results of Rust, strided loops over interleaved buffers, and the locale
      \<open>transition_system\<close> that every state machine below interprets. \<open>Ieee_Float\<close>: \<^verbatim>\<open>f32\<close> and
      \<^verbatim>\<open>f64\<close> bit for bit, as rounding of exact rationals.
    \<^item> \<open>Config_Types\<close> (\<^verbatim>\<open>config/types.rs\<close>, \<^verbatim>\<open>lib.rs\<close>), \<open>Config_Validate\<close> (\<^verbatim>\<open>config/validate.rs\<close>),
      \<open>Config_Resolve\<close> (\<^verbatim>\<open>config/resolve.rs\<close>): the layers, the checks with all their errors, the merge.
      What resolves is valid; the command line overrides the file.
    \<^item> \<open>Payload\<close> (\<^verbatim>\<open>dsp/payload.rs\<close>, \<^verbatim>\<open>dsp/units.rs\<close>), \<open>Vocoder\<close> (\<^verbatim>\<open>dsp/vocoder.rs\<close>): the filter bank
      and envelope followers. Every published bin is finite and not negative; bands are independent.
    \<^item> \<open>Audio\<close> (\<^verbatim>\<open>managers/audio.rs\<close>), \<open>Generator\<close> (\<^verbatim>\<open>managers/generator.rs\<close>), \<open>Analyser\<close>
      (\<^verbatim>\<open>managers/analyser.rs\<close>): the two producers and the consumer of the ring. Producers commit whole
      frames only, an interface stated as the locale \<open>whole_frame_writer\<close>; the analyser's result does not
      depend on how the ring cuts the stream, and its drain ends with the ring empty. \<open>Pipeline\<close>
      composes callback and analyser over one ring, access by access, from an accepted start.
    \<^item> \<open>App_State\<close> and \<open>App\<close> (\<^verbatim>\<open>app.rs\<close>), \<open>Midi\<close> (\<^verbatim>\<open>managers/midi.rs\<close>), \<open>Mapper\<close>
      (\<^verbatim>\<open>managers/mapper.rs\<close>): the shared atomics, their writers as sequences of single accesses, the mapper's
      loop. A Start the mapper reports has its step count; one payload per tick.
    \<^item> \<open>Frames\<close> and \<open>Seqlock\<close> (\<^verbatim>\<open>frames.rs\<close>), \<open>Frame_Writer\<close> (\<^verbatim>\<open>managers/frame_writer.rs\<close>): the region as
      words of memory, the sequence lock with writer and reader interleaved access by access: no torn
      frame is ever returned. The frame writer's loop, and its three MIDI loads
      interleaved with the MIDI thread: in the code's order a frame can name a Start with older steps.
    \<^item> \<open>Osc\<close> (\<^verbatim>\<open>managers/osc.rs\<close>): the packets built once and changed in place refine the payloads.
      \<open>Server\<close> (\<^verbatim>\<open>managers/server.rs\<close>): serialiser, accept loop and clients as a step relation, in
      which a client's write is a wait of its own: what a client sees, when a connection gets a slot, and
      the end of the server, whose notice reaches the clients that wait in their loop at the stop.
    \<^item> \<open>Worker\<close> (\<^verbatim>\<open>worker.rs\<close>), \<open>Bootstrap\<close> (\<^verbatim>\<open>bootstrap.rs\<close>): bounded joins in order; what is started,
      and that a failure at any point sends every started thread through its bounded join.
    \<^item> \<open>Headless\<close> (\<^verbatim>\<open>headless.rs\<close>), \<open>App\<close>, \<open>Entry\<close> (\<^verbatim>\<open>controller.rs\<close>, \<^verbatim>\<open>main.rs\<close>): why a run ends, that it ends,
      the event stream with its exit code, and that the terminal is given back.
    \<^item> \<open>Xpc_Protocol\<close> (\<^verbatim>\<open>xpc/protocol.rs\<close> and the typed reads of \<^verbatim>\<open>xpc/ffi.rs\<close>): requests, their errors, and
      the configuration of a start. \<open>Xpc_Service\<close> (\<^verbatim>\<open>xpc/service.rs\<close>): the handler and the monitors
      as a step relation. \<open>Xpc_Runs\<close>: each run is ended by one thread, once; the handler is never stuck.
      \<open>Xpc_Events\<close>: what the client is told of a run, message by message until the run is over, less
      only what had no peer to go to. \<open>Xpc_Races\<close>: what can overtake the end of a run that
      failed. \<open>Xpc_Contract\<close>: the message types of \<^verbatim>\<open>docs/xpc.md\<close>, which every message sent has.
    \<^item> \<open>Xpc_Objects\<close> and \<open>Xpc_Refs\<close> (\<^verbatim>\<open>xpc/ffi.rs\<close>): the parser over live objects, whose types are compared
      by address, refines the parser over values; and the service's functions as programs over owned
      references, with all their interleavings: nothing is used after its release and nothing leaks.
    \<^item> \<open>Midi_Thread\<close> (\<^verbatim>\<open>managers/midi.rs\<close>, \<^verbatim>\<open>worker.rs\<close>): the parked thread and the join loop that wakes
      it. \<open>Logging\<close> (\<^verbatim>\<open>managers/mod.rs\<close>, \<^verbatim>\<open>xpc/logging.rs\<close> and the listings of \<^verbatim>\<open>managers/audio.rs\<close> and
      \<^verbatim>\<open>managers/midi.rs\<close>): the lines the program writes, and that a listed name opens the listed device.
    \<^item> \<open>Tests_Prelude\<close>, \<open>Tests_Config\<close>, \<open>Tests_Xpc\<close>, \<open>Tests_Inputs\<close>, \<open>Tests_Pipeline\<close>, \<open>Tests_App\<close>: the unit
      tests of the repository run on the model, as evidence that the model is the code. A definition
      with the name of a test is what the test asserts, and one lemma per group shows that it holds.
      Left out are the tests that need what is a parameter here (the text of YAML and JSON, the biquad
      filter and the math library, an asynchronous runtime, real threads, sockets and devices).

  \<^bold>\<open>How it is modelled.\<close> Operations are functions on records; a panic is \<open>None\<close>, an error a left value
  with the code's variants. Integers keep their width where they can overflow; where the code widens or
  checks first, they are natural numbers. Atomics that several threads touch appear as single accesses, and
  the threads as step relations over them; a critical section of a mutex is one step. What is not under
  \<^verbatim>\<open>src/\<close> is a parameter: the ring (\<open>producer_laws\<close>, \<open>consumer_laws\<close>, \<open>ring_pair_laws\<close>), the watch cell
  (\<open>watch_laws\<close>), the objects of libxpc (\<open>libxpc\<close>), the biquad filter and the mathematical library, the socket and the encoders, the YAML
  parser, the devices (\<open>host\<close>), the delays of the scheduler. Every law has an instance in a witness.

  \<^bold>\<open>Loops.\<close> The join loops and the drain of the analyser have termination proofs or are proved to return;
  loops that run for as long as the process does take the list of their events (ticks, polls,
  payloads), and the theorems hold for every list. No fuel is used.

  \<^bold>\<open>Time.\<close> Deadlines are natural numbers of the code's unit; the joins' clock counts nanoseconds and its
  delays are a parameter bounded by a constant in the theorem on shutdown.

  \<^bold>\<open>Not modelled.\<close> The command line parser (clap), the JSON text of serde, log lines that decide nothing
  (the text of the listings, of the two log writers and of the warning on priorities is), thread
  priorities, and Apple's functions behind \<^verbatim>\<open>xpc/ffi.rs\<close>: the block that wraps an event handler, and the
  main function of the XPC binary, which gives control to \<^verbatim>\<open>xpc_main\<close>. Memory orderings weaker than
  sequential consistency are not distinguished. In the step relation of the XPC service, the messages a
  connection may still deliver after its termination notice, and messages that expect no reply, are left
  out; the programs of \<open>Xpc_Refs\<close> have the latter.
\<close>

end
